theory Spec2Isabelle
  imports Main "HOL-Library.AList"
begin

section \<open>Strings\<close>

text \<open>
  JavaScript strings are modelled as \<^typ>\<open>string\<close>, one \<^typ>\<open>char\<close> per code unit:
  the code units up to U+00FF. Code units beyond 8 bits are outside the model.
\<close>

definition upper_letters :: string where
  "upper_letters =
     ''ABCDEFGHIJKLMNOPQRSTUVWXYZ'' @
     [CHR 0xC0, CHR 0xC1, CHR 0xC2, CHR 0xC3, CHR 0xC4, CHR 0xC5, CHR 0xC6, CHR 0xC7,
      CHR 0xC8, CHR 0xC9, CHR 0xCA, CHR 0xCB, CHR 0xCC, CHR 0xCD, CHR 0xCE, CHR 0xCF,
      CHR 0xD0, CHR 0xD1, CHR 0xD2, CHR 0xD3, CHR 0xD4, CHR 0xD5, CHR 0xD6, CHR 0xD8,
      CHR 0xD9, CHR 0xDA, CHR 0xDB, CHR 0xDC, CHR 0xDD, CHR 0xDE]"

definition lower_letters :: string where
  "lower_letters =
     ''abcdefghijklmnopqrstuvwxyz'' @
     [CHR 0xE0, CHR 0xE1, CHR 0xE2, CHR 0xE3, CHR 0xE4, CHR 0xE5, CHR 0xE6, CHR 0xE7,
      CHR 0xE8, CHR 0xE9, CHR 0xEA, CHR 0xEB, CHR 0xEC, CHR 0xED, CHR 0xEE, CHR 0xEF,
      CHR 0xF0, CHR 0xF1, CHR 0xF2, CHR 0xF3, CHR 0xF4, CHR 0xF5, CHR 0xF6, CHR 0xF8,
      CHR 0xF9, CHR 0xFA, CHR 0xFB, CHR 0xFC, CHR 0xFD, CHR 0xFE]"

definition toLowerChar :: "char \<Rightarrow> char" where
  "toLowerChar c = (case map_of (zip upper_letters lower_letters) c of Some d \<Rightarrow> d | None \<Rightarrow> c)"

definition toLowerCase :: "string \<Rightarrow> string" where
  "toLowerCase s = map toLowerChar s"

text \<open>
  The upper case of U+00DF is \<open>SS\<close>, and the upper cases of U+00B5 and U+00FF are the
  code units U+039C and U+0178, which are beyond 8 bits. So the result of
  \<open>toUpperCase\<close> is given as the list of its code units, and the strings it is compared
  with likewise.
\<close>

definition code_units :: "string \<Rightarrow> nat list" where
  "code_units s = map of_char s"

definition toUpperChar :: "char \<Rightarrow> nat list" where
  "toUpperChar c =
     (if c = CHR 0xDF then code_units ''SS''
      else if c = CHR 0xB5 then [0x39C]
      else if c = CHR 0xFF then [0x178]
      else (case map_of (zip lower_letters upper_letters) c of
              Some d \<Rightarrow> code_units [d]
            | None \<Rightarrow> code_units [c]))"

definition toUpperCase :: "string \<Rightarrow> nat list" where
  "toUpperCase s = concat (map toUpperChar s)"

text \<open>\<open>s.startsWith(k)\<close> and \<open>s.includes(k)\<close>.\<close>

fun startsWith :: "string \<Rightarrow> string \<Rightarrow> bool" where
  "startsWith s [] = True"
| "startsWith [] (k # ks) = False"
| "startsWith (c # s) (k # ks) = (c = k \<and> startsWith s ks)"

fun str_includes :: "string \<Rightarrow> string \<Rightarrow> bool" where
  "str_includes [] k = (k = [])"
| "str_includes (c # s) k = (startsWith (c # s) k \<or> str_includes s k)"

text \<open>
  \<open>s.trim()\<close>: white space and line terminators are removed at both ends. Of these,
  the code units up to U+00FF are tab, line feed, vertical tab, form feed, carriage
  return, space and no-break space.
\<close>

definition isWhiteSpace :: "char \<Rightarrow> bool" where
  "isWhiteSpace c =
     (c \<in> set [CHR 0x09, CHR 0x0A, CHR 0x0B, CHR 0x0C, CHR 0x0D, CHR 0x20, CHR 0xA0])"

definition trim :: "string \<Rightarrow> string" where
  "trim s = rev (dropWhile isWhiteSpace (rev (dropWhile isWhiteSpace s)))"

definition isDigit :: "char \<Rightarrow> bool" where
  "isDigit c = (c \<in> set ''0123456789'')"

text \<open>Some of a list of keywords occurs in the message.\<close>

definition includes_any :: "string \<Rightarrow> string list \<Rightarrow> bool" where
  "includes_any msg ks = list_ex (str_includes msg) ks"

section \<open>Classification of upstream errors (proxy.service.ts)\<close>

record decision =
  retry :: bool
  markAsForbidden :: bool
  markAsRateLimited :: bool

definition classifyUpstreamError :: "string \<Rightarrow> decision" where
  "classifyUpstreamError errorMessage =
     (let msg = toLowerCase errorMessage;
          isForbidden =
            (str_includes msg ''401'' \<or>
             str_includes msg ''unauthorized'' \<or>
             str_includes msg ''invalid_grant'' \<or>
             str_includes msg ''403'' \<or>
             str_includes msg ''permission_denied'' \<or>
             str_includes msg ''forbidden'')
      in if isForbidden
         then \<lparr>retry = True, markAsForbidden = True, markAsRateLimited = False\<rparr>
         else
           let isRateLimitedSignal =
                 (str_includes msg ''429'' \<or>
                  str_includes msg ''resource_exhausted'' \<or>
                  str_includes msg ''quota'' \<or>
                  str_includes msg ''rate_limit'' \<or>
                  str_includes msg ''rate limit'');
               shouldRetryByStatus =
                 (str_includes msg ''408'' \<or>
                  str_includes msg ''429'' \<or>
                  str_includes msg ''500'' \<or>
                  str_includes msg ''502'' \<or>
                  str_includes msg ''503'' \<or>
                  str_includes msg ''504'');
               shouldRetryByKeyword =
                 (str_includes msg ''resource_exhausted'' \<or>
                  str_includes msg ''quota'' \<or>
                  str_includes msg ''rate_limit'' \<or>
                  str_includes msg ''timeout'' \<or>
                  str_includes msg ''socket hang up'' \<or>
                  str_includes msg ''empty response stream'' \<or>
                  str_includes msg ''connection reset'')
           in if shouldRetryByStatus \<or> shouldRetryByKeyword
              then \<lparr>retry = True, markAsForbidden = False,
                     markAsRateLimited = isRateLimitedSignal\<rparr>
              else \<lparr>retry = False, markAsForbidden = False, markAsRateLimited = False\<rparr>)"

definition isProjectLicenseError :: "string \<Rightarrow> bool" where
  "isProjectLicenseError errorMessage =
     (let msg = toLowerCase errorMessage
      in str_includes msg ''#3501'' \<or>
         (str_includes msg ''google cloud project'' \<and> str_includes msg ''code assist license''))"

definition isProjectNotFoundError :: "string \<Rightarrow> bool" where
  "isProjectNotFoundError errorMessage =
     (let msg = toLowerCase errorMessage
      in (str_includes msg ''resource projects/'' \<and> str_includes msg ''could not be found'') \<or>
         (str_includes msg ''project'' \<and> str_includes msg ''not found''))"

definition isProjectContextError :: "string \<Rightarrow> bool" where
  "isProjectContextError errorMessage =
     (isProjectLicenseError errorMessage \<or> isProjectNotFoundError errorMessage)"

definition isQuotaExhaustedError :: "string \<Rightarrow> bool" where
  "isQuotaExhaustedError errorMessage =
     (let msg = toLowerCase errorMessage
      in str_includes msg ''resource has been exhausted'' \<or>
         str_includes msg ''resource_exhausted'' \<or>
         str_includes msg ''quota'')"

text \<open>The keyword lists of the error taxonomy, as the specification words them.\<close>

definition forbidden_keywords :: "string list" where
  "forbidden_keywords =
     [''401'', ''unauthorized'', ''invalid_grant'', ''403'', ''permission_denied'', ''forbidden'']"

definition rate_limit_keywords :: "string list" where
  "rate_limit_keywords = [''429'', ''resource_exhausted'', ''quota'', ''rate_limit'']"

definition transient_keywords :: "string list" where
  "transient_keywords =
     [''408'', ''500'', ''502'', ''503'', ''504'',
      ''socket hang up'', ''timeout'', ''empty response stream'', ''connection reset'']"

section \<open>The token pool (TokenManagerService)\<close>

text \<open>
  Times are integers: milliseconds for the clock, seconds for token expiry. The token
  map is an association list with distinct keys in insertion order, as a JavaScript
  \<open>Map\<close> keeps them, since the selection indexes into it; \<open>Map.set\<close> is
  \<^const>\<open>AList.update\<close>. The cooldowns and the session bindings are only looked up by
  key, and are maps.
\<close>

record CloudTokenData =
  ct_access_token :: string
  ct_refresh_token :: string
  ct_expires_in :: int
  ct_expiry_timestamp :: int
  ct_token_type :: string
  ct_project_id :: "string option"
  ct_session_id :: "string option"
  ct_upstream_proxy_url :: "string option"

record CloudAccount =
  acc_id :: string
  acc_provider :: string
  acc_email :: string
  acc_token :: "CloudTokenData option"
  acc_created_at :: int
  acc_last_used :: int

record TokenData =
  td_email :: string
  td_account_id :: string
  access_token :: string
  refresh_token :: string
  token_type :: string
  expires_in :: int
  expiry_timestamp :: int
  project_id :: "string option"
  session_id :: "string option"
  upstream_proxy_url :: "string option"

record binding =
  b_accountId :: string
  b_expiresAt :: int

record pool =
  tokens :: "(string \<times> TokenData) list"
  cooldowns :: "string \<rightharpoonup> int"
  sessionBindings :: "string \<rightharpoonup> binding"
  currentIndex :: nat

text \<open>
  What a call of the service reads from outside: the account store (\<open>None\<close> when
  \<open>CloudAccountRepo.getAccounts\<close> throws), the token refresher (\<open>None\<close> when
  \<open>GoogleAPIService.refreshAccessToken\<close> throws, else the new access token and its
  \<open>expires_in\<close>), the random session id drawn for an account that has none, and the
  three readings of \<open>Date.now()\<close>: at selection, when the session binding is written,
  and for the time stamp of the returned account.
\<close>

record tm_env =
  getAccounts :: "CloudAccount list option"
  refreshAccessToken :: "string \<Rightarrow> (string \<times> int) option"
  generateSessionId :: "string \<Rightarrow> string"
  now_select :: int
  now_bind :: int
  now_stamp :: int

record select_options =
  opt_sessionKey :: "string option"
  opt_excludeAccountIds :: "string list"

definition stickySessionTtlMs :: int where
  "stickySessionTtlMs = 10 * 60 * 1000"

definition rateLimitCooldownMs :: int where
  "rateLimitCooldownMs = 5 * 60 * 1000"

definition forbiddenCooldownMs :: int where
  "forbiddenCooldownMs = 30 * 60 * 1000"

text \<open>\<open>s || undefined\<close> on an optional string: the empty string becomes undefined.\<close>

definition or_undefined :: "string option \<Rightarrow> string option" where
  "or_undefined s = (case s of None \<Rightarrow> None | Some v \<Rightarrow> if v = [] then None else Some v)"

definition convertAccountToToken :: "tm_env \<Rightarrow> CloudAccount \<Rightarrow> TokenData option" where
  "convertAccountToToken env account =
     (case acc_token account of
        None \<Rightarrow> None
      | Some t \<Rightarrow>
          Some \<lparr>td_email = acc_email account,
                td_account_id = acc_id account,
                access_token = ct_access_token t,
                refresh_token = ct_refresh_token t,
                token_type = (if ct_token_type t = [] then ''Bearer'' else ct_token_type t),
                expires_in = ct_expires_in t,
                expiry_timestamp = ct_expiry_timestamp t,
                project_id = or_undefined (ct_project_id t),
                session_id =
                  (case or_undefined (ct_session_id t) of
                     None \<Rightarrow> Some (generateSessionId env (acc_id account))
                   | Some v \<Rightarrow> Some v),
                upstream_proxy_url = or_undefined (ct_upstream_proxy_url t)\<rparr>)"

fun loadInto :: "tm_env \<Rightarrow> CloudAccount list \<Rightarrow> (string \<times> TokenData) list \<Rightarrow>
    (string \<times> TokenData) list" where
  "loadInto env [] ts = ts"
| "loadInto env (account # accounts) ts =
     (case convertAccountToToken env account of
        None \<Rightarrow> loadInto env accounts ts
      | Some tokenData \<Rightarrow> loadInto env accounts (AList.update (acc_id account) tokenData ts))"

definition loadAccounts :: "tm_env \<Rightarrow> pool \<Rightarrow> pool" where
  "loadAccounts env p =
     (case getAccounts env of
        None \<Rightarrow> p
      | Some accounts \<Rightarrow> p\<lparr>tokens := loadInto env accounts (tokens p)\<rparr>)"

definition clearExpiredSessionBindings :: "int \<Rightarrow> pool \<Rightarrow> pool" where
  "clearExpiredSessionBindings now p =
     p\<lparr>sessionBindings :=
         (\<lambda>k. case sessionBindings p k of
                None \<Rightarrow> None
              | Some b \<Rightarrow> if b_expiresAt b \<le> now then None else Some b)\<rparr>"

definition resolveAccountId :: "pool \<Rightarrow> string \<Rightarrow> string option" where
  "resolveAccountId p accountIdOrEmail =
     (if map_of (tokens p) accountIdOrEmail \<noteq> None then Some accountIdOrEmail
      else map_option fst (find (\<lambda>(a, tokenData). td_email tokenData = accountIdOrEmail) (tokens p)))"

definition markInCooldown :: "int \<Rightarrow> string \<Rightarrow> int \<Rightarrow> pool \<Rightarrow> pool" where
  "markInCooldown now accountIdOrEmail durationMs p =
     (let accountId = (case resolveAccountId p accountIdOrEmail of
                         None \<Rightarrow> accountIdOrEmail
                       | Some a \<Rightarrow> a);
          cooldownUntil = now + durationMs
      in p\<lparr>cooldowns := (cooldowns p)(accountId \<mapsto> cooldownUntil)\<rparr>)"

definition markAsRateLimited_tm :: "int \<Rightarrow> string \<Rightarrow> pool \<Rightarrow> pool" where
  "markAsRateLimited_tm now accountIdOrEmail p =
     markInCooldown now accountIdOrEmail rateLimitCooldownMs p"

definition markAsForbidden_tm :: "int \<Rightarrow> string \<Rightarrow> pool \<Rightarrow> pool" where
  "markAsForbidden_tm now accountIdOrEmail p =
     markInCooldown now accountIdOrEmail forbiddenCooldownMs p"

text \<open>The test \<open>/^cloud-code-\d+$/i\<close> of \<open>finalizeSelectedToken\<close>.\<close>

definition is_cloud_code_id :: "string \<Rightarrow> bool" where
  "is_cloud_code_id s =
     (let n = length ''cloud-code-''
      in toLowerCase (take n s) = ''cloud-code-'' \<and> drop n s \<noteq> [] \<and> list_all isDigit (drop n s))"

definition sanitize_project_id :: "string option \<Rightarrow> string option" where
  "sanitize_project_id pid =
     (case pid of
        None \<Rightarrow> None
      | Some s \<Rightarrow> if trim s = [] \<or> is_cloud_code_id (trim s) then None else Some s)"

text \<open>
  \<open>finalizeSelectedToken\<close>. The token data it changes is the object the pool holds, so
  the pool's entry changes with it. A failed refresh is logged and the stale token is used.
  Writing the refreshed token to the store changes nothing the pool reads afterwards.
\<close>

definition finalizeSelectedToken ::
    "tm_env \<Rightarrow> string \<Rightarrow> TokenData \<Rightarrow> int \<Rightarrow> string option \<Rightarrow> pool \<Rightarrow> CloudAccount option \<times> pool" where
  "finalizeSelectedToken env accountId tokenData nowSeconds sessionKey p =
     (let refreshed =
            (if nowSeconds \<ge> expiry_timestamp tokenData - 300
             then (case refreshAccessToken env (refresh_token tokenData) of
                     None \<Rightarrow> tokenData
                   | Some (newAccess, newExpiresIn) \<Rightarrow>
                       tokenData\<lparr>access_token := newAccess,
                                 expires_in := newExpiresIn,
                                 expiry_timestamp := nowSeconds + newExpiresIn\<rparr>)
             else tokenData);
          tokenData' = refreshed\<lparr>project_id := sanitize_project_id (project_id refreshed)\<rparr>;
          p1 = p\<lparr>tokens := AList.update accountId tokenData' (tokens p)\<rparr>;
          p2 = (case sessionKey of
                  None \<Rightarrow> p1
                | Some k \<Rightarrow>
                    if k = [] then p1
                    else p1\<lparr>sessionBindings :=
                           (sessionBindings p1)
                             (k \<mapsto> \<lparr>b_accountId = accountId,
                                   b_expiresAt = now_bind env + stickySessionTtlMs\<rparr>)\<rparr>);
          timestamp = now_stamp env;
          cloudAccount =
            \<lparr>acc_id = accountId,
             acc_provider = ''google'',
             acc_email = td_email tokenData',
             acc_token = Some \<lparr>ct_access_token = access_token tokenData',
                           ct_refresh_token = refresh_token tokenData',
                           ct_expires_in = expires_in tokenData',
                           ct_expiry_timestamp = expiry_timestamp tokenData',
                           ct_token_type = token_type tokenData',
                           ct_project_id = project_id tokenData',
                           ct_session_id = session_id tokenData',
                           ct_upstream_proxy_url = upstream_proxy_url tokenData'\<rparr>,
             acc_created_at = timestamp,
             acc_last_used = timestamp\<rparr>
      in (Some cloudAccount, p2))"

text \<open>The candidate sets of \<open>getNextToken\<close>, in the order the code computes them.\<close>

definition excludedFilteredTokens :: "string list \<Rightarrow> pool \<Rightarrow> (string \<times> TokenData) list" where
  "excludedFilteredTokens excl p = filter (\<lambda>(a, t). a \<notin> set excl) (tokens p)"

definition allTokens :: "string list \<Rightarrow> pool \<Rightarrow> (string \<times> TokenData) list" where
  "allTokens excl p =
     (if excludedFilteredTokens excl p \<noteq> [] then excludedFilteredTokens excl p else tokens p)"

definition in_cooldown :: "int \<Rightarrow> pool \<Rightarrow> string \<Rightarrow> bool" where
  "in_cooldown now p a =
     (case cooldowns p a of
        None \<Rightarrow> False
      | Some cooldownUntil \<Rightarrow> cooldownUntil \<noteq> 0 \<and> now < cooldownUntil)"

definition validTokens :: "int \<Rightarrow> string list \<Rightarrow> pool \<Rightarrow> (string \<times> TokenData) list" where
  "validTokens now excl p =
     filter (\<lambda>(a, t). if a \<in> set excl then False else \<not> in_cooldown now p a) (allTokens excl p)"

definition candidateTokens :: "int \<Rightarrow> string list \<Rightarrow> pool \<Rightarrow> (string \<times> TokenData) list" where
  "candidateTokens now excl p =
     (if validTokens now excl p \<noteq> [] then validTokens now excl p else allTokens excl p)"

definition stickyMatch ::
    "int \<Rightarrow> string option \<Rightarrow> (string \<times> TokenData) list \<Rightarrow> pool \<Rightarrow> (string \<times> TokenData) option" where
  "stickyMatch now sessionKey cands p =
     (case sessionKey of
        None \<Rightarrow> None
      | Some k \<Rightarrow>
          if k = [] then None
          else (case sessionBindings p k of
                  None \<Rightarrow> None
                | Some stickyBinding \<Rightarrow>
                    if b_expiresAt stickyBinding > now
                    then find (\<lambda>(a, t). a = b_accountId stickyBinding) cands
                    else None))"

text \<open>The pool after \<open>if (this.tokens.size === 0) await this.loadAccounts()\<close>.\<close>

definition reloaded :: "tm_env \<Rightarrow> pool \<Rightarrow> pool" where
  "reloaded env p0 = (if tokens p0 = [] then loadAccounts env p0 else p0)"

definition getNextToken :: "tm_env \<Rightarrow> select_options \<Rightarrow> pool \<Rightarrow> CloudAccount option \<times> pool" where
  "getNextToken env options p0 =
     (let p1 = reloaded env p0
      in if tokens p1 = [] then (None, p1)
         else
           let now = now_select env;
               nowSeconds = now div 1000;
               sessionKey = map_option trim (opt_sessionKey options);
               excl = opt_excludeAccountIds options;
               p2 = clearExpiredSessionBindings now p1;
               cands = candidateTokens now excl p2
           in if cands = [] then (None, p2)
              else (case stickyMatch now sessionKey cands p2 of
                      Some (stickyAccountId, stickyTokenData) \<Rightarrow>
                        finalizeSelectedToken env stickyAccountId stickyTokenData nowSeconds
                          sessionKey p2
                    | None \<Rightarrow>
                        let (accountId, tokenData) = cands ! (currentIndex p2 mod length cands);
                            p3 = p2\<lparr>currentIndex := currentIndex p2 + 1\<rparr>
                        in finalizeSelectedToken env accountId tokenData nowSeconds sessionKey p3))"

text \<open>
  The pool a selection works on (reloaded when empty, expired bindings cleared) and the
  candidate set it computes there.
\<close>

definition selection_pool :: "tm_env \<Rightarrow> pool \<Rightarrow> pool" where
  "selection_pool env p0 = clearExpiredSessionBindings (now_select env) (reloaded env p0)"

definition selection_candidates :: "tm_env \<Rightarrow> select_options \<Rightarrow> pool \<Rightarrow> (string \<times> TokenData) list" where
  "selection_candidates env options p0 =
     candidateTokens (now_select env) (opt_excludeAccountIds options) (selection_pool env p0)"

section \<open>Example data\<close>

definition ex_token :: "string \<Rightarrow> string option \<Rightarrow> TokenData" where
  "ex_token a pid =
     \<lparr>td_email = a @ ''@test.com'', td_account_id = a, access_token = ''token-'' @ a,
      refresh_token = ''refresh'', token_type = ''Bearer'', expires_in = 3600,
      expiry_timestamp = 2000000, project_id = pid, session_id = Some ''session-1'',
      upstream_proxy_url = None\<rparr>"

definition ex_pool :: pool where
  "ex_pool =
     \<lparr>tokens = [(''A'', ex_token ''A'' (Some ''Cloud-Code-123 '')),
                (''B'', ex_token ''B'' (Some ''project-1''))],
      cooldowns = Map.empty, sessionBindings = Map.empty, currentIndex = 0\<rparr>"

definition ex_env :: "int \<Rightarrow> tm_env" where
  "ex_env now =
     \<lparr>getAccounts = None, refreshAccessToken = (\<lambda>r. None), generateSessionId = (\<lambda>a. ''-1''),
      now_select = now, now_bind = now + 1, now_stamp = now + 2\<rparr>"

definition ex_opts_all_excluded :: select_options where
  "ex_opts_all_excluded = \<lparr>opt_sessionKey = None, opt_excludeAccountIds = [''A'', ''B'']\<rparr>"

section \<open>JavaScript values\<close>

text \<open>
  The values that \<open>JSON.parse\<close> and object literals produce. Numbers are integers:
  fractions are outside the model, and \<open>JNum n\<close> stands for the Number value nearest
  to \<open>n\<close>, which is \<open>n\<close> itself up to \<open>2^53\<close>. An object is the list of its members
  in insertion order, and a lookup takes the first member of that name.
\<close>

datatype jsval =
    JUndefined
  | JNull
  | JBool bool
  | JNum int
  | JStr string
  | JArr "jsval list"
  | JObj "(string \<times> jsval) list"

fun truthy :: "jsval \<Rightarrow> bool" where
  "truthy JUndefined = False"
| "truthy JNull = False"
| "truthy (JBool b) = b"
| "truthy (JNum n) = (n \<noteq> 0)"
| "truthy (JStr s) = (s \<noteq> [])"
| "truthy (JArr xs) = True"
| "truthy (JObj kvs) = True"

fun nullish :: "jsval \<Rightarrow> bool" where
  "nullish JUndefined = True"
| "nullish JNull = True"
| "nullish v = False"

text \<open>
  \<open>v.k\<close> for a value that is neither null nor undefined, and a member name \<open>k\<close> that
  no prototype defines (every name the modelled code reads is such a name).
\<close>

fun js_get :: "jsval \<Rightarrow> string \<Rightarrow> jsval" where
  "js_get (JObj kvs) k = (case map_of kvs k of Some v \<Rightarrow> v | None \<Rightarrow> JUndefined)"
| "js_get v k = JUndefined"

text \<open>\<open>v?.k\<close> and \<open>v?.[0]\<close>.\<close>

definition opt_get :: "jsval \<Rightarrow> string \<Rightarrow> jsval" where
  "opt_get v k = (if nullish v then JUndefined else js_get v k)"

fun opt_index0 :: "jsval \<Rightarrow> jsval" where
  "opt_index0 (JArr xs) = (case xs of [] \<Rightarrow> JUndefined | x # r \<Rightarrow> x)"
| "opt_index0 (JStr s) = (case s of [] \<Rightarrow> JUndefined | c # r \<Rightarrow> JStr [c])"
| "opt_index0 (JObj kvs) = js_get (JObj kvs) ''0''"
| "opt_index0 v = JUndefined"

text \<open>\<open>a || b\<close> and \<open>a ?? b\<close>.\<close>

definition js_or :: "jsval \<Rightarrow> jsval \<Rightarrow> jsval" where
  "js_or a b = (if truthy a then a else b)"

definition js_coalesce :: "jsval \<Rightarrow> jsval \<Rightarrow> jsval" where
  "js_coalesce a b = (if nullish a then b else a)"

text \<open>\<open>isRecord\<close> of proxy.service.ts, which is also \<open>isGeminiPart\<close>.\<close>

fun isRecord :: "jsval \<Rightarrow> bool" where
  "isRecord (JObj kvs) = True"
| "isRecord v = False"

definition isGeminiPart :: "jsval \<Rightarrow> bool" where
  "isGeminiPart v = isRecord v"

text \<open>Decimal notation of an integer that is not negative.\<close>

definition digit_char :: "nat \<Rightarrow> char" where
  "digit_char d = ''0123456789abcdef'' ! d"

function digits :: "int \<Rightarrow> string" where
  "digits n =
     (if n < 10 then [digit_char (nat n)] else digits (n div 10) @ [digit_char (nat (n mod 10))])"
  by pat_completeness auto
termination
  by (relation "measure nat") auto

text \<open>
  \<open>Number::toString\<close> of an integer. The Number value nearest to an integer \<open>a\<close> that
  is not negative has the 53 leading bits of \<open>a\<close>, rounded to even; from \<open>2^1024\<close> on it
  is infinite.
\<close>

function bit_length :: "int \<Rightarrow> nat" where
  "bit_length n = (if n \<le> 0 then 0 else Suc (bit_length (n div 2)))"
  by pat_completeness auto
termination
  by (relation "measure nat") auto

definition nearest_double :: "int \<Rightarrow> int" where
  "nearest_double a =
     (let e = bit_length a - 53; q = a div 2 ^ e; r = a mod 2 ^ e
      in if 2 ^ e < 2 * r \<or> (2 * r = 2 ^ e \<and> odd q) then (q + 1) * 2 ^ e else q * 2 ^ e)"

definition is_infinite :: "int \<Rightarrow> bool" where
  "is_infinite i = (9007199254740992 \<le> \<bar>i\<bar> \<and> 2 ^ 1024 \<le> nearest_double \<bar>i\<bar>)"

text \<open>
  The digits printed for a Number value \<open>v\<close> are those of the integers \<open>s\<close> and \<open>n\<close>
  with \<open>s\<close> of \<open>k\<close> digits, \<open>s * 10^(n - k)\<close> nearest to \<open>v\<close> among the Number values, and
  \<open>k\<close> as small as possible; among several such, the one nearest to \<open>v\<close>, and of two
  equally near the even one. \<open>decimal_candidates v k\<close> are the pairs \<open>(s, n)\<close> for \<open>k\<close>.
\<close>

definition decimal_candidates :: "int \<Rightarrow> nat \<Rightarrow> (int \<times> nat) list" where
  "decimal_candidates v k =
     (let d = length (digits v)
      in concat (map (\<lambda>n. filter (\<lambda>(s, n). 10 ^ (k - 1) \<le> s \<and> s < 10 ^ k \<and>
                                        nearest_double (s * 10 ^ (n - k)) = v)
                              [(v div 10 ^ (n - k), n), (v div 10 ^ (n - k) + 1, n)])
                   (filter (\<lambda>n. k \<le> n) [d, d + 1])))"

definition nearer :: "int \<Rightarrow> nat \<Rightarrow> int \<times> nat \<Rightarrow> int \<times> nat \<Rightarrow> int \<times> nat" where
  "nearer v k c best =
     (let dist = (\<lambda>(s, n). \<bar>s * 10 ^ (n - k) - v\<bar>)
      in if dist c < dist best \<or> (dist c = dist best \<and> even (fst c) \<and> odd (fst best))
         then c else best)"

definition shortest_decimal :: "int \<Rightarrow> int \<times> nat" where
  "shortest_decimal v =
     (let d = length (digits v)
      in case find (\<lambda>k. decimal_candidates v k \<noteq> []) [1..<Suc d] of
           None \<Rightarrow> (v, d)
         | Some k \<Rightarrow> fold (nearer v k) (decimal_candidates v k) (hd (decimal_candidates v k)))"

definition number_to_string :: "int \<Rightarrow> string" where
  "number_to_string i =
     (let a = \<bar>i\<bar>; sign = (if i < 0 then ''-'' else [])
      in if a < 9007199254740992 then sign @ digits a
         else if is_infinite i then sign @ ''Infinity''
         else
           let (s, n) = shortest_decimal (nearest_double a);
               ds = digits s;
               k = length ds
           in sign @
              (if n \<le> 21 then ds @ replicate (n - k) (CHR ''0'')
               else hd ds # (if k = 1 then [] else CHR ''.'' # tl ds) @
                    ''e+'' @ digits (int (n - 1))))"

fun join :: "string \<Rightarrow> string list \<Rightarrow> string" where
  "join sep [] = []"
| "join sep [x] = x"
| "join sep (x # y # ys) = x @ sep @ join sep (y # ys)"

text \<open>\<open>String(v)\<close>, as a template literal applies it.\<close>

fun toStr :: "jsval \<Rightarrow> string" where
  "toStr JUndefined = ''undefined''"
| "toStr JNull = ''null''"
| "toStr (JBool b) = (if b then ''true'' else ''false'')"
| "toStr (JNum n) = number_to_string n"
| "toStr (JStr s) = s"
| "toStr (JArr xs) = join '','' (map (\<lambda>x. if nullish x then [] else toStr x) xs)"
| "toStr (JObj kvs) = ''[object Object]''"

text \<open>
  \<open>JSON.stringify(v)\<close> for a value that is not undefined. A number that is not finite
  is printed as \<open>null\<close>.
\<close>

definition quote_char :: "char \<Rightarrow> string" where
  "quote_char c =
     (if c = CHR 0x22 then [CHR 0x5C, CHR 0x22]
      else if c = CHR 0x5C then [CHR 0x5C, CHR 0x5C]
      else if c = CHR 0x08 then [CHR 0x5C, CHR ''b'']
      else if c = CHR 0x0C then [CHR 0x5C, CHR ''f'']
      else if c = CHR 0x0A then [CHR 0x5C, CHR ''n'']
      else if c = CHR 0x0D then [CHR 0x5C, CHR ''r'']
      else if c = CHR 0x09 then [CHR 0x5C, CHR ''t'']
      else if (of_char c :: nat) < 32
        then [CHR 0x5C, CHR ''u'', CHR ''0'', CHR ''0'',
              digit_char ((of_char c :: nat) div 16), digit_char ((of_char c :: nat) mod 16)]
      else [c])"

definition quote :: "string \<Rightarrow> string" where
  "quote s = [CHR 0x22] @ concat (map quote_char s) @ [CHR 0x22]"

fun stringify :: "jsval \<Rightarrow> string" where
  "stringify JUndefined = ''null''"
| "stringify JNull = ''null''"
| "stringify (JBool b) = (if b then ''true'' else ''false'')"
| "stringify (JNum n) = (if is_infinite n then ''null'' else number_to_string n)"
| "stringify (JStr s) = quote s"
| "stringify (JArr xs) = ''['' @ join '','' (map stringify xs) @ '']''"
| "stringify (JObj kvs) =
     ''{'' @ join '',''
              (map (\<lambda>(k, v). quote k @ '':'' @ stringify v)
                 (filter (\<lambda>(k, v). v \<noteq> JUndefined) kvs)) @ ''}''"

section \<open>The upstream client (gemini.client.ts)\<close>

text \<open>
  A failed \<open>axios.post\<close>: an axios error with the response it carries, if any (status
  and body), and its own message; or any other thrown value, with the message of the
  clean \<open>Error\<close> made from it.
\<close>

datatype request_error =
    AxiosError "(int \<times> jsval) option" string
  | OtherError string

fun shouldSwitchEndpointOnError :: "request_error \<Rightarrow> bool" where
  "shouldSwitchEndpointOnError (OtherError m) = False"
| "shouldSwitchEndpointOnError (AxiosError None m) = True"
| "shouldSwitchEndpointOnError (AxiosError (Some (status, d)) m) =
     (if status = 401 \<or> status = 403 then False
      else status = 408 \<or> status = 429 \<or> status \<ge> 500)"

fun is_object :: "jsval \<Rightarrow> bool" where
  "is_object (JArr xs) = True"
| "is_object (JObj kvs) = True"
| "is_object v = False"

definition extractAxiosErrorMessage :: "jsval \<Rightarrow> string option" where
  "extractAxiosErrorMessage responseData =
     (if \<not> truthy responseData \<or> \<not> is_object responseData then None
      else
        let errorRecord = js_get responseData ''error''
        in if \<not> truthy errorRecord \<or> \<not> is_object errorRecord then None
           else (case js_get errorRecord ''message'' of
                   JStr message \<Rightarrow> if trim message \<noteq> [] then Some message else None
                 | v \<Rightarrow> None))"

text \<open>The message of the \<open>Error\<close> that \<open>handleAxiosError\<close> throws.\<close>

fun handleAxiosError :: "request_error \<Rightarrow> string" where
  "handleAxiosError (AxiosError response message) =
     (let responseData = (case response of None \<Rightarrow> JUndefined | Some (status, d) \<Rightarrow> d)
      in case extractAxiosErrorMessage responseData of
           Some upstreamMessage \<Rightarrow> upstreamMessage
         | None \<Rightarrow> message)"
| "handleAxiosError (OtherError message) = message"

text \<open>\<open>s.split(sep)\<close> for a separator of one character.\<close>

fun split_on :: "char \<Rightarrow> string \<Rightarrow> string list" where
  "split_on sep [] = [[]]"
| "split_on sep (c # cs) =
     (if c = sep then [] # split_on sep cs
      else (case split_on sep cs of
              [] \<Rightarrow> [[c]]
            | l # ls \<Rightarrow> (c # l) # ls))"

definition strip_trailing_slashes :: "string \<Rightarrow> string" where
  "strip_trailing_slashes u = rev (dropWhile (\<lambda>c. c = CHR ''/'') (rev u))"

definition defaultInternalBaseUrls :: "string list" where
  "defaultInternalBaseUrls =
     [''https://cloudcode-pa.googleapis.com/v1internal'',
      ''https://daily-cloudcode-pa.googleapis.com/v1internal'']"

text \<open>
  \<open>getInternalBaseUrls\<close>, from the value of \<open>PROXY_INTERNAL_BASE_URLS ??
  ANTIGRAVITY_INTERNAL_BASE_URLS\<close>.
\<close>

definition getInternalBaseUrls :: "string option \<Rightarrow> string list" where
  "getInternalBaseUrls fromEnv =
     (let configuredBaseUrls =
            (case fromEnv of
               None \<Rightarrow> []
             | Some v \<Rightarrow> filter (\<lambda>item. item \<noteq> []) (map trim (split_on CHR '','' v)))
      in if configuredBaseUrls \<noteq> [] then map strip_trailing_slashes configuredBaseUrls
         else map strip_trailing_slashes defaultInternalBaseUrls)"

text \<open>
  \<open>requestWithEndpointFailover\<close>. \<open>post i url\<close> is what the \<open>i\<close>-th \<open>axios.post\<close> of
  the call, sent to \<open>url\<close>, comes to; body, headers, timeout and proxy are the same for
  every endpoint. The result is the response or the message of the error thrown, and
  the URLs requested, in order.
\<close>

fun failover_from ::
    "(nat \<Rightarrow> string \<Rightarrow> request_error + 'a) \<Rightarrow> string \<Rightarrow> nat \<Rightarrow> string list \<Rightarrow>
     (string + 'a) \<times> string list" where
  "failover_from post path index [] = (Inl ''null'', [])"
| "failover_from post path index (baseUrl # rest) =
     (let url = baseUrl @ path
      in case post index url of
           Inr response \<Rightarrow> (Inr response, [url])
         | Inl error \<Rightarrow>
             let hasNextEndpoint = (rest \<noteq> [])
             in if \<not> hasNextEndpoint \<or> \<not> shouldSwitchEndpointOnError error
                then (Inl (handleAxiosError error), [url])
                else (case failover_from post path (index + 1) rest of
                        (r, urls) \<Rightarrow> (r, url # urls)))"

definition requestWithEndpointFailover ::
    "(nat \<Rightarrow> string \<Rightarrow> request_error + 'a) \<Rightarrow> string option \<Rightarrow> string \<Rightarrow>
     (string + 'a) \<times> string list" where
  "requestWithEndpointFailover post fromEnv path =
     failover_from post path 0 (getInternalBaseUrls fromEnv)"

text \<open>\<open>generateInternal\<close> unwraps a payload of the form \<open>{response: ...}\<close>.\<close>

definition unwrap_response :: "jsval \<Rightarrow> jsval" where
  "unwrap_response payload =
     (case payload of
        JObj kvs \<Rightarrow> if map_of kvs ''response'' \<noteq> None then js_get payload ''response'' else payload
      | v \<Rightarrow> payload)"

definition generateInternal_client ::
    "(nat \<Rightarrow> string \<Rightarrow> request_error + jsval) \<Rightarrow> string option \<Rightarrow> (string + jsval) \<times> string list" where
  "generateInternal_client post fromEnv =
     (case requestWithEndpointFailover post fromEnv '':generateContent'' of
        (Inl e, urls) \<Rightarrow> (Inl e, urls)
      | (Inr payload, urls) \<Rightarrow> (Inr (unwrap_response payload), urls))"

text \<open>The upstream response's \<open>error.message\<close>, when that member is a string.\<close>

definition response_error_message :: "(int \<times> jsval) option \<Rightarrow> string option" where
  "response_error_message response =
     (case response of
        None \<Rightarrow> None
      | Some (status, d) \<Rightarrow>
          (case js_get (js_get d ''error'') ''message'' of
             JStr m \<Rightarrow> Some m
           | v \<Rightarrow> None))"

text \<open>A transient failure, as the failover policy words it.\<close>

definition transient_failure :: "request_error \<Rightarrow> bool" where
  "transient_failure e =
     (case e of
        AxiosError None m \<Rightarrow> True
      | AxiosError (Some (status, d)) m \<Rightarrow> status = 408 \<or> status = 429 \<or> status \<ge> 500
      | OtherError m \<Rightarrow> False)"

definition ex_post :: "nat \<Rightarrow> string \<Rightarrow> request_error + jsval" where
  "ex_post i url =
     (if i = 0 then Inl (AxiosError None ''socket hang up'')
      else Inl (AxiosError
                  (Some (403, JObj [(''error'', JObj [(''message'', JStr ''PERMISSION_DENIED'')])]))
                  ''Request failed with status code 403''))"

definition ex_post_blank :: "nat \<Rightarrow> string \<Rightarrow> request_error + jsval" where
  "ex_post_blank i url =
     Inl (AxiosError (Some (500, JObj [(''error'', JObj [(''message'', JStr '' '')])]))
            ''Request failed with status code 500'')"

section \<open>Upstream streams\<close>

text \<open>
  An upstream stream is the list of the chunks its \<open>data\<close> events deliver, as decoded
  text, and the way it ends: with \<open>end\<close>, or with \<open>error\<close> and the message of the
  error. Streams that never end are outside the model. \<open>JSON.parse\<close> is a parameter
  of the functions that read a stream: \<open>None\<close> is a syntax error.
\<close>

datatype stream_end = StreamEnd | StreamError string

datatype upstream_stream = UpstreamStream "string list" stream_end

text \<open>
  \<open>buffer += chunk; lines = buffer.split('\n'); buffer = lines.pop() || ''\<close>: the
  complete lines, and the new buffer.
\<close>

definition take_lines :: "string \<Rightarrow> string \<Rightarrow> string list \<times> string" where
  "take_lines buffer chunk =
     (let lines = split_on CHR 0x0A (buffer @ chunk) in (butlast lines, last lines))"

text \<open>The text after \<open>data: \<close> of a line, unless the line is skipped.\<close>

definition data_payload :: "string \<Rightarrow> string option" where
  "data_payload line =
     (let trimmed = trim line
      in if \<not> startsWith trimmed ''data: '' then None
         else let dataStr = drop 6 trimmed
              in if dataStr = ''[DONE]'' then None else Some dataStr)"

subsection \<open>collectGeminiStreamAsResponse\<close>

record collect_state =
  cs_buffer :: string
  cs_receivedData :: bool
  cs_mergedParts :: "jsval list"
  cs_finishReason :: jsval
  cs_usageMetadata :: jsval

definition collect_init :: collect_state where
  "collect_init =
     \<lparr>cs_buffer = [], cs_receivedData = False, cs_mergedParts = [],
      cs_finishReason = JUndefined, cs_usageMetadata = JUndefined\<rparr>"

definition collect_frame :: "jsval \<Rightarrow> collect_state \<Rightarrow> collect_state" where
  "collect_frame parsed st =
     (let candidate = opt_index0 (opt_get parsed ''candidates'');
          parts = opt_get (opt_get candidate ''content'') ''parts'';
          st1 = (case parts of
                   JArr ps \<Rightarrow> st\<lparr>cs_mergedParts := cs_mergedParts st @ filter isGeminiPart ps\<rparr>
                 | v \<Rightarrow> st);
          st2 = (if truthy (opt_get candidate ''finishReason'')
                 then st1\<lparr>cs_finishReason := opt_get candidate ''finishReason''\<rparr>
                 else st1)
      in if truthy (opt_get parsed ''usageMetadata'')
         then st2\<lparr>cs_usageMetadata := opt_get parsed ''usageMetadata''\<rparr>
         else st2)"

definition collect_line :: "(string \<Rightarrow> jsval option) \<Rightarrow> collect_state \<Rightarrow> string \<Rightarrow> collect_state" where
  "collect_line parse st line =
     (case data_payload line of
        None \<Rightarrow> st
      | Some dataStr \<Rightarrow>
          (case parse dataStr of
             None \<Rightarrow> st
           | Some parsed \<Rightarrow> collect_frame parsed st))"

definition collect_chunk :: "(string \<Rightarrow> jsval option) \<Rightarrow> collect_state \<Rightarrow> string \<Rightarrow> collect_state" where
  "collect_chunk parse st chunk =
     (case take_lines (cs_buffer st) chunk of
        (lines, buffer) \<Rightarrow>
          foldl (collect_line parse) (st\<lparr>cs_receivedData := True, cs_buffer := buffer\<rparr>) lines)"

definition synthesized_response :: "collect_state \<Rightarrow> jsval" where
  "synthesized_response st =
     JObj [(''candidates'',
            JArr [JObj [(''content'',
                         JObj [(''role'', JStr ''model''), (''parts'', JArr (cs_mergedParts st))]),
                        (''finishReason'', cs_finishReason st)]]),
           (''usageMetadata'', cs_usageMetadata st)]"

fun collectGeminiStreamAsResponse :: "(string \<Rightarrow> jsval option) \<Rightarrow> upstream_stream \<Rightarrow> string + jsval" where
  "collectGeminiStreamAsResponse parse (UpstreamStream chunks ending) =
     (let st = foldl (collect_chunk parse) collect_init chunks
      in case ending of
           StreamError e \<Rightarrow> Inl e
         | StreamEnd \<Rightarrow>
             if \<not> cs_receivedData st then Inl ''Empty response stream''
             else Inr (synthesized_response st))"

definition hasUsableGeminiCandidate :: "jsval \<Rightarrow> bool" where
  "hasUsableGeminiCandidate response =
     (case opt_get response ''candidates'' of
        JArr candidates \<Rightarrow>
          if candidates = [] then False
          else (case opt_get (opt_get (opt_index0 (JArr candidates)) ''content'') ''parts'' of
                  JArr parts \<Rightarrow> parts \<noteq> []
                | v \<Rightarrow> False)
      | v \<Rightarrow> False)"

text \<open>
  The frames of a stream by its text as a whole: the parsed payloads of the complete
  lines of the concatenated chunks, and what the frames hold.
\<close>

definition stream_frames :: "(string \<Rightarrow> jsval option) \<Rightarrow> string list \<Rightarrow> jsval list" where
  "stream_frames parse chunks =
     List.map_filter (\<lambda>line. case data_payload line of None \<Rightarrow> None | Some d \<Rightarrow> parse d)
       (butlast (split_on CHR 0x0A (concat chunks)))"

definition frame_candidate :: "jsval \<Rightarrow> jsval" where
  "frame_candidate frame = opt_index0 (opt_get frame ''candidates'')"

definition frame_parts :: "jsval \<Rightarrow> jsval list" where
  "frame_parts frame =
     (case opt_get (opt_get (frame_candidate frame) ''content'') ''parts'' of
        JArr ps \<Rightarrow> filter isRecord ps
      | v \<Rightarrow> [])"

definition last_truthy :: "jsval list \<Rightarrow> jsval" where
  "last_truthy vs = (case filter truthy vs of [] \<Rightarrow> JUndefined | w # ws \<Rightarrow> last (w # ws))"

subsection \<open>processStreamResponse: the OpenAI event stream\<close>

text \<open>
  What the observable delivers to its subscriber. After \<open>complete\<close> or \<open>error\<close> the
  subscriber is closed and further calls deliver nothing.
\<close>

datatype emission = Next string | Complete | Failed string

record sse_state =
  ss_buffer :: string
  ss_hasEmittedChunk :: bool
  ss_hasSentDone :: bool
  ss_closed :: bool
  ss_uuids :: nat
  ss_out :: "emission list"

text \<open>
  What a subscription reads from outside: \<open>JSON.parse\<close>, the draws of \<open>uuidv4()\<close> in
  order, and \<open>Date.now()\<close>.
\<close>

record sse_env =
  se_parse :: "string \<Rightarrow> jsval option"
  se_uuid :: "nat \<Rightarrow> string"
  se_now :: int

definition subscriber_next :: "string \<Rightarrow> sse_state \<Rightarrow> sse_state" where
  "subscriber_next s st = (if ss_closed st then st else st\<lparr>ss_out := ss_out st @ [Next s]\<rparr>)"

definition subscriber_complete :: "sse_state \<Rightarrow> sse_state" where
  "subscriber_complete st =
     (if ss_closed st then st else st\<lparr>ss_out := ss_out st @ [Complete], ss_closed := True\<rparr>)"

definition subscriber_error :: "string \<Rightarrow> sse_state \<Rightarrow> sse_state" where
  "subscriber_error e st =
     (if ss_closed st then st else st\<lparr>ss_out := ss_out st @ [Failed e], ss_closed := True\<rparr>)"

definition sse_frame :: "jsval \<Rightarrow> string" where
  "sse_frame payload = ''data: '' @ stringify payload @ [CHR 0x0A, CHR 0x0A]"

definition done_frame :: string where
  "done_frame = ''data: [DONE]'' @ [CHR 0x0A, CHR 0x0A]"

definition pushChunk :: "jsval \<Rightarrow> sse_state \<Rightarrow> sse_state" where
  "pushChunk payload st = subscriber_next (sse_frame payload) (st\<lparr>ss_hasEmittedChunk := True\<rparr>)"

text \<open>The chunk object that every branch builds, with its delta and finish reason.\<close>

definition completion_chunk :: "string \<Rightarrow> int \<Rightarrow> string \<Rightarrow> jsval \<Rightarrow> jsval \<Rightarrow> jsval" where
  "completion_chunk streamId created model delta finish_reason =
     JObj [(''id'', JStr streamId),
           (''object'', JStr ''chat.completion.chunk''),
           (''created'', JNum created),
           (''model'', JStr model),
           (''choices'',
            JArr [JObj [(''index'', JNum 0), (''delta'', delta), (''finish_reason'', finish_reason)]])]"

text \<open>
  \<open>mapGeminiFinishReasonToOpenAIFinishReason\<close>; \<open>None\<close> is the type error of
  \<open>toUpperCase\<close> on a value that is not a string.
\<close>

definition mapGeminiFinishReasonToOpenAIFinishReason :: "jsval \<Rightarrow> jsval option" where
  "mapGeminiFinishReasonToOpenAIFinishReason finishReason =
     (if \<not> truthy finishReason then Some JNull
      else (case finishReason of
              JStr s \<Rightarrow>
                let normalized = toUpperCase s
                in if normalized = code_units ''STOP'' then Some (JStr ''stop'')
                   else if normalized = code_units ''MAX_TOKENS'' then Some (JStr ''length'')
                   else if normalized = code_units ''SAFETY'' \<or>
                           normalized = code_units ''RECITATION''
                     then Some (JStr ''content_filter'')
                   else Some (JStr (toLowerCase s))
            | v \<Rightarrow> None))"

text \<open>
  One part of a frame. The result is the state and whether the loop goes on: reading a
  member of a part that is null or undefined is a type error, which ends the frame.
\<close>

definition process_part :: "sse_env \<Rightarrow> string \<Rightarrow> sse_state \<Rightarrow> jsval \<Rightarrow> sse_state \<times> bool" where
  "process_part env model st part =
     (let streamId = ''chatcmpl-'' @ se_uuid env 0;
          created = se_now env div 1000
      in if nullish part then (st, False)
         else if truthy (js_get part ''thought'') \<and> truthy (js_get part ''text'')
         then (pushChunk (completion_chunk streamId created model
                            (JObj [(''reasoning_content'', js_get part ''text'')]) JNull) st, True)
         else if truthy (js_get part ''functionCall'')
         then
           (let functionCall = js_get part ''functionCall'';
                drawn = \<not> truthy (js_get functionCall ''id'');
                callId = (if drawn
                          then JStr (toStr (js_get functionCall ''name'') @ ''-'' @
                                     se_uuid env (ss_uuids st))
                          else js_get functionCall ''id'');
                st1 = (if drawn then st\<lparr>ss_uuids := ss_uuids st + 1\<rparr> else st)
            in (pushChunk (completion_chunk streamId created model
                  (JObj [(''tool_calls'',
                          JArr [JObj [(''index'', JNum 0),
                                      (''id'', callId),
                                      (''type'', JStr ''function''),
                                      (''function'',
                                       JObj [(''name'', js_get functionCall ''name''),
                                             (''arguments'',
                                              JStr (stringify (js_or (js_get functionCall ''args'')
                                                                 (JObj []))))])]])])
                  JNull) st1, True))
         else if truthy (js_get part ''inlineData'')
         then
           (let inlineData = js_get part ''inlineData'';
                mimeType = js_or (js_get inlineData ''mimeType'') (JStr ''image/jpeg'');
                dat = js_or (js_get inlineData ''data'') (JStr []);
                imageMarkdown =
                  [CHR 0x0A, CHR 0x0A] @ ''![Generated Image](data:'' @ toStr mimeType @
                  '';base64,'' @ toStr dat @ '')'' @ [CHR 0x0A, CHR 0x0A]
            in (pushChunk (completion_chunk streamId created model
                             (JObj [(''content'', JStr imageMarkdown)]) JNull) st, True))
         else if truthy (js_get part ''text'')
         then (pushChunk (completion_chunk streamId created model
                            (JObj [(''content'', js_get part ''text'')]) JNull) st, True)
         else (st, True))"

fun process_parts :: "sse_env \<Rightarrow> string \<Rightarrow> sse_state \<Rightarrow> jsval list \<Rightarrow> sse_state \<times> bool" where
  "process_parts env model st [] = (st, True)"
| "process_parts env model st (part # parts) =
     (case process_part env model st part of
        (st1, ok) \<Rightarrow> if ok then process_parts env model st1 parts else (st1, False))"

text \<open>
  What \<open>for (const part of parts)\<close> runs over: the elements of an array, the characters
  of a string; \<open>None\<close> is the type error for a value that cannot be iterated.
\<close>

fun iterate :: "jsval \<Rightarrow> jsval list option" where
  "iterate (JArr xs) = Some xs"
| "iterate (JStr s) = Some (map (\<lambda>c. JStr [c]) s)"
| "iterate v = None"

definition process_frame :: "sse_env \<Rightarrow> string \<Rightarrow> sse_state \<Rightarrow> jsval \<Rightarrow> sse_state" where
  "process_frame env model st json =
     (if nullish json then st
      else
        let candidate = opt_index0 (js_get json ''candidates'');
            parts = js_or (opt_get (opt_get candidate ''content'') ''parts'') (JArr [])
        in case iterate parts of
             None \<Rightarrow> st
           | Some ps \<Rightarrow>
               (case process_parts env model st ps of
                  (st1, ok) \<Rightarrow>
                    if \<not> ok then st1
                    else if truthy (opt_get candidate ''finishReason'')
                    then (case mapGeminiFinishReasonToOpenAIFinishReason
                                 (opt_get candidate ''finishReason'') of
                            None \<Rightarrow> st1
                          | Some finish \<Rightarrow>
                              subscriber_complete
                                ((subscriber_next done_frame
                                   (pushChunk
                                      (completion_chunk (''chatcmpl-'' @ se_uuid env 0)
                                         (se_now env div 1000) model (JObj []) finish)
                                      st1))\<lparr>ss_hasSentDone := True\<rparr>))
                    else st1))"

definition process_line :: "sse_env \<Rightarrow> string \<Rightarrow> sse_state \<Rightarrow> string \<Rightarrow> sse_state" where
  "process_line env model st line =
     (case data_payload line of
        None \<Rightarrow> st
      | Some dataStr \<Rightarrow>
          (case se_parse env dataStr of
             None \<Rightarrow> st
           | Some json \<Rightarrow> process_frame env model st json))"

definition on_data :: "sse_env \<Rightarrow> string \<Rightarrow> sse_state \<Rightarrow> string \<Rightarrow> sse_state" where
  "on_data env model st chunk =
     (case take_lines (ss_buffer st) chunk of
        (lines, buffer) \<Rightarrow> foldl (process_line env model) (st\<lparr>ss_buffer := buffer\<rparr>) lines)"

definition empty_content_chunk :: "sse_env \<Rightarrow> string \<Rightarrow> jsval" where
  "empty_content_chunk env model =
     completion_chunk (''chatcmpl-'' @ se_uuid env 0) (se_now env div 1000) model
       (JObj [(''content'', JStr [])]) JNull"

definition on_end :: "sse_env \<Rightarrow> string \<Rightarrow> sse_state \<Rightarrow> sse_state" where
  "on_end env model st =
     (let st1 = (if \<not> ss_hasEmittedChunk st then pushChunk (empty_content_chunk env model) st
                 else st);
          st2 = (if \<not> ss_hasSentDone st1
                 then (subscriber_next done_frame st1)\<lparr>ss_hasSentDone := True\<rparr>
                 else st1)
      in subscriber_complete st2)"

definition sse_init :: sse_state where
  "sse_init =
     \<lparr>ss_buffer = [], ss_hasEmittedChunk = False, ss_hasSentDone = False, ss_closed = False,
      ss_uuids = 1, ss_out = []\<rparr>"

text \<open>The state after the data events, and all that a subscriber receives.\<close>

definition after_data :: "sse_env \<Rightarrow> string \<Rightarrow> string list \<Rightarrow> sse_state" where
  "after_data env model chunks = foldl (on_data env model) sse_init chunks"

fun processStreamResponse :: "sse_env \<Rightarrow> upstream_stream \<Rightarrow> string \<Rightarrow> emission list" where
  "processStreamResponse env (UpstreamStream chunks ending) model =
     (let st = after_data env model chunks
      in case ending of
           StreamEnd \<Rightarrow> ss_out (on_end env model st)
         | StreamError e \<Rightarrow> ss_out (subscriber_error e st))"

section \<open>The orchestrator (ProxyService)\<close>

subsection \<open>Requests, bodies and calls\<close>

record GeminiInternalRequest =
  gi_project :: string
  gi_requestId :: string
  gi_request :: jsval
  gi_model :: string
  gi_userAgent :: string
  gi_requestType :: string

text \<open>One call of the upstream client: streaming or unary, and its four arguments.\<close>

record upstream_call =
  uc_stream :: bool
  uc_body :: GeminiInternalRequest
  uc_accessToken :: string
  uc_upstreamProxyUrl :: "string option"
  uc_extraHeaders :: "(string \<times> string) list"

text \<open>
  The Claude request that \<open>toClaudeRequest\<close> and \<open>convertOpenAIToClaude\<close> build: the
  model, the stream flag, the metadata, and the other members (messages, system, tools
  and sampling parameters) as one value.
\<close>

record ClaudeRequest =
  cq_model :: string
  cq_stream :: bool
  cq_metadata :: jsval
  cq_rest :: jsval

record AnthropicChatRequest =
  aq_model :: string
  aq_stream :: bool
  aq_metadata :: jsval
  aq_rest :: jsval

record OpenAIChatRequest =
  oq_model :: string
  oq_stream :: bool
  oq_extra :: jsval
  oq_rest :: jsval

record GeminiRequest =
  gq_contents :: jsval
  gq_generationConfig :: jsval
  gq_systemInstruction :: "jsval list option"

record ClaudeResponse =
  cr_id :: jsval
  cr_type :: jsval
  cr_role :: jsval
  cr_model :: jsval
  cr_content :: jsval
  cr_stop_reason :: jsval
  cr_stop_sequence :: jsval
  cr_usage :: jsval

record AnthropicChatResponse =
  ar_id :: jsval
  ar_type :: jsval
  ar_role :: jsval
  ar_model :: jsval
  ar_content :: jsval
  ar_stop_reason :: jsval
  ar_stop_sequence :: jsval
  ar_usage :: jsval

text \<open>
  What a handler returns: a response, or an observable, which is lazy: it is given by
  the mapper, the upstream stream it will read and the model it was handed.
\<close>

datatype anthropic_result =
    AnthropicResponse AnthropicChatResponse
  | AnthropicStream upstream_stream string

datatype openai_result =
    OpenAIResponse jsval
  | OpenAIStream upstream_stream string
  | SyntheticOpenAIStream jsval

datatype gemini_stream_result = PassthroughStream upstream_stream

text \<open>
  What a request reads from outside. The upstream client answers its \<open>n\<close>-th call of
  the request with a response or stream, or throws an error with a message. Each
  selection and each marking reads the clock. The following functions of the
  repository are parameters: \<open>mapModel\<close> (it reads the server configuration), the
  conversion of the OpenAI messages in \<open>convertOpenAIToClaude\<close>,
  \<open>convertClaudeToOpenAIResponse\<close>, \<open>normalizeGeminiGenerateResponse\<close>, and of the
  library, which is not among the sources, \<open>transformResponse\<close> and the parts of
  \<open>transformClaudeRequestIn\<close> that build the request content and map the model.
\<close>

record orch_env =
  oe_tm :: "nat \<Rightarrow> tm_env"
  oe_now_mark :: "nat \<Rightarrow> int"
  oe_generateInternal :: "nat \<Rightarrow> upstream_call \<Rightarrow> string + jsval"
  oe_streamGenerateInternal :: "nat \<Rightarrow> upstream_call \<Rightarrow> string + upstream_stream"
  oe_parse :: "string \<Rightarrow> jsval option"
  oe_uuid :: "nat \<Rightarrow> string"
  oe_userAgentEnv :: "string option"
  oe_mapModel :: "string \<Rightarrow> string"
  oe_claudeContents :: "ClaudeRequest \<Rightarrow> jsval"
  oe_claudeModel :: "string \<Rightarrow> string"
  oe_transformResponse :: "jsval \<Rightarrow> ClaudeResponse"
  oe_convertOpenAIMessages :: "jsval \<Rightarrow> jsval"
  oe_convertClaudeToOpenAIResponse :: "ClaudeResponse \<Rightarrow> string \<Rightarrow> jsval"
  oe_normalizeGeminiGenerateResponse :: "jsval \<Rightarrow> jsval"

text \<open>
  The state a request threads: the pool, the upstream calls made so far, and the
  options of the selections made so far.
\<close>

record orch_state =
  os_pool :: pool
  os_calls :: "upstream_call list"
  os_selections :: "select_options list"

definition defaultRequestUserAgent :: string where
  "defaultRequestUserAgent = ''antigravity/1.11.9 windows/amd64''"

definition requestUserAgent :: "orch_env \<Rightarrow> string" where
  "requestUserAgent env =
     (case oe_userAgentEnv env of None \<Rightarrow> defaultRequestUserAgent | Some ua \<Rightarrow> ua)"

text \<open>
  Modelled from the spec: \<open>transformClaudeRequestIn(claudeReq, projectId)\<close> of
  \<open>lib/antigravity/ClaudeRequestMapper\<close> is not among the sources. It produces
  \<open>{project, requestId: new UUID, request, model, userAgent, requestType:
  "generate-content"}\<close>, with \<open>project\<close> the project id it is given; the request content
  and the mapped model are parameters. \<open>n\<close> numbers the draw of the request id.
\<close>

definition transformClaudeRequestIn :: "orch_env \<Rightarrow> nat \<Rightarrow> ClaudeRequest \<Rightarrow> string \<Rightarrow> GeminiInternalRequest" where
  "transformClaudeRequestIn env n claudeReq projectId =
     \<lparr>gi_project = projectId,
      gi_requestId = oe_uuid env n,
      gi_request = oe_claudeContents env claudeReq,
      gi_model = oe_claudeModel env (cq_model claudeReq),
      gi_userAgent = requestUserAgent env,
      gi_requestType = ''generate-content''\<rparr>"

definition toInternalGeminiRequest :: "GeminiRequest \<Rightarrow> jsval" where
  "toInternalGeminiRequest request =
     JObj [(''contents'', gq_contents request),
           (''generationConfig'', gq_generationConfig request),
           (''systemInstruction'',
            (case gq_systemInstruction request of
               None \<Rightarrow> JUndefined
             | Some parts \<Rightarrow>
                 JObj [(''parts'',
                        JArr (map (\<lambda>part. JObj [(''text'', js_get part ''text'')])
                                (filter (\<lambda>part. case js_get part ''text'' of
                                                   JStr s \<Rightarrow> True | v \<Rightarrow> False)
                                   parts)))]))]"

definition createGeminiInternalRequest ::
    "orch_env \<Rightarrow> nat \<Rightarrow> string \<Rightarrow> GeminiRequest \<Rightarrow> string \<Rightarrow> string \<Rightarrow> GeminiInternalRequest" where
  "createGeminiInternalRequest env n model request projectId requestType =
     \<lparr>gi_project = projectId,
      gi_requestId = oe_uuid env n,
      gi_request = toInternalGeminiRequest request,
      gi_model = model,
      gi_userAgent = requestUserAgent env,
      gi_requestType = requestType\<rparr>"

definition toClaudeRequest :: "AnthropicChatRequest \<Rightarrow> ClaudeRequest" where
  "toClaudeRequest request =
     \<lparr>cq_model = aq_model request, cq_stream = aq_stream request,
      cq_metadata = aq_metadata request, cq_rest = aq_rest request\<rparr>"

text \<open>\<open>{...(request.extra ?? {}), source: 'openai'}\<close>.\<close>

definition openai_metadata :: "jsval \<Rightarrow> jsval" where
  "openai_metadata extra =
     (case extra of
        JObj kvs \<Rightarrow> JObj (AList.update ''source'' (JStr ''openai'') kvs)
      | v \<Rightarrow> JObj [(''source'', JStr ''openai'')])"

definition convertOpenAIToClaude :: "orch_env \<Rightarrow> OpenAIChatRequest \<Rightarrow> ClaudeRequest" where
  "convertOpenAIToClaude env request =
     \<lparr>cq_model = oq_model request, cq_stream = oq_stream request,
      cq_metadata = openai_metadata (oq_extra request),
      cq_rest = oe_convertOpenAIMessages env (oq_rest request)\<rparr>"

definition toAnthropicChatResponse :: "ClaudeResponse \<Rightarrow> AnthropicChatResponse" where
  "toAnthropicChatResponse response =
     \<lparr>ar_id = cr_id response,
      ar_type = cr_type response,
      ar_role = cr_role response,
      ar_model = cr_model response,
      ar_content = cr_content response,
      ar_stop_reason = cr_stop_reason response,
      ar_stop_sequence = cr_stop_sequence response,
      ar_usage =
        JObj [(''input_tokens'',
               js_coalesce (opt_get (cr_usage response) ''input_tokens'') (JNum 0)),
              (''output_tokens'',
               js_coalesce (opt_get (cr_usage response) ''output_tokens'') (JNum 0)),
              (''cache_creation_input_tokens'',
               opt_get (cr_usage response) ''cache_creation_input_tokens''),
              (''cache_read_input_tokens'',
               opt_get (cr_usage response) ''cache_read_input_tokens'')]\<rparr>"

text \<open>\<open>model.replace(/^models\//i, '')\<close>.\<close>

definition normalizeGeminiModel :: "string \<Rightarrow> string" where
  "normalizeGeminiModel model =
     (if toLowerCase (take 7 model) = ''models/'' then drop 7 model else model)"

definition buildModelSpecificHeaders :: "string \<Rightarrow> (string \<times> string) list" where
  "buildModelSpecificHeaders model =
     (if model = [] then []
      else if str_includes (toLowerCase model) ''claude''
      then [(''anthropic-beta'',
             ''claude-code-20250219,interleaved-thinking-2025-05-14,fine-grained-tool-streaming-2025-05-14'')]
      else [])"

text \<open>The session key of a request, from its metadata.\<close>

definition session_candidate :: "jsval \<Rightarrow> jsval" where
  "session_candidate metadata =
     js_coalesce (opt_get metadata ''session_id'')
       (js_coalesce (opt_get metadata ''sessionId'')
          (js_coalesce (opt_get metadata ''user_id'') (opt_get metadata ''userId'')))"

definition session_key_from :: "string \<Rightarrow> jsval \<Rightarrow> string option" where
  "session_key_from prefix metadata =
     (case session_candidate metadata of
        JStr s \<Rightarrow> if trim s = [] then None else Some (prefix @ trim s)
      | v \<Rightarrow> None)"

definition getSessionKeyFromAnthropic :: "AnthropicChatRequest \<Rightarrow> string option" where
  "getSessionKeyFromAnthropic request = session_key_from ''anthropic:'' (aq_metadata request)"

definition getSessionKeyFromOpenAI :: "OpenAIChatRequest \<Rightarrow> string option" where
  "getSessionKeyFromOpenAI request = session_key_from ''openai:'' (oq_extra request)"

subsection \<open>Upstream calls\<close>

definition token_call :: "bool \<Rightarrow> GeminiInternalRequest \<Rightarrow> CloudTokenData \<Rightarrow> (string \<times> string) list \<Rightarrow> upstream_call" where
  "token_call streaming body t extraHeaders =
     \<lparr>uc_stream = streaming, uc_body = body, uc_accessToken = ct_access_token t,
      uc_upstreamProxyUrl = ct_upstream_proxy_url t, uc_extraHeaders = extraHeaders\<rparr>"

definition call_generateInternal ::
    "orch_env \<Rightarrow> GeminiInternalRequest \<Rightarrow> CloudTokenData \<Rightarrow> (string \<times> string) list \<Rightarrow> orch_state \<Rightarrow>
     (string + jsval) \<times> orch_state" where
  "call_generateInternal env body t extraHeaders st =
     (let c = token_call False body t extraHeaders
      in (oe_generateInternal env (length (os_calls st)) c, st\<lparr>os_calls := os_calls st @ [c]\<rparr>))"

definition call_streamGenerateInternal ::
    "orch_env \<Rightarrow> GeminiInternalRequest \<Rightarrow> CloudTokenData \<Rightarrow> (string \<times> string) list \<Rightarrow> orch_state \<Rightarrow>
     (string + upstream_stream) \<times> orch_state" where
  "call_streamGenerateInternal env body t extraHeaders st =
     (let c = token_call True body t extraHeaders
      in (oe_streamGenerateInternal env (length (os_calls st)) c,
          st\<lparr>os_calls := os_calls st @ [c]\<rparr>))"

definition generateInternalWithStreamFallback ::
    "orch_env \<Rightarrow> GeminiInternalRequest \<Rightarrow> CloudTokenData \<Rightarrow> (string \<times> string) list \<Rightarrow> orch_state \<Rightarrow>
     (string + jsval) \<times> orch_state" where
  "generateInternalWithStreamFallback env body t extraHeaders st =
     (case call_generateInternal env body t extraHeaders st of
        (Inl e, st1) \<Rightarrow> (Inl e, st1)
      | (Inr direct, st1) \<Rightarrow>
          if hasUsableGeminiCandidate direct then (Inr direct, st1)
          else (case call_streamGenerateInternal env body t extraHeaders st1 of
                  (Inl e, st2) \<Rightarrow> (Inl e, st2)
                | (Inr stream, st2) \<Rightarrow>
                    (collectGeminiStreamAsResponse (oe_parse env) stream, st2)))"

subsection \<open>One attempt of each handler\<close>

text \<open>
  The body of the retry loop after the selection: the \<open>try\<close> block and the inline
  retries of its \<open>catch\<close> block. The result is what the handler returns, or the error
  the attempt is left with. \<open>t\<close> is \<open>token.token\<close>.
\<close>

definition token_project :: "CloudTokenData \<Rightarrow> string" where
  "token_project t = (case ct_project_id t of None \<Rightarrow> [] | Some p \<Rightarrow> p)"

text \<open>Anthropic: the request sent with a body, streaming or unary.\<close>

definition anthropic_send ::
    "orch_env \<Rightarrow> AnthropicChatRequest \<Rightarrow> GeminiInternalRequest \<Rightarrow> CloudTokenData \<Rightarrow>
     (string \<times> string) list \<Rightarrow> orch_state \<Rightarrow> (string + anthropic_result) \<times> orch_state" where
  "anthropic_send env request body t extraHeaders st =
     (if aq_stream request
      then (case call_streamGenerateInternal env body t extraHeaders st of
              (Inl e, st1) \<Rightarrow> (Inl e, st1)
            | (Inr stream, st1) \<Rightarrow> (Inr (AnthropicStream stream (gi_model body)), st1))
      else (case generateInternalWithStreamFallback env body t extraHeaders st of
              (Inl e, st1) \<Rightarrow> (Inl e, st1)
            | (Inr response, st1) \<Rightarrow>
                (Inr (AnthropicResponse
                        (toAnthropicChatResponse (oe_transformResponse env response))), st1)))"

text \<open>The \<open>try\<close> block and the retry without project on a project context error.\<close>

definition anthropic_first ::
    "orch_env \<Rightarrow> AnthropicChatRequest \<Rightarrow> CloudTokenData \<Rightarrow> (string \<times> string) list \<Rightarrow> orch_state \<Rightarrow>
     (string + anthropic_result) \<times> orch_state" where
  "anthropic_first env request t extraHeaders st =
     (let geminiBody = transformClaudeRequestIn env (length (os_calls st))
                         (toClaudeRequest request) (token_project t)
      in case anthropic_send env request geminiBody t extraHeaders st of
           (Inr r, st1) \<Rightarrow> (Inr r, st1)
         | (Inl e, st1) \<Rightarrow>
             if isProjectContextError e
             then (let fallbackBody = transformClaudeRequestIn env (length (os_calls st1))
                                        (toClaudeRequest request) []
                   in anthropic_send env request fallbackBody t extraHeaders st1)
             else (Inl e, st1))"

text \<open>The retry with \<open>gemini-2.5-flash\<close> on a quota error.\<close>

definition override_model :: "string \<Rightarrow> anthropic_result \<Rightarrow> anthropic_result" where
  "override_model m r =
     (case r of
        AnthropicResponse transformed \<Rightarrow> AnthropicResponse (transformed\<lparr>ar_model := JStr m\<rparr>)
      | AnthropicStream stream model \<Rightarrow> AnthropicStream stream model)"

definition anthropic_downgrade ::
    "orch_env \<Rightarrow> AnthropicChatRequest \<Rightarrow> CloudTokenData \<Rightarrow> (string \<times> string) list \<Rightarrow> orch_state \<Rightarrow>
     (string + anthropic_result) \<times> orch_state" where
  "anthropic_downgrade env request t extraHeaders st =
     (let downgradedRequest = (toClaudeRequest request)\<lparr>cq_model := ''gemini-2.5-flash''\<rparr>;
          downgradedBody = transformClaudeRequestIn env (length (os_calls st))
                             downgradedRequest (token_project t)
      in case anthropic_send env request downgradedBody t extraHeaders st of
           (Inr r, st1) \<Rightarrow> (Inr (override_model (aq_model request) r), st1)
         | (Inl e, st1) \<Rightarrow> (Inl e, st1))"

definition attempt_anthropic ::
    "orch_env \<Rightarrow> AnthropicChatRequest \<Rightarrow> (string \<times> string) list \<Rightarrow> CloudTokenData \<Rightarrow> orch_state \<Rightarrow>
     (string + anthropic_result) \<times> orch_state" where
  "attempt_anthropic env request extraHeaders t st =
     (case anthropic_first env request t extraHeaders st of
        (Inr r, st1) \<Rightarrow> (Inr r, st1)
      | (Inl e, st1) \<Rightarrow>
          if isQuotaExhaustedError e then anthropic_downgrade env request t extraHeaders st1
          else (Inl e, st1))"

text \<open>Gemini \<open>generateContent\<close>.\<close>

definition gemini_send ::
    "orch_env \<Rightarrow> GeminiInternalRequest \<Rightarrow> CloudTokenData \<Rightarrow> (string \<times> string) list \<Rightarrow> orch_state \<Rightarrow>
     (string + jsval) \<times> orch_state" where
  "gemini_send env body t extraHeaders st =
     (case generateInternalWithStreamFallback env body t extraHeaders st of
        (Inl e, st1) \<Rightarrow> (Inl e, st1)
      | (Inr response, st1) \<Rightarrow> (Inr (oe_normalizeGeminiGenerateResponse env response), st1))"

definition attempt_gemini ::
    "orch_env \<Rightarrow> string \<Rightarrow> GeminiRequest \<Rightarrow> (string \<times> string) list \<Rightarrow> CloudTokenData \<Rightarrow> orch_state \<Rightarrow>
     (string + jsval) \<times> orch_state" where
  "attempt_gemini env targetModel request extraHeaders t st =
     (let internalBody = createGeminiInternalRequest env (length (os_calls st)) targetModel
                           request (token_project t) ''generate-content''
      in case gemini_send env internalBody t extraHeaders st of
           (Inr r, st1) \<Rightarrow> (Inr r, st1)
         | (Inl e, st1) \<Rightarrow>
             if isProjectContextError e
             then (let fallbackBody = createGeminiInternalRequest env (length (os_calls st1))
                                        targetModel request [] ''generate-content''
                   in gemini_send env fallbackBody t extraHeaders st1)
             else (Inl e, st1))"

text \<open>Gemini \<open>streamGenerateContent\<close>.\<close>

definition gemini_stream_send ::
    "orch_env \<Rightarrow> GeminiInternalRequest \<Rightarrow> CloudTokenData \<Rightarrow> (string \<times> string) list \<Rightarrow> orch_state \<Rightarrow>
     (string + gemini_stream_result) \<times> orch_state" where
  "gemini_stream_send env body t extraHeaders st =
     (case call_streamGenerateInternal env body t extraHeaders st of
        (Inl e, st1) \<Rightarrow> (Inl e, st1)
      | (Inr stream, st1) \<Rightarrow> (Inr (PassthroughStream stream), st1))"

definition attempt_gemini_stream ::
    "orch_env \<Rightarrow> string \<Rightarrow> GeminiRequest \<Rightarrow> (string \<times> string) list \<Rightarrow> CloudTokenData \<Rightarrow> orch_state \<Rightarrow>
     (string + gemini_stream_result) \<times> orch_state" where
  "attempt_gemini_stream env targetModel request extraHeaders t st =
     (let internalBody = createGeminiInternalRequest env (length (os_calls st)) targetModel
                           request (token_project t) ''generate-content''
      in case gemini_stream_send env internalBody t extraHeaders st of
           (Inr r, st1) \<Rightarrow> (Inr r, st1)
         | (Inl e, st1) \<Rightarrow>
             if isProjectContextError e
             then (let fallbackBody = createGeminiInternalRequest env (length (os_calls st1))
                                        targetModel request [] ''generate-content''
                   in gemini_stream_send env fallbackBody t extraHeaders st1)
             else (Inl e, st1))"

text \<open>
  OpenAI chat completions. In the \<open>try\<close> block a streaming call that throws falls back
  to a unary call and a synthetic stream; the retry without project has no such
  fallback.
\<close>

definition openai_unary ::
    "orch_env \<Rightarrow> OpenAIChatRequest \<Rightarrow> GeminiInternalRequest \<Rightarrow> CloudTokenData \<Rightarrow>
     (string \<times> string) list \<Rightarrow> orch_state \<Rightarrow> (string + jsval) \<times> orch_state" where
  "openai_unary env request body t extraHeaders st =
     (case generateInternalWithStreamFallback env body t extraHeaders st of
        (Inl e, st1) \<Rightarrow> (Inl e, st1)
      | (Inr response, st1) \<Rightarrow>
          (Inr (oe_convertClaudeToOpenAIResponse env (oe_transformResponse env response)
                  (oq_model request)), st1))"

definition openai_try ::
    "orch_env \<Rightarrow> OpenAIChatRequest \<Rightarrow> GeminiInternalRequest \<Rightarrow> CloudTokenData \<Rightarrow>
     (string \<times> string) list \<Rightarrow> orch_state \<Rightarrow> (string + openai_result) \<times> orch_state" where
  "openai_try env request body t extraHeaders st =
     (if oq_stream request
      then (case call_streamGenerateInternal env body t extraHeaders st of
              (Inr stream, st1) \<Rightarrow> (Inr (OpenAIStream stream (oq_model request)), st1)
            | (Inl streamError, st1) \<Rightarrow>
                (case openai_unary env request body t extraHeaders st1 of
                   (Inl e, st2) \<Rightarrow> (Inl e, st2)
                 | (Inr openaiResponse, st2) \<Rightarrow> (Inr (SyntheticOpenAIStream openaiResponse), st2)))
      else (case openai_unary env request body t extraHeaders st of
              (Inl e, st1) \<Rightarrow> (Inl e, st1)
            | (Inr openaiResponse, st1) \<Rightarrow> (Inr (OpenAIResponse openaiResponse), st1)))"

definition openai_fallback ::
    "orch_env \<Rightarrow> OpenAIChatRequest \<Rightarrow> GeminiInternalRequest \<Rightarrow> CloudTokenData \<Rightarrow>
     (string \<times> string) list \<Rightarrow> orch_state \<Rightarrow> (string + openai_result) \<times> orch_state" where
  "openai_fallback env request body t extraHeaders st =
     (if oq_stream request
      then (case call_streamGenerateInternal env body t extraHeaders st of
              (Inr stream, st1) \<Rightarrow> (Inr (OpenAIStream stream (oq_model request)), st1)
            | (Inl e, st1) \<Rightarrow> (Inl e, st1))
      else (case openai_unary env request body t extraHeaders st of
              (Inl e, st1) \<Rightarrow> (Inl e, st1)
            | (Inr openaiResponse, st1) \<Rightarrow> (Inr (OpenAIResponse openaiResponse), st1)))"

definition attempt_openai ::
    "orch_env \<Rightarrow> OpenAIChatRequest \<Rightarrow> (string \<times> string) list \<Rightarrow> CloudTokenData \<Rightarrow> orch_state \<Rightarrow>
     (string + openai_result) \<times> orch_state" where
  "attempt_openai env request extraHeaders t st =
     (let geminiBody = transformClaudeRequestIn env (length (os_calls st))
                         (convertOpenAIToClaude env request) (token_project t)
      in case openai_try env request geminiBody t extraHeaders st of
           (Inr r, st1) \<Rightarrow> (Inr r, st1)
         | (Inl e, st1) \<Rightarrow>
             if isProjectContextError e
             then (let fallbackBody = transformClaudeRequestIn env (length (os_calls st1))
                                        (convertOpenAIToClaude env request) []
                   in openai_fallback env request fallbackBody t extraHeaders st1)
             else (Inl e, st1))"

subsection \<open>The retry loop\<close>

text \<open>
  What each handler does with the classification of a failed attempt: the account is
  marked only for a retryable error, forbidden before rate limited. \<open>now\<close> is the
  clock reading inside \<open>markInCooldown\<close>.
\<close>

definition markFromDecision :: "int \<Rightarrow> decision \<Rightarrow> string \<Rightarrow> pool \<Rightarrow> pool" where
  "markFromDecision now d tokenId p =
     (if retry d
      then (if markAsForbidden d then markAsForbidden_tm now tokenId p
            else if markAsRateLimited d then markAsRateLimited_tm now tokenId p
            else p)
      else p)"

text \<open>\<open>attemptedAccountIds.add(id)\<close>, the set kept in insertion order.\<close>

definition set_add :: "string list \<Rightarrow> string \<Rightarrow> string list" where
  "set_add xs x = (if x \<in> set xs then xs else xs @ [x])"

text \<open>
  The loop \<open>for (let i = 0; i < maxRetries; i++)\<close> of the four handlers, which differ in
  the attempt, the session key and the messages. \<open>n\<close> counts the iterations left. The
  wait between attempts changes nothing but the clock readings, which \<open>env\<close> gives.
  A token without token data makes the first read of \<open>token.token\<close> a type error inside
  the \<open>try\<close> block.
\<close>

fun retry_loop ::
    "orch_env \<Rightarrow> (CloudTokenData \<Rightarrow> orch_state \<Rightarrow> (string + 'a) \<times> orch_state) \<Rightarrow> string option \<Rightarrow>
     string \<Rightarrow> string \<Rightarrow> nat \<Rightarrow> nat \<Rightarrow> string list \<Rightarrow> string option \<Rightarrow> orch_state \<Rightarrow>
     (string + 'a) \<times> orch_state" where
  "retry_loop env attempt sk noAccounts failed 0 i attemptedAccountIds lastError st =
     (Inl (case lastError of None \<Rightarrow> failed | Some e \<Rightarrow> e), st)"
| "retry_loop env attempt sk noAccounts failed (Suc n) i attemptedAccountIds lastError st =
     (let options = \<lparr>opt_sessionKey = sk, opt_excludeAccountIds = attemptedAccountIds\<rparr>
      in case getNextToken (oe_tm env i) options (os_pool st) of
           (selected, p1) \<Rightarrow>
             let st1 = st\<lparr>os_pool := p1, os_selections := os_selections st @ [options]\<rparr>
             in case selected of
                  None \<Rightarrow> (Inl noAccounts, st1)
                | Some tok \<Rightarrow>
                    let attempted = set_add attemptedAccountIds (acc_id tok)
                    in case (case acc_token tok of
                               None \<Rightarrow> (Inl ''Cannot read properties of undefined'', st1)
                             | Some t \<Rightarrow> attempt t st1) of
                         (Inr r, st2) \<Rightarrow> (Inr r, st2)
                       | (Inl e, st2) \<Rightarrow>
                           let decision = classifyUpstreamError e;
                               st3 = st2\<lparr>os_pool := markFromDecision (oe_now_mark env i) decision
                                                        (acc_id tok) (os_pool st2)\<rparr>
                           in retry_loop env attempt sk noAccounts failed n (i + 1) attempted
                                (Some e) st3)"

definition maxRetries :: nat where
  "maxRetries = 3"

definition handleAnthropicMessages ::
    "orch_env \<Rightarrow> AnthropicChatRequest \<Rightarrow> orch_state \<Rightarrow> (string + anthropic_result) \<times> orch_state" where
  "handleAnthropicMessages env request st =
     retry_loop env (attempt_anthropic env request (buildModelSpecificHeaders (aq_model request)))
       (getSessionKeyFromAnthropic request)
       ''No available accounts'' ''Request failed after retries'' maxRetries 0 [] None st"

definition handleGeminiGenerateContent ::
    "orch_env \<Rightarrow> string \<Rightarrow> GeminiRequest \<Rightarrow> orch_state \<Rightarrow> (string + jsval) \<times> orch_state" where
  "handleGeminiGenerateContent env model request st =
     (let normalizedModel = normalizeGeminiModel model;
          targetModel = oe_mapModel env normalizedModel;
          extraHeaders = buildModelSpecificHeaders normalizedModel
      in retry_loop env (attempt_gemini env targetModel request extraHeaders) None
           ''No available accounts (all exhausted or rate limited)''
           ''Gemini request failed after retries'' maxRetries 0 [] None st)"

definition handleGeminiStreamGenerateContent ::
    "orch_env \<Rightarrow> string \<Rightarrow> GeminiRequest \<Rightarrow> orch_state \<Rightarrow>
     (string + gemini_stream_result) \<times> orch_state" where
  "handleGeminiStreamGenerateContent env model request st =
     (let normalizedModel = normalizeGeminiModel model;
          targetModel = oe_mapModel env normalizedModel;
          extraHeaders = buildModelSpecificHeaders normalizedModel
      in retry_loop env (attempt_gemini_stream env targetModel request extraHeaders) None
           ''No available accounts (all exhausted or rate limited)''
           ''Gemini stream request failed after retries'' maxRetries 0 [] None st)"

definition handleChatCompletions ::
    "orch_env \<Rightarrow> OpenAIChatRequest \<Rightarrow> orch_state \<Rightarrow> (string + openai_result) \<times> orch_state" where
  "handleChatCompletions env request st =
     retry_loop env (attempt_openai env request (buildModelSpecificHeaders (oq_model request)))
       (getSessionKeyFromOpenAI request)
       ''No available accounts (all exhausted or rate limited)''
       ''Request failed after retries'' maxRetries 0 [] None st"

section \<open>The stream of the scenario\<close>

definition sse_inv :: "sse_state \<Rightarrow> bool" where
  "sse_inv st = (if ss_out st = [] then \<not> ss_hasEmittedChunk st \<and> \<not> ss_hasSentDone st \<and> \<not> ss_closed st else True)"

definition scenario_text :: string where
  \<open>scenario_text =
     ''{"candidates":[{"content":{"parts":[{"thought":true,"text":"reasoning"},'' @
     ''{"functionCall":{"id":"fc1","name":"search","args":{"q":"x"}}},{"text":"answer"}]},'' @
     ''"finishReason":"STOP"}]}''\<close>

definition scenario_frame :: jsval where
  "scenario_frame =
     JObj [(''candidates'',
            JArr [JObj [(''content'',
                         JObj [(''parts'',
                                JArr [JObj [(''thought'', JBool True), (''text'', JStr ''reasoning'')],
                                      JObj [(''functionCall'',
                                             JObj [(''id'', JStr ''fc1''),
                                                   (''name'', JStr ''search''),
                                                   (''args'', JObj [(''q'', JStr ''x'')])])],
                                      JObj [(''text'', JStr ''answer'')]])]),
                        (''finishReason'', JStr ''STOP'')]])]"

definition scenario_line :: string where
  "scenario_line = ''data: '' @ scenario_text"

definition scenario_chunk :: string where
  "scenario_chunk = scenario_line @ [CHR 0x0A, CHR 0x0A]"

definition ex_sse_env :: sse_env where
  "ex_sse_env =
     \<lparr>se_parse = (\<lambda>s. if s = scenario_text then Some scenario_frame else None),
      se_uuid = (\<lambda>n. ''u'' @ replicate n CHR ''+''),
      se_now = 1700000000123\<rparr>"

definition keep_alive_chunk :: string where
  "keep_alive_chunk = '': keep-alive'' @ [CHR 0x0A, CHR 0x0A]"

section \<open>Example requests\<close>

definition frame_of :: "(string \<Rightarrow> jsval option) \<Rightarrow> string \<Rightarrow> jsval option" where
  "frame_of parse line = (case data_payload line of None \<Rightarrow> None | Some d \<Rightarrow> parse d)"

definition keep_last :: "jsval \<Rightarrow> jsval list \<Rightarrow> jsval" where
  "keep_last init vs = (case filter truthy vs of [] \<Rightarrow> init | w # ws \<Rightarrow> last (w # ws))"

definition ex_transformResponse :: "jsval \<Rightarrow> ClaudeResponse" where
  "ex_transformResponse r =
     \<lparr>cr_id = JStr ''msg_1'', cr_type = JStr ''message'', cr_role = JStr ''assistant'',
      cr_model = opt_get r ''modelVersion'',
      cr_content = opt_get (opt_get (opt_index0 (opt_get r ''candidates'')) ''content'') ''parts'',
      cr_stop_reason = JStr ''end_turn'', cr_stop_sequence = JNull, cr_usage = JUndefined\<rparr>"

definition ex_orch_env ::
    "(nat \<Rightarrow> upstream_call \<Rightarrow> string + jsval) \<Rightarrow> (nat \<Rightarrow> upstream_call \<Rightarrow> string + upstream_stream) \<Rightarrow>
     (string \<Rightarrow> jsval option) \<Rightarrow> orch_env" where
  "ex_orch_env gen str parse =
     \<lparr>oe_tm = (\<lambda>i. ex_env (1000000 + 1000 * int i)),
      oe_now_mark = (\<lambda>i. 1000500 + 1000 * int i),
      oe_generateInternal = gen,
      oe_streamGenerateInternal = str,
      oe_parse = parse,
      oe_uuid = (\<lambda>n. ''uuid''),
      oe_userAgentEnv = None,
      oe_mapModel = (\<lambda>m. m),
      oe_claudeContents = cq_rest,
      oe_claudeModel = (\<lambda>m. m),
      oe_transformResponse = ex_transformResponse,
      oe_convertOpenAIMessages = (\<lambda>b. b),
      oe_convertClaudeToOpenAIResponse = (\<lambda>r m. JObj [(''model'', JStr m), (''content'', cr_content r)]),
      oe_normalizeGeminiGenerateResponse = (\<lambda>r. r)\<rparr>"

definition ex_state :: "pool \<Rightarrow> orch_state" where
  "ex_state p = \<lparr>os_pool = p, os_calls = [], os_selections = []\<rparr>"

definition hello_text :: string where
  \<open>hello_text =
     ''{"candidates":[{"content":{"parts":[{"text":"hello world"}]},"finishReason":"STOP"}],'' @
     ''"usageMetadata":{"totalTokenCount":5}}''\<close>

definition hello_frame :: jsval where
  "hello_frame =
     JObj [(''candidates'',
            JArr [JObj [(''content'', JObj [(''parts'', JArr [JObj [(''text'', JStr ''hello world'')]])]),
                        (''finishReason'', JStr ''STOP'')]]),
           (''usageMetadata'', JObj [(''totalTokenCount'', JNum 5)])]"

definition hello_chunk :: string where
  "hello_chunk = ''data: '' @ hello_text @ [CHR 0x0A, CHR 0x0A]"

definition hello_stream :: upstream_stream where
  "hello_stream = UpstreamStream [hello_chunk] StreamEnd"

definition ex_fallback_env :: orch_env where
  "ex_fallback_env =
     ex_orch_env (\<lambda>n c. Inr (JObj [(''candidates'', JArr [])]))
       (\<lambda>n c. Inr hello_stream)
       (\<lambda>s. if s = hello_text then Some hello_frame else None)"

definition ex_body :: GeminiInternalRequest where
  "ex_body =
     \<lparr>gi_project = ''project-1'', gi_requestId = ''uuid'', gi_request = JObj [],
      gi_model = ''gemini-2.5-flash'', gi_userAgent = defaultRequestUserAgent,
      gi_requestType = ''generate-content''\<rparr>"

definition ex_cloud_token :: CloudTokenData where
  "ex_cloud_token =
     \<lparr>ct_access_token = ''token'', ct_refresh_token = ''refresh'', ct_expires_in = 3600,
      ct_expiry_timestamp = 2000000, ct_token_type = ''Bearer'',
      ct_project_id = Some ''project-1'', ct_session_id = Some ''session-1'',
      ct_upstream_proxy_url = None\<rparr>"

section \<open>The calls made since a state\<close>

definition made_calls :: "orch_state \<Rightarrow> orch_state \<Rightarrow> upstream_call list" where
  "made_calls st st' = drop (length (os_calls st)) (os_calls st')"

definition extends_calls :: "(upstream_call \<Rightarrow> bool) \<Rightarrow> orch_state \<Rightarrow> orch_state \<Rightarrow> bool" where
  "extends_calls P st st' =
     (os_calls st' = os_calls st @ made_calls st st' \<and> list_all P (made_calls st st') \<and>
      os_pool st' = os_pool st \<and> os_selections st' = os_selections st)"

text \<open>A property of the body and of the token holds of every call a sender makes.\<close>

definition call_of :: "GeminiInternalRequest \<Rightarrow> CloudTokenData \<Rightarrow> (string \<times> string) list \<Rightarrow> upstream_call \<Rightarrow> bool" where
  "call_of body t hdrs c =
     (uc_body c = body \<and> uc_accessToken c = ct_access_token t \<and>
      uc_upstreamProxyUrl c = ct_upstream_proxy_url t \<and> uc_extraHeaders c = hdrs)"

definition unprojected :: "CloudTokenData \<Rightarrow> upstream_call \<Rightarrow> bool" where
  "unprojected t c = (gi_project (uc_body c) = [] \<and> uc_accessToken c = ct_access_token t)"

text \<open>The body of the retry with \<open>gemini-2.5-flash\<close>, built after the calls of \<open>st\<close>.\<close>

definition downgraded_body :: "orch_env \<Rightarrow> AnthropicChatRequest \<Rightarrow> CloudTokenData \<Rightarrow> orch_state \<Rightarrow> GeminiInternalRequest" where
  "downgraded_body env request t st =
     transformClaudeRequestIn env (length (os_calls st))
       ((toClaudeRequest request)\<lparr>cq_model := ''gemini-2.5-flash''\<rparr>) (token_project t)"

definition is_response :: "string + anthropic_result \<Rightarrow> bool" where
  "is_response x = (case x of Inr (AnthropicResponse resp) \<Rightarrow> True | y \<Rightarrow> False)"

section \<open>Further example data\<close>

definition ex_opts_plain :: select_options where
  "ex_opts_plain = \<lparr>opt_sessionKey = None, opt_excludeAccountIds = []\<rparr>"

definition ex_usable_env :: orch_env where
  "ex_usable_env = ex_orch_env (\<lambda>n c. Inr hello_frame) (\<lambda>n c. Inr hello_stream) (\<lambda>s. None)"

definition ex_gemini_request :: GeminiRequest where
  "ex_gemini_request =
     \<lparr>gq_contents = JArr [JObj [(''role'', JStr ''user'')]], gq_generationConfig = JUndefined,
      gq_systemInstruction = None\<rparr>"

definition ex_selected_token :: CloudTokenData where
  "ex_selected_token =
     \<lparr>ct_access_token = ''token-A'', ct_refresh_token = ''refresh'', ct_expires_in = 3600,
      ct_expiry_timestamp = 2000000, ct_token_type = ''Bearer'', ct_project_id = None,
      ct_session_id = Some ''session-1'', ct_upstream_proxy_url = None\<rparr>"

definition quota_message :: string where
  "quota_message = ''429 Resource has been exhausted (e.g. check quota).''"

definition flash_response :: jsval where
  "flash_response =
     JObj [(''candidates'',
            JArr [JObj [(''content'', JObj [(''parts'', JArr [JObj [(''text'', JStr ''hello world'')]])]),
                        (''finishReason'', JStr ''STOP'')]]),
           (''modelVersion'', JStr ''gemini-2.5-flash'')]"

text \<open>An upstream that has quota left for \<open>gemini-2.5-flash\<close> only.\<close>

definition ex_quota_env :: orch_env where
  "ex_quota_env =
     ex_orch_env
       (\<lambda>n c. if gi_model (uc_body c) = ''gemini-2.5-flash'' then Inr flash_response
               else Inl quota_message)
       (\<lambda>n c. if gi_model (uc_body c) = ''gemini-2.5-flash'' then Inr hello_stream
               else Inl quota_message)
       (\<lambda>s. None)"

definition ex_anthropic_request :: "string \<Rightarrow> bool \<Rightarrow> AnthropicChatRequest" where
  "ex_anthropic_request model streaming =
     \<lparr>aq_model = model, aq_stream = streaming, aq_metadata = JUndefined, aq_rest = JArr []\<rparr>"

definition ex_pool3 :: pool where
  "ex_pool3 =
     \<lparr>tokens = [(''A'', ex_token ''A'' (Some ''project-1'')),
                (''B'', ex_token ''B'' (Some ''project-1'')),
                (''C'', ex_token ''C'' (Some ''project-1''))],
      cooldowns = Map.empty, sessionBindings = Map.empty, currentIndex = 0\<rparr>"

definition ex_failing_env :: orch_env where
  "ex_failing_env =
     ex_orch_env (\<lambda>n c. Inl ''400 invalid argument'') (\<lambda>n c. Inl ''400 invalid argument'')
       (\<lambda>s. None)"

definition ex_openai_request :: OpenAIChatRequest where
  "ex_openai_request =
     \<lparr>oq_model = ''gemini-2.5-flash'', oq_stream = False, oq_extra = JUndefined,
      oq_rest = JArr []\<rparr>"

definition ex_store_env :: tm_env where
  "ex_store_env =
     (ex_env 1000000)\<lparr>getAccounts :=
        Some [\<lparr>acc_id = ''W'', acc_provider = ''google'', acc_email = ''W@test.com'',
                acc_token = None, acc_created_at = 0, acc_last_used = 0\<rparr>,
              \<lparr>acc_id = ''X'', acc_provider = ''google'', acc_email = ''X@test.com'',
                acc_token = Some \<lparr>ct_access_token = ''token-X'', ct_refresh_token = ''refresh'',
                                  ct_expires_in = 3600, ct_expiry_timestamp = 2000000,
                                  ct_token_type = ''Bearer'', ct_project_id = None,
                                  ct_session_id = None, ct_upstream_proxy_url = None\<rparr>,
                acc_created_at = 0, acc_last_used = 0\<rparr>]\<rparr>"

definition ex_empty_pool :: pool where
  "ex_empty_pool =
     \<lparr>tokens = [], cooldowns = Map.empty, sessionBindings = Map.empty, currentIndex = 0\<rparr>"

definition ex_pool_cooled :: pool where
  "ex_pool_cooled =
     \<lparr>tokens = [(''A'', ex_token ''A'' None), (''B'', ex_token ''B'' None),
                (''C'', ex_token ''C'' None)],
      cooldowns = [''B'' \<mapsto> 1200000, ''C'' \<mapsto> 1300000],
      sessionBindings = Map.empty, currentIndex = 0\<rparr>"

definition ex_opts_excl_A :: select_options where
  "ex_opts_excl_A = \<lparr>opt_sessionKey = None, opt_excludeAccountIds = [''A'']\<rparr>"

definition ex_pool_sessions :: pool where
  "ex_pool_sessions =
     \<lparr>tokens = [(''A'', ex_token ''A'' None), (''B'', ex_token ''B'' None)],
      cooldowns = Map.empty,
      sessionBindings =
        [''s1'' \<mapsto> \<lparr>b_accountId = ''B'', b_expiresAt = 1500000\<rparr>,
         ''s0'' \<mapsto> \<lparr>b_accountId = ''B'', b_expiresAt = 900000\<rparr>,
         ''s2'' \<mapsto> \<lparr>b_accountId = ''A'', b_expiresAt = 1400000\<rparr>],
      currentIndex = 0\<rparr>"

definition ex_opts_key :: "string \<Rightarrow> select_options" where
  "ex_opts_key k = \<lparr>opt_sessionKey = Some k, opt_excludeAccountIds = []\<rparr>"

definition ex_pool_sessions_cooled :: pool where
  "ex_pool_sessions_cooled = ex_pool_sessions\<lparr>cooldowns := [''B'' \<mapsto> 1200000]\<rparr>"

definition ex_pool_sessions_all_cooled :: pool where
  "ex_pool_sessions_all_cooled =
     ex_pool_sessions\<lparr>cooldowns := [''A'' \<mapsto> 1200000, ''B'' \<mapsto> 1300000]\<rparr>"




section \<open>Facts about strings\<close>

lemma startsWith_iff: "startsWith s k \<longleftrightarrow> (\<exists>q. s = k @ q)"
  by (induction s k rule: startsWith.induct) auto

lemma str_includes_iff: "str_includes s k \<longleftrightarrow> (\<exists>p q. s = p @ k @ q)"
proof (induction s)
  case Nil
  then show ?case by auto
next
  case (Cons c s)
  show ?case
  proof
    assume "str_includes (c # s) k"
    then consider "startsWith (c # s) k" | "str_includes s k" by auto
    then show "\<exists>p q. c # s = p @ k @ q"
    proof cases
      case 1
      then obtain q where "c # s = [] @ k @ q" by (auto simp: startsWith_iff)
      then show ?thesis by blast
    next
      case 2
      then obtain p q where "s = p @ k @ q" using Cons.IH by blast
      then have "c # s = (c # p) @ k @ q" by simp
      then show ?thesis by blast
    qed
  next
    assume "\<exists>p q. c # s = p @ k @ q"
    then obtain p q where pq: "c # s = p @ k @ q" by blast
    show "str_includes (c # s) k"
    proof (cases p)
      case Nil
      with pq have "startsWith (c # s) k" by (auto simp: startsWith_iff)
      then show ?thesis by simp
    next
      case (Cons a p')
      with pq have "s = p' @ k @ q" by simp
      then have "str_includes s k" using Cons.IH by blast
      then show ?thesis by simp
    qed
  qed
qed

lemma toLowerCase_append: "toLowerCase (a @ b) = toLowerCase a @ toLowerCase b"
  by (simp add: toLowerCase_def)

lemma str_includes_toLowerCase:
  "str_includes s k \<Longrightarrow> str_includes (toLowerCase s) (toLowerCase k)"
  unfolding str_includes_iff by (metis toLowerCase_append)

section \<open>The error taxonomy\<close>

lemma includes_any_forbidden:
  "includes_any msg forbidden_keywords \<longleftrightarrow>
     (str_includes msg ''401'' \<or> str_includes msg ''unauthorized'' \<or>
      str_includes msg ''invalid_grant'' \<or> str_includes msg ''403'' \<or>
      str_includes msg ''permission_denied'' \<or> str_includes msg ''forbidden'')"
  by (auto simp: includes_any_def forbidden_keywords_def)

lemma includes_any_rate_limit:
  "includes_any msg rate_limit_keywords \<longleftrightarrow>
     (str_includes msg ''429'' \<or> str_includes msg ''resource_exhausted'' \<or>
      str_includes msg ''quota'' \<or> str_includes msg ''rate_limit'')"
  by (auto simp: includes_any_def rate_limit_keywords_def)

lemma includes_any_transient:
  "includes_any msg transient_keywords \<longleftrightarrow>
     (str_includes msg ''408'' \<or> str_includes msg ''500'' \<or> str_includes msg ''502'' \<or>
      str_includes msg ''503'' \<or> str_includes msg ''504'' \<or>
      str_includes msg ''socket hang up'' \<or> str_includes msg ''timeout'' \<or>
      str_includes msg ''empty response stream'' \<or> str_includes msg ''connection reset'')"
  by (auto simp: includes_any_def transient_keywords_def)

lemma classify_forbidden:
  "includes_any (toLowerCase m) forbidden_keywords \<Longrightarrow>
   classifyUpstreamError m = \<lparr>retry = True, markAsForbidden = True, markAsRateLimited = False\<rparr>"
  by (auto simp: includes_any_forbidden classifyUpstreamError_def Let_def)

lemma classify_rate_limited:
  "\<not> includes_any (toLowerCase m) forbidden_keywords \<Longrightarrow>
   includes_any (toLowerCase m) rate_limit_keywords \<Longrightarrow>
   classifyUpstreamError m = \<lparr>retry = True, markAsForbidden = False, markAsRateLimited = True\<rparr>"
  by (auto simp: includes_any_forbidden includes_any_rate_limit classifyUpstreamError_def Let_def)

lemma classify_transient:
  "\<not> includes_any (toLowerCase m) forbidden_keywords \<Longrightarrow>
   \<not> includes_any (toLowerCase m) rate_limit_keywords \<Longrightarrow>
   includes_any (toLowerCase m) transient_keywords \<Longrightarrow>
   classifyUpstreamError m =
     \<lparr>retry = True, markAsForbidden = False,
      markAsRateLimited = str_includes (toLowerCase m) ''rate limit''\<rparr>"
  by (auto simp: includes_any_forbidden includes_any_rate_limit includes_any_transient
      classifyUpstreamError_def Let_def)

section \<open>Facts about the token pool\<close>

lemma tokens_clearExpired [simp]: "tokens (clearExpiredSessionBindings now p) = tokens p"
  by (simp add: clearExpiredSessionBindings_def)

lemma allTokens_nonempty: "tokens p \<noteq> [] \<Longrightarrow> allTokens excl p \<noteq> []"
  by (simp add: allTokens_def)

lemma candidateTokens_nonempty: "tokens p \<noteq> [] \<Longrightarrow> candidateTokens now excl p \<noteq> []"
  by (simp add: candidateTokens_def allTokens_nonempty)

lemma finalize_Some:
  "\<exists>acct p'. finalizeSelectedToken env a td ns sk p = (Some acct, p') \<and> acc_id acct = a"
  by (simp add: finalizeSelectedToken_def Let_def)

lemma find_Some_mem: "find P xs = Some x \<Longrightarrow> x \<in> set xs \<and> P x"
  by (induction xs) (auto split: if_splits)

lemma stickyMatch_in_cands:
  "stickyMatch now sk cands p = Some (a, td) \<Longrightarrow> (a, td) \<in> set cands"
  by (auto simp: stickyMatch_def split: option.splits if_splits dest!: find_Some_mem)

lemma sessionBindings_reloaded [simp]: "sessionBindings (reloaded env p) = sessionBindings p"
  by (simp add: reloaded_def loadAccounts_def split: option.splits)

lemma cooldowns_reloaded [simp]: "cooldowns (reloaded env p) = cooldowns p"
  by (simp add: reloaded_def loadAccounts_def split: option.splits)

lemma currentIndex_reloaded [simp]: "currentIndex (reloaded env p) = currentIndex p"
  by (simp add: reloaded_def loadAccounts_def split: option.splits)

lemma cooldowns_clearExpired [simp]: "cooldowns (clearExpiredSessionBindings now p) = cooldowns p"
  by (simp add: clearExpiredSessionBindings_def)

lemma currentIndex_clearExpired [simp]:
  "currentIndex (clearExpiredSessionBindings now p) = currentIndex p"
  by (simp add: clearExpiredSessionBindings_def)

lemma getNextToken_finalizes:
  assumes ne: "tokens (reloaded env p0) \<noteq> []"
  shows "\<exists>a td pX.
      (a, td) \<in> set (selection_candidates env opts p0) \<and>
      getNextToken env opts p0 =
        finalizeSelectedToken env a td (now_select env div 1000)
          (map_option trim (opt_sessionKey opts)) pX \<and>
      ((stickyMatch (now_select env) (map_option trim (opt_sessionKey opts))
          (selection_candidates env opts p0) (selection_pool env p0) = Some (a, td) \<and>
        pX = selection_pool env p0) \<or>
       (stickyMatch (now_select env) (map_option trim (opt_sessionKey opts))
          (selection_candidates env opts p0) (selection_pool env p0) = None \<and>
        selection_candidates env opts p0 !
          (currentIndex p0 mod length (selection_candidates env opts p0)) = (a, td) \<and>
        pX = (selection_pool env p0)\<lparr>currentIndex := currentIndex p0 + 1\<rparr>))"
proof -
  let ?now = "now_select env"
  let ?p2 = "selection_pool env p0"
  let ?cands = "selection_candidates env opts p0"
  let ?sk = "map_option trim (opt_sessionKey opts)"
  have cne: "?cands \<noteq> []"
    using ne by (simp add: selection_candidates_def selection_pool_def candidateTokens_nonempty)
  show ?thesis
  proof (cases "stickyMatch ?now ?sk ?cands ?p2")
    case None
    obtain a td where sel: "?cands ! (currentIndex p0 mod length ?cands) = (a, td)"
      by (cases "?cands ! (currentIndex p0 mod length ?cands)") auto
    have mem: "(a, td) \<in> set ?cands" using cne sel
      by (metis length_greater_0_conv mod_less_divisor nth_mem)
    have "getNextToken env opts p0 =
         finalizeSelectedToken env a td (?now div 1000) ?sk (?p2\<lparr>currentIndex := currentIndex p0 + 1\<rparr>)"
      using ne cne None sel
      by (simp add: getNextToken_def Let_def selection_candidates_def selection_pool_def)
    then show ?thesis using None mem sel by blast
  next
    case (Some m)
    obtain a td where m: "m = (a, td)" by (cases m) auto
    have mem: "(a, td) \<in> set ?cands" using Some m stickyMatch_in_cands by blast
    have "getNextToken env opts p0 = finalizeSelectedToken env a td (?now div 1000) ?sk ?p2"
      using ne cne Some m
      by (simp add: getNextToken_def Let_def selection_candidates_def selection_pool_def)
    then show ?thesis using Some m mem by blast
  qed
qed

lemma finalize_result:
  assumes "finalizeSelectedToken env a td ns sk p = (r, p')"
  shows "\<exists>acct t. r = Some acct \<and> acc_id acct = a \<and> acc_token acct = Some t \<and>
           ct_project_id t = sanitize_project_id (project_id td) \<and>
           map_option project_id (map_of (tokens p') a) = Some (sanitize_project_id (project_id td)) \<and>
           cooldowns p' = cooldowns p \<and> currentIndex p' = currentIndex p \<and>
           sessionBindings p' =
             (case sk of None \<Rightarrow> sessionBindings p
              | Some k \<Rightarrow> if k = [] then sessionBindings p
                          else (sessionBindings p)(k \<mapsto> \<lparr>b_accountId = a,
                                  b_expiresAt = now_bind env + stickySessionTtlMs\<rparr>))"
  using assms
  by (auto simp: finalizeSelectedToken_def Let_def update_conv' split: option.splits if_splits)

lemma candidateTokens_subset: "set (candidateTokens now excl p) \<subseteq> set (tokens p)"
  by (auto simp: candidateTokens_def validTokens_def allTokens_def excludedFilteredTokens_def
      split: if_splits)

lemma stickyMatch_Some_iff:
  assumes "sessionBindings p k = Some b" "now < b_expiresAt b" "k \<noteq> []"
  shows "(\<exists>td. stickyMatch now (Some k) cands p = Some (b_accountId b, td)) \<longleftrightarrow>
           b_accountId b \<in> fst ` set cands"
    and "stickyMatch now (Some k) cands p = None \<longleftrightarrow> b_accountId b \<notin> fst ` set cands"
    and "stickyMatch now (Some k) cands p = Some (a, td) \<Longrightarrow> a = b_accountId b"
proof -
  have sm: "stickyMatch now (Some k) cands p = find (\<lambda>(a, t). a = b_accountId b) cands"
    using assms by (simp add: stickyMatch_def)
  show "stickyMatch now (Some k) cands p = None \<longleftrightarrow> b_accountId b \<notin> fst ` set cands"
    unfolding sm by (force simp: find_None_iff)
  show "stickyMatch now (Some k) cands p = Some (a, td) \<Longrightarrow> a = b_accountId b"
    unfolding sm by (auto dest: find_Some_mem)
  show "(\<exists>td. stickyMatch now (Some k) cands p = Some (b_accountId b, td)) \<longleftrightarrow>
           b_accountId b \<in> fst ` set cands"
  proof
    assume "\<exists>td. stickyMatch now (Some k) cands p = Some (b_accountId b, td)"
    then show "b_accountId b \<in> fst ` set cands"
      unfolding sm by (force dest: find_Some_mem)
  next
    assume "b_accountId b \<in> fst ` set cands"
    then have "find (\<lambda>(a, t). a = b_accountId b) cands \<noteq> None"
      by (auto simp: find_None_iff)
    then obtain a td where f: "find (\<lambda>(a, t). a = b_accountId b) cands = Some (a, td)" by auto
    then have "a = b_accountId b" by (auto dest: find_Some_mem)
    with f show "\<exists>td. stickyMatch now (Some k) cands p = Some (b_accountId b, td)"
      unfolding sm by blast
  qed
qed

lemma stickyMatch_expired:
  assumes "sessionBindings p k = None \<or> (\<exists>b. sessionBindings p k = Some b \<and> b_expiresAt b \<le> now)"
  shows "stickyMatch now (Some k) cands p = None"
  using assms by (auto simp: stickyMatch_def)

lemma sessionBindings_clearExpired:
  "sessionBindings (clearExpiredSessionBindings now p) k =
     (case sessionBindings p k of None \<Rightarrow> None
      | Some b \<Rightarrow> if b_expiresAt b \<le> now then None else Some b)"
  by (simp add: clearExpiredSessionBindings_def)

lemma getNextToken_selects:
  assumes "tokens (reloaded env p0) \<noteq> []"
  shows "\<exists>acct p'. getNextToken env opts p0 = (Some acct, p') \<and>
           acc_id acct \<in> fst ` set (selection_candidates env opts p0)"
proof -
  let ?p2 = "selection_pool env p0"
  let ?cands = "selection_candidates env opts p0"
  have ne: "?cands \<noteq> []" using assms
    by (simp add: candidateTokens_nonempty selection_candidates_def selection_pool_def)
  show ?thesis
  proof (cases "stickyMatch (now_select env) (map_option trim (opt_sessionKey opts)) ?cands ?p2")
    case None
    obtain a td where sel: "?cands ! (currentIndex ?p2 mod length ?cands) = (a, td)"
      by (cases "?cands ! (currentIndex ?p2 mod length ?cands)") auto
    have "(a, td) \<in> set ?cands" using ne sel
      by (metis length_greater_0_conv mod_less_divisor nth_mem)
    then have "a \<in> fst ` set ?cands" by force
    moreover obtain acct p' where "finalizeSelectedToken env a td (now_select env div 1000)
        (map_option trim (opt_sessionKey opts)) (?p2\<lparr>currentIndex := currentIndex ?p2 + 1\<rparr>) = (Some acct, p')"
        "acc_id acct = a"
      using finalize_Some by blast
    ultimately show ?thesis using assms ne None sel
      by (simp add: getNextToken_def Let_def selection_candidates_def selection_pool_def)
  next
    case (Some m)
    obtain a td where m: "m = (a, td)" by (cases m) auto
    have "(a, td) \<in> set ?cands" using Some m stickyMatch_in_cands by blast
    then have "a \<in> fst ` set ?cands" by force
    moreover obtain acct p' where "finalizeSelectedToken env a td (now_select env div 1000)
        (map_option trim (opt_sessionKey opts)) ?p2 = (Some acct, p')"
        "acc_id acct = a"
      using finalize_Some by blast
    ultimately show ?thesis using assms ne Some m
      by (simp add: getNextToken_def Let_def selection_candidates_def selection_pool_def)
  qed
qed

lemma getNextToken_None_iff:
  "fst (getNextToken env opts p0) = None \<longleftrightarrow> tokens (reloaded env p0) = []"
proof (cases "tokens (reloaded env p0) = []")
  case True
  then show ?thesis by (simp add: getNextToken_def Let_def selection_candidates_def selection_pool_def)
next
  case False
  then show ?thesis using getNextToken_selects[of env p0 opts] by auto
qed



lemma distinct_loadInto:
  "distinct (map fst ts) \<Longrightarrow> distinct (map fst (loadInto env accounts ts))"
  by (induction accounts arbitrary: ts) (auto simp: distinct_update split: option.splits)

lemma distinct_reloaded:
  "distinct (map fst (tokens p)) \<Longrightarrow> distinct (map fst (tokens (reloaded env p)))"
  by (auto simp: reloaded_def loadAccounts_def distinct_loadInto split: option.splits)

lemma selected_project_id_discarded:
  assumes sel: "getNextToken env opts p0 = (Some acct, p')"
    and d: "distinct (map fst (tokens p0))"
    and td: "map_of (tokens (reloaded env p0)) (acc_id acct) = Some td"
    and pid: "project_id td = Some s" "is_cloud_code_id (trim s)"
  shows "map_option ct_project_id (acc_token acct) = Some None \<and>
         map_option project_id (map_of (tokens p') (acc_id acct)) = Some None"
proof -
  have ne: "tokens (reloaded env p0) \<noteq> []"
    using sel getNextToken_None_iff[of env opts p0] by auto
  let ?cands = "selection_candidates env opts p0"
  have "\<exists>a td' sk pX. (a, td') \<in> set ?cands \<and>
      getNextToken env opts p0 = finalizeSelectedToken env a td' (now_select env div 1000) sk pX"
    using getNextToken_finalizes[OF ne, of opts] by blast
  then obtain a td' sk pX where mem: "(a, td') \<in> set ?cands"
    and g: "getNextToken env opts p0 = finalizeSelectedToken env a td' (now_select env div 1000) sk pX"
    by blast
  from g sel have f: "finalizeSelectedToken env a td' (now_select env div 1000) sk pX = (Some acct, p')"
    by simp
  from finalize_result[OF f] obtain t where r: "acc_id acct = a" "acc_token acct = Some t"
    "ct_project_id t = sanitize_project_id (project_id td')"
    "map_option project_id (map_of (tokens p') a) = Some (sanitize_project_id (project_id td'))"
    by auto
  have "(a, td') \<in> set (tokens (reloaded env p0))"
    using mem candidateTokens_subset
    by (fastforce simp: selection_candidates_def selection_pool_def)
  then have "map_of (tokens (reloaded env p0)) a = Some td'"
    using distinct_reloaded[OF d] by simp
  then have "td' = td" using td r(1) by simp
  then have "sanitize_project_id (project_id td') = None"
    using pid by (simp add: sanitize_project_id_def)
  then show ?thesis using r by simp
qed

lemma session_binding_parts:
  assumes sel: "getNextToken env opts p0 = (Some acct, p')"
    and key: "opt_sessionKey opts = Some sk" "trim sk \<noteq> []"
  shows "sessionBindings p' (trim sk) =
           Some \<lparr>b_accountId = acc_id acct, b_expiresAt = now_bind env + 10 * 60 * 1000\<rparr>"
    and "\<forall>b. sessionBindings p0 (trim sk) = Some b \<and> now_select env < b_expiresAt b \<longrightarrow>
           (acc_id acct = b_accountId b \<longleftrightarrow>
            b_accountId b \<in> fst ` set (selection_candidates env opts p0))"
    and "\<forall>b. sessionBindings p0 (trim sk) = Some b \<and> now_select env < b_expiresAt b \<and>
             in_cooldown (now_select env) p0 (b_accountId b) \<and>
             validTokens (now_select env) (opt_excludeAccountIds opts) (selection_pool env p0) \<noteq> [] \<longrightarrow>
           acc_id acct \<noteq> b_accountId b"
    and "\<forall>b. sessionBindings p0 (trim sk) = Some b \<and> b_expiresAt b \<le> now_select env \<longrightarrow>
           acc_id acct = fst (selection_candidates env opts p0 !
                               (currentIndex p0 mod length (selection_candidates env opts p0))) \<and>
           currentIndex p' = currentIndex p0 + 1"
    and "\<forall>k b. sessionBindings p' k = Some b \<longrightarrow>
           now_select env < b_expiresAt b \<or>
           (k = trim sk \<and> b = \<lparr>b_accountId = acc_id acct,
                                  b_expiresAt = now_bind env + 10 * 60 * 1000\<rparr>)"
proof -
  let ?now = "now_select env"
  let ?p2 = "selection_pool env p0"
  let ?cands = "selection_candidates env opts p0"
  have ne: "tokens (reloaded env p0) \<noteq> []"
    using sel getNextToken_None_iff[of env opts p0] by auto
  let ?sk = "map_option trim (opt_sessionKey opts)"
  have sk: "?sk = Some (trim sk)" using key by simp
  from getNextToken_finalizes[OF ne, of opts]
  obtain a td pX where mem: "(a, td) \<in> set ?cands"
    and g: "getNextToken env opts p0 = finalizeSelectedToken env a td (?now div 1000) ?sk pX"
    and how: "(stickyMatch ?now ?sk ?cands ?p2 = Some (a, td) \<and> pX = ?p2) \<or>
       (stickyMatch ?now ?sk ?cands ?p2 = None \<and> ?cands ! (currentIndex p0 mod length ?cands) = (a, td) \<and>
        pX = ?p2\<lparr>currentIndex := currentIndex p0 + 1\<rparr>)"
    by blast
  from how have sb: "sessionBindings pX = sessionBindings ?p2" by auto
  from g sel have f: "finalizeSelectedToken env a td (?now div 1000) (Some (trim sk)) pX = (Some acct, p')"
    using sk by simp
  from finalize_result[OF f] key
  have aid: "acc_id acct = a"
    and ci: "currentIndex p' = currentIndex pX"
    and sb': "sessionBindings p' = (sessionBindings pX)(trim sk \<mapsto> \<lparr>b_accountId = a,
                                  b_expiresAt = now_bind env + stickySessionTtlMs\<rparr>)"
    by auto
  show "sessionBindings p' (trim sk) =
           Some \<lparr>b_accountId = acc_id acct, b_expiresAt = now_bind env + 10 * 60 * 1000\<rparr>"
    using sb' aid by (simp add: stickySessionTtlMs_def)
  show sticky: "\<forall>b. sessionBindings p0 (trim sk) = Some b \<and> ?now < b_expiresAt b \<longrightarrow>
           (acc_id acct = b_accountId b \<longleftrightarrow> b_accountId b \<in> fst ` set ?cands)"
  proof (intro allI impI)
    fix b assume b: "sessionBindings p0 (trim sk) = Some b \<and> ?now < b_expiresAt b"
    then have b2: "sessionBindings ?p2 (trim sk) = Some b"
      by (simp add: selection_pool_def sessionBindings_clearExpired)
    note sm = stickyMatch_Some_iff[OF b2 _ key(2), of ?now ?cands]
    from how show "acc_id acct = b_accountId b \<longleftrightarrow> b_accountId b \<in> fst ` set ?cands"
    proof
      assume "stickyMatch ?now ?sk ?cands ?p2 = Some (a, td) \<and> pX = ?p2"
      then have "a = b_accountId b" using sm(3) b sk by simp
      then show ?thesis using aid mem by force
    next
      assume rr: "stickyMatch ?now ?sk ?cands ?p2 = None \<and>
        ?cands ! (currentIndex p0 mod length ?cands) = (a, td) \<and>
        pX = ?p2\<lparr>currentIndex := currentIndex p0 + 1\<rparr>"
      then have "b_accountId b \<notin> fst ` set ?cands" using sm(2) b sk by simp
      moreover have "a \<in> fst ` set ?cands" using mem by force
      ultimately show ?thesis using aid by metis
    qed
  qed
  show "\<forall>b. sessionBindings p0 (trim sk) = Some b \<and> ?now < b_expiresAt b \<and>
             in_cooldown ?now p0 (b_accountId b) \<and>
             validTokens ?now (opt_excludeAccountIds opts) ?p2 \<noteq> [] \<longrightarrow>
           acc_id acct \<noteq> b_accountId b"
  proof (intro allI impI)
    fix b assume b: "sessionBindings p0 (trim sk) = Some b \<and> ?now < b_expiresAt b \<and>
             in_cooldown ?now p0 (b_accountId b) \<and>
             validTokens ?now (opt_excludeAccountIds opts) ?p2 \<noteq> []"
    then have "?cands = validTokens ?now (opt_excludeAccountIds opts) ?p2"
      by (simp add: selection_candidates_def candidateTokens_def)
    moreover have "in_cooldown ?now ?p2 (b_accountId b)"
      using b by (simp add: in_cooldown_def selection_pool_def)
    ultimately have "b_accountId b \<notin> fst ` set ?cands"
      by (auto simp: validTokens_def split: if_splits)
    then show "acc_id acct \<noteq> b_accountId b" using sticky b by blast
  qed
  show "\<forall>b. sessionBindings p0 (trim sk) = Some b \<and> b_expiresAt b \<le> ?now \<longrightarrow>
           acc_id acct = fst (?cands ! (currentIndex p0 mod length ?cands)) \<and>
           currentIndex p' = currentIndex p0 + 1"
  proof (intro allI impI)
    fix b assume b: "sessionBindings p0 (trim sk) = Some b \<and> b_expiresAt b \<le> ?now"
    then have b2: "sessionBindings ?p2 (trim sk) = None"
      by (simp add: selection_pool_def sessionBindings_clearExpired)
    then have "stickyMatch ?now (Some (trim sk)) ?cands ?p2 = None"
      by (intro stickyMatch_expired) simp
    then have "stickyMatch ?now ?sk ?cands ?p2 = None"
      by (simp only: sk)
    with how have "?cands ! (currentIndex p0 mod length ?cands) = (a, td)"
      "pX = ?p2\<lparr>currentIndex := currentIndex p0 + 1\<rparr>" by auto
    then show "acc_id acct = fst (?cands ! (currentIndex p0 mod length ?cands)) \<and>
           currentIndex p' = currentIndex p0 + 1"
      using aid ci by simp
  qed
  show "\<forall>k b. sessionBindings p' k = Some b \<longrightarrow>
           ?now < b_expiresAt b \<or>
           (k = trim sk \<and> b = \<lparr>b_accountId = acc_id acct,
                                  b_expiresAt = now_bind env + 10 * 60 * 1000\<rparr>)"
    using sb' sb aid
    by (auto simp: selection_pool_def sessionBindings_clearExpired stickySessionTtlMs_def
        split: option.splits if_splits)
qed

lemma pair_of_fst_Some: "fst X = Some a \<Longrightarrow> X = (Some (the (fst X)), snd X)"
  by (cases X) simp

lemma selection_pair:
  "tokens p \<noteq> [] \<Longrightarrow>
   getNextToken env opts p = (Some (the (fst (getNextToken env opts p))), snd (getNextToken env opts p))"
proof -
  assume "tokens p \<noteq> []"
  then have "fst (getNextToken env opts p) \<noteq> None"
    by (simp add: getNextToken_None_iff reloaded_def)
  then obtain a where "fst (getNextToken env opts p) = Some a" by blast
  then show ?thesis by (rule pair_of_fst_Some)
qed

lemma pair_of_fst: "fst x = a \<Longrightarrow> x = (a, snd x)"
  by (cases x) simp

lemma loadInto_Nil_iff:
  "loadInto env accounts ts = [] \<longleftrightarrow> ts = [] \<and> (\<forall>a \<in> set accounts. acc_token a = None)"
proof (induction accounts arbitrary: ts)
  case Nil
  then show ?case by simp
next
  case (Cons a accounts)
  show ?case
  proof (cases "acc_token a")
    case None
    then show ?thesis using Cons.IH by (simp add: convertAccountToToken_def)
  next
    case (Some t)
    have "AList.update (acc_id a) td ts \<noteq> []" for td
      by (cases ts) (auto simp: update_Some_unfold)
    then show ?thesis using Some Cons.IH by (auto simp: convertAccountToToken_def)
  qed
qed

lemma loadInto_keys:
  "fst ` set (loadInto env accounts ts) \<subseteq>
     fst ` set ts \<union> acc_id ` {a \<in> set accounts. acc_token a \<noteq> None}"
proof (induction accounts arbitrary: ts)
  case Nil
  then show ?case by simp
next
  case (Cons a accounts)
  let ?K = "acc_id ` {a \<in> set accounts. acc_token a \<noteq> None}"
  show ?case
  proof (cases "convertAccountToToken env a")
    case None
    have "fst ` set (loadInto env accounts ts) \<subseteq> fst ` set ts \<union> ?K" by (rule Cons.IH)
    also have "?K \<subseteq> acc_id ` {x \<in> set (a # accounts). acc_token x \<noteq> None}" by auto
    finally show ?thesis using None by auto
  next
    case (Some td)
    then have tk: "acc_token a \<noteq> None"
      by (auto simp: convertAccountToToken_def split: option.splits)
    have "fst ` set (loadInto env accounts (AList.update (acc_id a) td ts)) \<subseteq>
        fst ` set (AList.update (acc_id a) td ts) \<union> ?K" by (rule Cons.IH)
    also have "fst ` set (AList.update (acc_id a) td ts) = {acc_id a} \<union> fst ` set ts"
      by (rule dom_update)
    finally have "fst ` set (loadInto env accounts (AList.update (acc_id a) td ts)) \<subseteq>
        {acc_id a} \<union> fst ` set ts \<union> ?K" .
    moreover have "{acc_id a} \<union> ?K \<subseteq> acc_id ` {x \<in> set (a # accounts). acc_token x \<noteq> None}"
      using tk by auto
    ultimately have "fst ` set (loadInto env accounts (AList.update (acc_id a) td ts)) \<subseteq>
        fst ` set ts \<union> acc_id ` {x \<in> set (a # accounts). acc_token x \<noteq> None}" by blast
    then show ?thesis using Some by simp
  qed
qed

lemma reloaded_empty_iff:
  "tokens (reloaded env p0) = [] \<longleftrightarrow>
     tokens p0 = [] \<and>
     (\<forall>accounts. getAccounts env = Some accounts \<longrightarrow> (\<forall>a \<in> set accounts. acc_token a = None))"
  by (auto simp: reloaded_def loadAccounts_def loadInto_Nil_iff split: option.splits)

lemma reloaded_keys:
  assumes "tokens p0 = []" "getAccounts env = Some accounts"
  shows "fst ` set (tokens (reloaded env p0)) \<subseteq> acc_id ` {a \<in> set accounts. acc_token a \<noteq> None}"
  using assms loadInto_keys[of env accounts "[]"] by (auto simp: reloaded_def loadAccounts_def)

lemma candidateTokens_explicit:
  "candidateTokens now excl p =
     (let remaining = filter (\<lambda>x. fst x \<notin> set excl) (tokens p);
          fresh = filter (\<lambda>x. fst x \<notin> set excl \<and>
                     \<not> (\<exists>u. cooldowns p (fst x) = Some u \<and> u \<noteq> 0 \<and> now < u)) (tokens p)
      in if fresh \<noteq> [] then fresh else if remaining \<noteq> [] then remaining else tokens p)"
proof -
  let ?rem = "filter (\<lambda>x. fst x \<notin> set excl) (tokens p)"
  let ?fresh = "filter (\<lambda>x. fst x \<notin> set excl \<and>
                     \<not> (\<exists>u. cooldowns p (fst x) = Some u \<and> u \<noteq> 0 \<and> now < u)) (tokens p)"
  have e: "excludedFilteredTokens excl p = ?rem"
    by (simp add: excludedFilteredTokens_def case_prod_unfold)
  have c: "in_cooldown now p a \<longleftrightarrow> (\<exists>u. cooldowns p a = Some u \<and> u \<noteq> 0 \<and> now < u)" for a
    by (auto simp: in_cooldown_def split: option.splits)
  have v1: "filter (\<lambda>(a, t). if a \<in> set excl then False else \<not> in_cooldown now p a) (tokens p) = ?fresh"
    by (rule filter_cong) (auto simp: c split: if_splits)
  have v2: "filter (\<lambda>(a, t). if a \<in> set excl then False else \<not> in_cooldown now p a) ?rem = ?fresh"
    unfolding filter_filter by (rule filter_cong) (auto simp: c split: if_splits)
  show ?thesis
  proof (cases "?rem = []")
    case True
    then have "\<forall>x \<in> set (tokens p). fst x \<in> set excl" by (auto simp: filter_empty_conv)
    then have "?fresh = []" by (auto simp: filter_empty_conv)
    then show ?thesis using True v1
      by (simp add: candidateTokens_def validTokens_def allTokens_def e Let_def)
  next
    case False
    then show ?thesis using v2
      by (simp add: candidateTokens_def validTokens_def allTokens_def e Let_def)
  qed
qed

lemma selection_candidates_explicit:
  assumes "tokens p0 \<noteq> []"
  shows "selection_candidates env opts p0 =
     (let remaining = filter (\<lambda>x. fst x \<notin> set (opt_excludeAccountIds opts)) (tokens p0);
          fresh = filter (\<lambda>x. fst x \<notin> set (opt_excludeAccountIds opts) \<and>
                     \<not> (\<exists>u. cooldowns p0 (fst x) = Some u \<and> u \<noteq> 0 \<and> now_select env < u)) (tokens p0)
      in if fresh \<noteq> [] then fresh else if remaining \<noteq> [] then remaining else tokens p0)"
  using assms
  by (simp add: selection_candidates_def selection_pool_def candidateTokens_explicit reloaded_def
      Let_def)

lemma getNextToken_round_robin:
  assumes ne: "tokens (reloaded env p0) \<noteq> []" and nk: "opt_sessionKey opts = None"
    and sel: "getNextToken env opts p0 = (Some acct, p')"
  shows "acc_id acct = fst (selection_candidates env opts p0 !
            (currentIndex p0 mod length (selection_candidates env opts p0)))"
    and "currentIndex p' = currentIndex p0 + 1"
proof -
  let ?cands = "selection_candidates env opts p0"
  from getNextToken_finalizes[OF ne, of opts]
  obtain a td pX where g: "getNextToken env opts p0 =
        finalizeSelectedToken env a td (now_select env div 1000)
          (map_option trim (opt_sessionKey opts)) pX"
    and how: "(stickyMatch (now_select env) (map_option trim (opt_sessionKey opts))
          ?cands (selection_pool env p0) = Some (a, td) \<and> pX = selection_pool env p0) \<or>
       (stickyMatch (now_select env) (map_option trim (opt_sessionKey opts))
          ?cands (selection_pool env p0) = None \<and>
        ?cands ! (currentIndex p0 mod length ?cands) = (a, td) \<and>
        pX = (selection_pool env p0)\<lparr>currentIndex := currentIndex p0 + 1\<rparr>)"
    by blast
  have "stickyMatch (now_select env) (map_option trim (opt_sessionKey opts))
          ?cands (selection_pool env p0) = None"
    using nk by (simp add: stickyMatch_def)
  with how have rr: "?cands ! (currentIndex p0 mod length ?cands) = (a, td)"
    and px: "pX = (selection_pool env p0)\<lparr>currentIndex := currentIndex p0 + 1\<rparr>" by auto
  from g sel have f: "finalizeSelectedToken env a td (now_select env div 1000)
          (map_option trim (opt_sessionKey opts)) pX = (Some acct, p')" by simp
  from finalize_result[OF f] have "acc_id acct = a" "currentIndex p' = currentIndex pX" by auto
  then show "acc_id acct = fst (?cands ! (currentIndex p0 mod length ?cands))"
    and "currentIndex p' = currentIndex p0 + 1"
    using rr px by simp_all
qed

lemma bindings_after_selection:
  assumes sel: "getNextToken env opts p0 = (Some acct, p')"
  shows "sessionBindings p' k =
     (if map_option trim (opt_sessionKey opts) = Some k \<and> k \<noteq> []
      then Some \<lparr>b_accountId = acc_id acct, b_expiresAt = now_bind env + 10 * 60 * 1000\<rparr>
      else (case sessionBindings p0 k of
              None \<Rightarrow> None
            | Some b \<Rightarrow> if b_expiresAt b \<le> now_select env then None else Some b))"
proof -
  let ?now = "now_select env"
  let ?p2 = "selection_pool env p0"
  let ?cands = "selection_candidates env opts p0"
  let ?sk = "map_option trim (opt_sessionKey opts)"
  have ne: "tokens (reloaded env p0) \<noteq> []"
    using sel getNextToken_None_iff[of env opts p0] by auto
  from getNextToken_finalizes[OF ne, of opts]
  obtain a td pX where
    g: "getNextToken env opts p0 = finalizeSelectedToken env a td (?now div 1000) ?sk pX"
    and how: "(stickyMatch ?now ?sk ?cands ?p2 = Some (a, td) \<and> pX = ?p2) \<or>
       (stickyMatch ?now ?sk ?cands ?p2 = None \<and> ?cands ! (currentIndex p0 mod length ?cands) = (a, td) \<and>
        pX = ?p2\<lparr>currentIndex := currentIndex p0 + 1\<rparr>)"
    by blast
  from how have sb: "sessionBindings pX = sessionBindings ?p2" by auto
  from g sel have f: "finalizeSelectedToken env a td (?now div 1000) ?sk pX = (Some acct, p')"
    by simp
  from finalize_result[OF f]
  have aid: "acc_id acct = a"
    and sb': "sessionBindings p' =
             (case ?sk of None \<Rightarrow> sessionBindings pX
              | Some k \<Rightarrow> if k = [] then sessionBindings pX
                          else (sessionBindings pX)(k \<mapsto> \<lparr>b_accountId = a,
                                  b_expiresAt = now_bind env + stickySessionTtlMs\<rparr>))"
    by auto
  have c: "sessionBindings ?p2 k =
     (case sessionBindings p0 k of None \<Rightarrow> None
      | Some b \<Rightarrow> if b_expiresAt b \<le> ?now then None else Some b)"
    by (simp add: selection_pool_def sessionBindings_clearExpired)
  show ?thesis
  proof (cases ?sk)
    case None
    then show ?thesis using sb' sb c by simp
  next
    case (Some k')
    then show ?thesis using sb' sb c aid
      by (auto simp: stickySessionTtlMs_def)
  qed
qed

lemma selection_with_binding:
  assumes sel: "getNextToken env opts p0 = (Some acct, p')"
    and key: "opt_sessionKey opts = Some sk" "trim sk \<noteq> []"
    and b: "sessionBindings p0 (trim sk) = Some b" "now_select env < b_expiresAt b"
  shows "acc_id acct = b_accountId b \<longleftrightarrow>
           b_accountId b \<in> fst ` set (selection_candidates env opts p0)"
    and "acc_id acct \<noteq> b_accountId b \<Longrightarrow>
           acc_id acct = fst (selection_candidates env opts p0 !
                               (currentIndex p0 mod length (selection_candidates env opts p0))) \<and>
           currentIndex p' = currentIndex p0 + 1"
    and "acc_id acct = b_accountId b \<Longrightarrow> currentIndex p' = currentIndex p0"
proof -
  let ?now = "now_select env"
  let ?p2 = "selection_pool env p0"
  let ?cands = "selection_candidates env opts p0"
  let ?sk = "map_option trim (opt_sessionKey opts)"
  have sk: "?sk = Some (trim sk)" using key by simp
  have ne: "tokens (reloaded env p0) \<noteq> []"
    using sel getNextToken_None_iff[of env opts p0] by auto
  from getNextToken_finalizes[OF ne, of opts]
  obtain a td pX where mem: "(a, td) \<in> set ?cands"
    and g: "getNextToken env opts p0 = finalizeSelectedToken env a td (?now div 1000) ?sk pX"
    and how: "(stickyMatch ?now ?sk ?cands ?p2 = Some (a, td) \<and> pX = ?p2) \<or>
       (stickyMatch ?now ?sk ?cands ?p2 = None \<and> ?cands ! (currentIndex p0 mod length ?cands) = (a, td) \<and>
        pX = ?p2\<lparr>currentIndex := currentIndex p0 + 1\<rparr>)"
    by blast
  from g sel have f: "finalizeSelectedToken env a td (?now div 1000) ?sk pX = (Some acct, p')"
    by simp
  from finalize_result[OF f]
  have aid: "acc_id acct = a" and ci: "currentIndex p' = currentIndex pX" by auto
  have b2: "sessionBindings ?p2 (trim sk) = Some b"
    using b by (simp add: selection_pool_def sessionBindings_clearExpired)
  note sm = stickyMatch_Some_iff[OF b2 b(2) key(2), of ?cands]
  have ain: "a \<in> fst ` set ?cands" using mem by force
  from how have cases: "(a = b_accountId b \<and> b_accountId b \<in> fst ` set ?cands \<and>
        currentIndex pX = currentIndex p0) \<or>
      (b_accountId b \<notin> fst ` set ?cands \<and>
       a = fst (?cands ! (currentIndex p0 mod length ?cands)) \<and>
       currentIndex pX = currentIndex p0 + 1)"
  proof
    assume s: "stickyMatch ?now ?sk ?cands ?p2 = Some (a, td) \<and> pX = ?p2"
    then have "a = b_accountId b" using sm(3) sk by simp
    moreover have "currentIndex pX = currentIndex p0" using s by (simp add: selection_pool_def)
    ultimately show ?thesis using ain by simp
  next
    assume rr: "stickyMatch ?now ?sk ?cands ?p2 = None \<and>
        ?cands ! (currentIndex p0 mod length ?cands) = (a, td) \<and>
        pX = ?p2\<lparr>currentIndex := currentIndex p0 + 1\<rparr>"
    then have "b_accountId b \<notin> fst ` set ?cands" using sm(2) sk by simp
    then show ?thesis using rr by simp
  qed
  show "acc_id acct = b_accountId b \<longleftrightarrow> b_accountId b \<in> fst ` set ?cands"
    using cases ain aid by metis
  show "acc_id acct \<noteq> b_accountId b \<Longrightarrow>
           acc_id acct = fst (?cands ! (currentIndex p0 mod length ?cands)) \<and>
           currentIndex p' = currentIndex p0 + 1"
    using cases aid ci by auto
  show "acc_id acct = b_accountId b \<Longrightarrow> currentIndex p' = currentIndex p0"
    using cases aid ci ain by auto
qed

lemmas ex_defs = ex_token_def ex_pool_def ex_env_def

section \<open>Selection always returns an account of a non-empty pool\<close>

text \<open>
  C3. \<open>getNextToken\<close> returns no account exactly when the token map is empty and the
  store gives no account with a token (or cannot be read). With a token map that is not
  empty it returns an account of the pool: when the exclusions remove every token, one
  of the full pool; otherwise, when every token that is not excluded is in cooldown, one
  of the tokens that are not excluded; otherwise one that is neither excluded nor in
  cooldown. Without a session key it is the token at the round-robin index of that list.
  After a reload the account is one of the store's accounts that have a token.
\<close>

theorem getNextToken_returns_account:
  fixes env :: tm_env and opts :: select_options and p0 :: pool
  defines "excluded \<equiv> (\<lambda>a. a \<in> set (opt_excludeAccountIds opts))"
    and "cooled \<equiv> (\<lambda>a. \<exists>u. cooldowns p0 a = Some u \<and> u \<noteq> 0 \<and> now_select env < u)"
  defines "remaining \<equiv> filter (\<lambda>x. \<not> excluded (fst x)) (tokens p0)"
    and "fresh \<equiv> filter (\<lambda>x. \<not> excluded (fst x) \<and> \<not> cooled (fst x)) (tokens p0)"
  shows
    "(fst (getNextToken env opts p0) = None \<longleftrightarrow>
        tokens p0 = [] \<and>
        (\<forall>accounts. getAccounts env = Some accounts \<longrightarrow>
           (\<forall>a \<in> set accounts. acc_token a = None))) \<and>
     (\<forall>accounts acct. tokens p0 = [] \<and> getAccounts env = Some accounts \<and>
        fst (getNextToken env opts p0) = Some acct \<longrightarrow>
        acc_id acct \<in> acc_id ` {a \<in> set accounts. acc_token a \<noteq> None}) \<and>
     (tokens p0 \<noteq> [] \<longrightarrow>
        (\<exists>acct p'. getNextToken env opts p0 = (Some acct, p') \<and>
           (remaining = [] \<longrightarrow>
              acc_id acct \<in> fst ` set (tokens p0) \<and>
              (opt_sessionKey opts = None \<longrightarrow>
                 acc_id acct = fst (tokens p0 ! (currentIndex p0 mod length (tokens p0))))) \<and>
           (remaining \<noteq> [] \<and> fresh = [] \<longrightarrow>
              acc_id acct \<in> fst ` set remaining \<and>
              (opt_sessionKey opts = None \<longrightarrow>
                 acc_id acct = fst (remaining ! (currentIndex p0 mod length remaining)))) \<and>
           (fresh \<noteq> [] \<longrightarrow>
              acc_id acct \<in> fst ` set fresh \<and>
              (opt_sessionKey opts = None \<longrightarrow>
                 acc_id acct = fst (fresh ! (currentIndex p0 mod length fresh))))))"
proof (intro conjI allI impI)
  show "fst (getNextToken env opts p0) = None \<longleftrightarrow>
        tokens p0 = [] \<and>
        (\<forall>accounts. getAccounts env = Some accounts \<longrightarrow>
           (\<forall>a \<in> set accounts. acc_token a = None))"
    by (simp only: getNextToken_None_iff reloaded_empty_iff)
next
  fix accounts acct
  assume a: "tokens p0 = [] \<and> getAccounts env = Some accounts \<and>
        fst (getNextToken env opts p0) = Some acct"
  then have ne: "tokens (reloaded env p0) \<noteq> []"
    using getNextToken_None_iff[of env opts p0] by auto
  from getNextToken_selects[OF ne, of opts]
  obtain acct' p' where s: "getNextToken env opts p0 = (Some acct', p')"
    and m: "acc_id acct' \<in> fst ` set (selection_candidates env opts p0)" by blast
  from s a have "acct' = acct" by simp
  with m have "acc_id acct \<in> fst ` set (selection_candidates env opts p0)" by simp
  then have "acc_id acct \<in> fst ` set (tokens (reloaded env p0))"
    using candidateTokens_subset
    by (fastforce simp: selection_candidates_def selection_pool_def)
  then show "acc_id acct \<in> acc_id ` {a \<in> set accounts. acc_token a \<noteq> None}"
    using reloaded_keys[of p0 env accounts] a by blast
next
  assume t: "tokens p0 \<noteq> []"
  then have ne: "tokens (reloaded env p0) \<noteq> []" by (simp add: reloaded_def)
  from getNextToken_selects[OF ne, of opts]
  obtain acct p' where sel: "getNextToken env opts p0 = (Some acct, p')"
    and mem: "acc_id acct \<in> fst ` set (selection_candidates env opts p0)" by blast
  have c: "selection_candidates env opts p0 =
      (if fresh \<noteq> [] then fresh else if remaining \<noteq> [] then remaining else tokens p0)"
    unfolding selection_candidates_explicit[OF t] fresh_def remaining_def excluded_def cooled_def
    by (simp add: Let_def)
  have rr: "opt_sessionKey opts = None \<Longrightarrow>
      acc_id acct = fst (selection_candidates env opts p0 !
            (currentIndex p0 mod length (selection_candidates env opts p0)))"
    using getNextToken_round_robin(1)[OF ne _ sel] by simp
  have fr: "remaining = [] \<Longrightarrow> fresh = []"
    by (auto simp: remaining_def fresh_def filter_empty_conv)
  have 1: "remaining = [] \<longrightarrow>
              acc_id acct \<in> fst ` set (tokens p0) \<and>
              (opt_sessionKey opts = None \<longrightarrow>
                 acc_id acct = fst (tokens p0 ! (currentIndex p0 mod length (tokens p0))))"
  proof
    assume r: "remaining = []"
    then have "selection_candidates env opts p0 = tokens p0" using c fr by simp
    then show "acc_id acct \<in> fst ` set (tokens p0) \<and>
              (opt_sessionKey opts = None \<longrightarrow>
                 acc_id acct = fst (tokens p0 ! (currentIndex p0 mod length (tokens p0))))"
      using mem rr by simp
  qed
  have 2: "remaining \<noteq> [] \<and> fresh = [] \<longrightarrow>
              acc_id acct \<in> fst ` set remaining \<and>
              (opt_sessionKey opts = None \<longrightarrow>
                 acc_id acct = fst (remaining ! (currentIndex p0 mod length remaining)))"
  proof
    assume r: "remaining \<noteq> [] \<and> fresh = []"
    then have "selection_candidates env opts p0 = remaining" using c by simp
    then show "acc_id acct \<in> fst ` set remaining \<and>
              (opt_sessionKey opts = None \<longrightarrow>
                 acc_id acct = fst (remaining ! (currentIndex p0 mod length remaining)))"
      using mem rr by simp
  qed
  have 3: "fresh \<noteq> [] \<longrightarrow>
              acc_id acct \<in> fst ` set fresh \<and>
              (opt_sessionKey opts = None \<longrightarrow>
                 acc_id acct = fst (fresh ! (currentIndex p0 mod length fresh)))"
  proof
    assume r: "fresh \<noteq> []"
    then have "selection_candidates env opts p0 = fresh" using c by simp
    then show "acc_id acct \<in> fst ` set fresh \<and>
              (opt_sessionKey opts = None \<longrightarrow>
                 acc_id acct = fst (fresh ! (currentIndex p0 mod length fresh)))"
      using mem rr by simp
  qed
  show "\<exists>acct p'. getNextToken env opts p0 = (Some acct, p') \<and>
           (remaining = [] \<longrightarrow>
              acc_id acct \<in> fst ` set (tokens p0) \<and>
              (opt_sessionKey opts = None \<longrightarrow>
                 acc_id acct = fst (tokens p0 ! (currentIndex p0 mod length (tokens p0))))) \<and>
           (remaining \<noteq> [] \<and> fresh = [] \<longrightarrow>
              acc_id acct \<in> fst ` set remaining \<and>
              (opt_sessionKey opts = None \<longrightarrow>
                 acc_id acct = fst (remaining ! (currentIndex p0 mod length remaining)))) \<and>
           (fresh \<noteq> [] \<longrightarrow>
              acc_id acct \<in> fst ` set fresh \<and>
              (opt_sessionKey opts = None \<longrightarrow>
                 acc_id acct = fst (fresh ! (currentIndex p0 mod length fresh))))"
    by (intro exI[of _ acct] exI[of _ p'] conjI sel 1 2 3)
qed

lemmas ex_c3_defs = ex_pool_def ex_pool_cooled_def ex_empty_pool_def ex_store_env_def ex_env_def
  ex_opts_plain_def ex_opts_excl_A_def ex_opts_all_excluded_def ex_token_def

theorem getNextToken_returns_account_witness:
  "map_option acc_id (fst (getNextToken ex_store_env ex_opts_plain ex_empty_pool)) = Some ''X'' \<and>
   map_option acc_id (fst (getNextToken (ex_env 1000000) ex_opts_all_excluded ex_pool)) = Some ''A'' \<and>
   map_option acc_id (fst (getNextToken (ex_env 1000000) ex_opts_excl_A ex_pool_cooled)) = Some ''B'' \<and>
   map_option acc_id (fst (getNextToken (ex_env 1000000) ex_opts_plain ex_pool_cooled)) = Some ''A''"
proof (intro conjI)
  note t = getNextToken_returns_account [of ex_store_env ex_opts_plain ex_empty_pool]
  from t have "fst (getNextToken ex_store_env ex_opts_plain ex_empty_pool) \<noteq> None"
    by (simp add: ex_c3_defs)
  then obtain acct where a: "fst (getNextToken ex_store_env ex_opts_plain ex_empty_pool) = Some acct"
    by blast
  have e: "tokens ex_empty_pool = []" by (simp add: ex_empty_pool_def)
  obtain accounts where g: "getAccounts ex_store_env = Some accounts"
    and l: "\<forall>x \<in> set accounts. acc_token x \<noteq> None \<longrightarrow> acc_id x = ''X''"
    by (simp add: ex_store_env_def ex_env_def)
  from t[THEN conjunct2, THEN conjunct1, rule_format, OF conjI[OF e conjI[OF g a]]] l
  have "acc_id acct = ''X''" by auto
  with a show "map_option acc_id (fst (getNextToken ex_store_env ex_opts_plain ex_empty_pool)) = Some ''X''"
    by simp
next
  note t = getNextToken_returns_account [of "ex_env 1000000" ex_opts_all_excluded ex_pool,
      THEN conjunct2, THEN conjunct2]
  have "tokens ex_pool \<noteq> []" by (simp add: ex_pool_def)
  from t[rule_format, OF this]
  have "\<exists>acct p'. getNextToken (ex_env 1000000) ex_opts_all_excluded ex_pool = (Some acct, p') \<and>
          acc_id acct = ''A''"
    by (simp add: ex_c3_defs; blast)
  then show "map_option acc_id (fst (getNextToken (ex_env 1000000) ex_opts_all_excluded ex_pool)) = Some ''A''"
    by auto
next
  note t = getNextToken_returns_account [of "ex_env 1000000" ex_opts_excl_A ex_pool_cooled,
      THEN conjunct2, THEN conjunct2]
  have "tokens ex_pool_cooled \<noteq> []" by (simp add: ex_pool_cooled_def)
  from t[rule_format, OF this]
  have "\<exists>acct p'. getNextToken (ex_env 1000000) ex_opts_excl_A ex_pool_cooled = (Some acct, p') \<and>
          acc_id acct = ''B''"
    by (simp add: ex_c3_defs; blast)
  then show "map_option acc_id (fst (getNextToken (ex_env 1000000) ex_opts_excl_A ex_pool_cooled)) = Some ''B''"
    by auto
next
  note t = getNextToken_returns_account [of "ex_env 1000000" ex_opts_plain ex_pool_cooled,
      THEN conjunct2, THEN conjunct2]
  have "tokens ex_pool_cooled \<noteq> []" by (simp add: ex_pool_cooled_def)
  from t[rule_format, OF this]
  have "\<exists>acct p'. getNextToken (ex_env 1000000) ex_opts_plain ex_pool_cooled = (Some acct, p') \<and>
          acc_id acct = ''A''"
    by (simp add: ex_c3_defs; blast)
  then show "map_option acc_id (fst (getNextToken (ex_env 1000000) ex_opts_plain ex_pool_cooled)) = Some ''A''"
    by auto
qed

section \<open>Session bindings\<close>

text \<open>
  C4. A selection made with a session key (not blank) writes the binding of the trimmed
  key to the selected account, expiring 10 minutes after the clock reading at
  finalization. When the pool already binds the key and the binding has not expired,
  the selection returns the bound account exactly when that account is in the candidate
  set: the tokens neither excluded nor in cooldown; if there are none, the tokens not
  excluded; if there are none either, the full pool. So a bound account in cooldown is
  not returned while some token is neither excluded nor in cooldown. When the bound
  account is not returned, or the binding has expired, the round-robin choice is
  returned and the index advances. Every selection that returns an account removes the
  expired bindings of the other keys and keeps their live bindings.
\<close>

theorem session_binding_semantics:
  fixes env :: tm_env and opts :: select_options and p0 :: pool
  defines "excluded \<equiv> (\<lambda>a. a \<in> set (opt_excludeAccountIds opts))"
    and "cooled \<equiv> (\<lambda>a. \<exists>u. cooldowns p0 a = Some u \<and> u \<noteq> 0 \<and> now_select env < u)"
  defines "remaining \<equiv> filter (\<lambda>x. \<not> excluded (fst x)) (tokens p0)"
    and "fresh \<equiv> filter (\<lambda>x. \<not> excluded (fst x) \<and> \<not> cooled (fst x)) (tokens p0)"
  defines "cands \<equiv> (if fresh \<noteq> [] then fresh else if remaining \<noteq> [] then remaining else tokens p0)"
  assumes sel: "getNextToken env opts p0 = (Some acct, p')"
  shows
    "(\<forall>sk. opt_sessionKey opts = Some sk \<and> trim sk \<noteq> [] \<longrightarrow>
        sessionBindings p' (trim sk) =
          Some \<lparr>b_accountId = acc_id acct, b_expiresAt = now_bind env + 10 * 60 * 1000\<rparr>) \<and>
     (\<forall>sk b. tokens p0 \<noteq> [] \<and> opt_sessionKey opts = Some sk \<and> trim sk \<noteq> [] \<and>
        sessionBindings p0 (trim sk) = Some b \<and> now_select env < b_expiresAt b \<longrightarrow>
        (acc_id acct = b_accountId b \<longleftrightarrow> b_accountId b \<in> fst ` set cands) \<and>
        (cooled (b_accountId b) \<and> fresh \<noteq> [] \<longrightarrow> acc_id acct \<noteq> b_accountId b) \<and>
        (acc_id acct = b_accountId b \<longrightarrow> currentIndex p' = currentIndex p0) \<and>
        (acc_id acct \<noteq> b_accountId b \<longrightarrow>
           acc_id acct = fst (cands ! (currentIndex p0 mod length cands)) \<and>
           currentIndex p' = currentIndex p0 + 1)) \<and>
     (\<forall>sk b. tokens p0 \<noteq> [] \<and> opt_sessionKey opts = Some sk \<and> trim sk \<noteq> [] \<and>
        sessionBindings p0 (trim sk) = Some b \<and> b_expiresAt b \<le> now_select env \<longrightarrow>
        acc_id acct = fst (cands ! (currentIndex p0 mod length cands)) \<and>
        currentIndex p' = currentIndex p0 + 1) \<and>
     (\<forall>k b. sessionBindings p0 k = Some b \<and> b_expiresAt b \<le> now_select env \<and>
        map_option trim (opt_sessionKey opts) \<noteq> Some k \<longrightarrow> sessionBindings p' k = None) \<and>
     (\<forall>k b. sessionBindings p0 k = Some b \<and> now_select env < b_expiresAt b \<and>
        map_option trim (opt_sessionKey opts) \<noteq> Some k \<longrightarrow> sessionBindings p' k = Some b)"
proof -
  have c: "tokens p0 \<noteq> [] \<Longrightarrow> selection_candidates env opts p0 = cands"
    unfolding cands_def fresh_def remaining_def excluded_def cooled_def
    by (simp add: selection_candidates_explicit Let_def)
  have A: "\<forall>sk. opt_sessionKey opts = Some sk \<and> trim sk \<noteq> [] \<longrightarrow>
        sessionBindings p' (trim sk) =
          Some \<lparr>b_accountId = acc_id acct, b_expiresAt = now_bind env + 10 * 60 * 1000\<rparr>"
    by (simp add: bindings_after_selection[OF sel])
  have B: "\<forall>sk b. tokens p0 \<noteq> [] \<and> opt_sessionKey opts = Some sk \<and> trim sk \<noteq> [] \<and>
        sessionBindings p0 (trim sk) = Some b \<and> now_select env < b_expiresAt b \<longrightarrow>
        (acc_id acct = b_accountId b \<longleftrightarrow> b_accountId b \<in> fst ` set cands) \<and>
        (cooled (b_accountId b) \<and> fresh \<noteq> [] \<longrightarrow> acc_id acct \<noteq> b_accountId b) \<and>
        (acc_id acct = b_accountId b \<longrightarrow> currentIndex p' = currentIndex p0) \<and>
        (acc_id acct \<noteq> b_accountId b \<longrightarrow>
           acc_id acct = fst (cands ! (currentIndex p0 mod length cands)) \<and>
           currentIndex p' = currentIndex p0 + 1)"
  proof (intro allI impI)
    fix sk b
    assume h: "tokens p0 \<noteq> [] \<and> opt_sessionKey opts = Some sk \<and> trim sk \<noteq> [] \<and>
        sessionBindings p0 (trim sk) = Some b \<and> now_select env < b_expiresAt b"
    then have k: "opt_sessionKey opts = Some sk" "trim sk \<noteq> []"
      and b: "sessionBindings p0 (trim sk) = Some b" "now_select env < b_expiresAt b"
      and t: "tokens p0 \<noteq> []" by simp_all
    note w = selection_with_binding[OF sel k b, unfolded c[OF t]]
    have cool: "cooled (b_accountId b) \<and> fresh \<noteq> [] \<longrightarrow> acc_id acct \<noteq> b_accountId b"
    proof
      assume x: "cooled (b_accountId b) \<and> fresh \<noteq> []"
      then have "cands = fresh" by (simp add: cands_def)
      moreover have "b_accountId b \<notin> fst ` set fresh" using x by (auto simp: fresh_def)
      ultimately show "acc_id acct \<noteq> b_accountId b" using w(1) by simp
    qed
    show "(acc_id acct = b_accountId b \<longleftrightarrow> b_accountId b \<in> fst ` set cands) \<and>
        (cooled (b_accountId b) \<and> fresh \<noteq> [] \<longrightarrow> acc_id acct \<noteq> b_accountId b) \<and>
        (acc_id acct = b_accountId b \<longrightarrow> currentIndex p' = currentIndex p0) \<and>
        (acc_id acct \<noteq> b_accountId b \<longrightarrow>
           acc_id acct = fst (cands ! (currentIndex p0 mod length cands)) \<and>
           currentIndex p' = currentIndex p0 + 1)"
      using w cool by (intro conjI impI) simp_all
  qed
  have C: "\<forall>sk b. tokens p0 \<noteq> [] \<and> opt_sessionKey opts = Some sk \<and> trim sk \<noteq> [] \<and>
        sessionBindings p0 (trim sk) = Some b \<and> b_expiresAt b \<le> now_select env \<longrightarrow>
        acc_id acct = fst (cands ! (currentIndex p0 mod length cands)) \<and>
        currentIndex p' = currentIndex p0 + 1"
  proof (intro allI impI)
    fix sk b
    assume h: "tokens p0 \<noteq> [] \<and> opt_sessionKey opts = Some sk \<and> trim sk \<noteq> [] \<and>
        sessionBindings p0 (trim sk) = Some b \<and> b_expiresAt b \<le> now_select env"
    then have k: "opt_sessionKey opts = Some sk" "trim sk \<noteq> []"
      and b: "sessionBindings p0 (trim sk) = Some b \<and> b_expiresAt b \<le> now_select env"
      and t: "tokens p0 \<noteq> []" by simp_all
    from session_binding_parts(4)[OF sel k, rule_format, OF b]
    show "acc_id acct = fst (cands ! (currentIndex p0 mod length cands)) \<and>
        currentIndex p' = currentIndex p0 + 1"
      by (simp only: c[OF t])
  qed
  have D: "\<forall>k b. sessionBindings p0 k = Some b \<and> b_expiresAt b \<le> now_select env \<and>
        map_option trim (opt_sessionKey opts) \<noteq> Some k \<longrightarrow> sessionBindings p' k = None"
    by (auto simp: bindings_after_selection[OF sel])
  have E: "\<forall>k b. sessionBindings p0 k = Some b \<and> now_select env < b_expiresAt b \<and>
        map_option trim (opt_sessionKey opts) \<noteq> Some k \<longrightarrow> sessionBindings p' k = Some b"
    by (auto simp: bindings_after_selection[OF sel])
  show ?thesis by (intro conjI A B C D E)
qed

lemma ex_sessions [simp]:
  "tokens ex_pool_sessions = [(''A'', ex_token ''A'' None), (''B'', ex_token ''B'' None)]"
  "tokens ex_pool_sessions_cooled = [(''A'', ex_token ''A'' None), (''B'', ex_token ''B'' None)]"
  "tokens ex_pool_sessions_all_cooled = [(''A'', ex_token ''A'' None), (''B'', ex_token ''B'' None)]"
  "currentIndex ex_pool_sessions = 0"
  "currentIndex ex_pool_sessions_cooled = 0"
  "currentIndex ex_pool_sessions_all_cooled = 0"
  "cooldowns ex_pool_sessions = Map.empty"
  "cooldowns ex_pool_sessions_cooled = [''B'' \<mapsto> 1200000]"
  "cooldowns ex_pool_sessions_all_cooled = [''A'' \<mapsto> 1200000, ''B'' \<mapsto> 1300000]"
  "sessionBindings ex_pool_sessions_cooled = sessionBindings ex_pool_sessions"
  "sessionBindings ex_pool_sessions_all_cooled = sessionBindings ex_pool_sessions"
  "sessionBindings ex_pool_sessions ''s1'' = Some \<lparr>b_accountId = ''B'', b_expiresAt = 1500000\<rparr>"
  "sessionBindings ex_pool_sessions ''s0'' = Some \<lparr>b_accountId = ''B'', b_expiresAt = 900000\<rparr>"
  "sessionBindings ex_pool_sessions ''s2'' = Some \<lparr>b_accountId = ''A'', b_expiresAt = 1400000\<rparr>"
  "opt_sessionKey (ex_opts_key k) = Some k"
  "opt_excludeAccountIds (ex_opts_key k) = []"
  "now_select (ex_env n) = n"
  "now_bind (ex_env n) = n + 1"
  by (simp_all add: ex_pool_sessions_def ex_pool_sessions_cooled_def
      ex_pool_sessions_all_cooled_def ex_opts_key_def ex_env_def)

lemma ex_trim: "trim '' s1 '' = ''s1''" "trim ''s0'' = ''s0''"
  by code_simp+

theorem session_binding_semantics_witness:
  "acc_id (the (fst (getNextToken (ex_env 1000000) (ex_opts_key '' s1 '') ex_pool_sessions))) = ''B'' \<and>
   sessionBindings (snd (getNextToken (ex_env 1000000) (ex_opts_key '' s1 '') ex_pool_sessions)) ''s1'' =
     Some \<lparr>b_accountId = ''B'', b_expiresAt = 1600001\<rparr> \<and>
   sessionBindings (snd (getNextToken (ex_env 1000000) (ex_opts_key '' s1 '') ex_pool_sessions)) ''s0'' =
     None \<and>
   sessionBindings (snd (getNextToken (ex_env 1000000) (ex_opts_key '' s1 '') ex_pool_sessions)) ''s2'' =
     Some \<lparr>b_accountId = ''A'', b_expiresAt = 1400000\<rparr> \<and>
   currentIndex (snd (getNextToken (ex_env 1000000) (ex_opts_key '' s1 '') ex_pool_sessions)) = 0 \<and>
   acc_id (the (fst (getNextToken (ex_env 1000000) (ex_opts_key ''s0'') ex_pool_sessions))) = ''A'' \<and>
   currentIndex (snd (getNextToken (ex_env 1000000) (ex_opts_key ''s0'') ex_pool_sessions)) = 1 \<and>
   acc_id (the (fst (getNextToken (ex_env 1000000) (ex_opts_key '' s1 '') ex_pool_sessions_cooled))) =
     ''A'' \<and>
   acc_id (the (fst (getNextToken (ex_env 1000000) (ex_opts_key '' s1 '')
                       ex_pool_sessions_all_cooled))) = ''B'' \<and>
   sessionBindings (snd (getNextToken (ex_env 1000000) ex_opts_plain ex_pool_sessions)) ''s0'' =
     None \<and>
   sessionBindings (snd (getNextToken (ex_env 1000000) ex_opts_plain ex_pool_sessions)) ''s1'' =
     Some \<lparr>b_accountId = ''B'', b_expiresAt = 1500000\<rparr>"
proof -
  let ?b1 = "\<lparr>b_accountId = ''B'', b_expiresAt = 1500000\<rparr>"
  let ?b0 = "\<lparr>b_accountId = ''B'', b_expiresAt = 900000\<rparr>"
  let ?b2 = "\<lparr>b_accountId = ''A'', b_expiresAt = 1400000\<rparr>"
  let ?X1 = "getNextToken (ex_env 1000000) (ex_opts_key '' s1 '') ex_pool_sessions"
  have g1: "?X1 = (Some (the (fst ?X1)), snd ?X1)" by (rule selection_pair) simp
  note t1 = session_binding_semantics [OF g1]
  from t1[THEN conjunct1, rule_format, of "'' s1 ''"]
  have 1: "sessionBindings (snd ?X1) ''s1'' = Some \<lparr>b_accountId = acc_id (the (fst ?X1)), b_expiresAt = 1600001\<rparr>"
    by (simp add: ex_trim)
  from t1[THEN conjunct2, THEN conjunct1, rule_format, of "'' s1 ''" ?b1]
  have 2: "acc_id (the (fst ?X1)) = ''B'' \<and> currentIndex (snd ?X1) = 0"
    by (simp add: ex_trim)
  from t1[THEN conjunct2, THEN conjunct2, THEN conjunct2, THEN conjunct1, rule_format, of "''s0''" ?b0]
  have 3: "sessionBindings (snd ?X1) ''s0'' = None"
    by (simp add: ex_trim)
  from t1[THEN conjunct2, THEN conjunct2, THEN conjunct2, THEN conjunct2, rule_format, of "''s2''" ?b2]
  have 4: "sessionBindings (snd ?X1) ''s2'' = Some ?b2"
    by (simp add: ex_trim)
  let ?X2 = "getNextToken (ex_env 1000000) (ex_opts_key ''s0'') ex_pool_sessions"
  have g2: "?X2 = (Some (the (fst ?X2)), snd ?X2)" by (rule selection_pair) simp
  note t2 = session_binding_semantics [OF g2]
  from t2[THEN conjunct2, THEN conjunct2, THEN conjunct1, rule_format, of "''s0''" ?b0]
  have 5: "acc_id (the (fst ?X2)) = ''A'' \<and> currentIndex (snd ?X2) = 1"
    by (simp add: ex_trim)
  let ?X3 = "getNextToken (ex_env 1000000) (ex_opts_key '' s1 '') ex_pool_sessions_cooled"
  have g3: "?X3 = (Some (the (fst ?X3)), snd ?X3)" by (rule selection_pair) simp
  note t3 = session_binding_semantics [OF g3]
  from t3[THEN conjunct2, THEN conjunct1, rule_format, of "'' s1 ''" ?b1]
  have 6: "acc_id (the (fst ?X3)) = ''A''"
    by (simp add: ex_trim)
  let ?X4 = "getNextToken (ex_env 1000000) (ex_opts_key '' s1 '') ex_pool_sessions_all_cooled"
  have g4: "?X4 = (Some (the (fst ?X4)), snd ?X4)" by (rule selection_pair) simp
  note t4 = session_binding_semantics [OF g4]
  from t4[THEN conjunct2, THEN conjunct1, rule_format, of "'' s1 ''" ?b1]
  have 7: "acc_id (the (fst ?X4)) = ''B''"
    by (simp add: ex_trim)
  let ?X5 = "getNextToken (ex_env 1000000) ex_opts_plain ex_pool_sessions"
  have g5: "?X5 = (Some (the (fst ?X5)), snd ?X5)" by (rule selection_pair) simp
  note t5 = session_binding_semantics [OF g5]
  from t5[THEN conjunct2, THEN conjunct2, THEN conjunct2, THEN conjunct1, rule_format, of "''s0''" ?b0]
  have 8: "sessionBindings (snd ?X5) ''s0'' = None"
    by (simp add: ex_opts_plain_def)
  from t5[THEN conjunct2, THEN conjunct2, THEN conjunct2, THEN conjunct2, rule_format, of "''s1''" ?b1]
  have 9: "sessionBindings (snd ?X5) ''s1'' = Some ?b1"
    by (simp add: ex_opts_plain_def)
  show ?thesis using 1 2 3 4 5 6 7 8 9 by simp
qed

section \<open>Endpoint failover\<close>

lemma shouldSwitch_transient: "shouldSwitchEndpointOnError e = transient_failure e"
  by (cases e rule: shouldSwitchEndpointOnError.cases) (auto simp: transient_failure_def)

lemma failover_Cons_cases:
  obtains (ok) r where "post i (b @ path) = Inr r"
      "failover_from post path i (b # bs) = (Inr r, [b @ path])"
  | (stop) e where "post i (b @ path) = Inl e" "bs = [] \<or> \<not> shouldSwitchEndpointOnError e"
      "failover_from post path i (b # bs) = (Inl (handleAxiosError e), [b @ path])"
  | (advance) e where "post i (b @ path) = Inl e" "bs \<noteq> []" "shouldSwitchEndpointOnError e"
      "failover_from post path i (b # bs) =
         (fst (failover_from post path (Suc i) bs),
          (b @ path) # snd (failover_from post path (Suc i) bs))"
proof (cases "post i (b @ path)")
  case (Inr r)
  then show ?thesis using ok by (simp add: Let_def)
next
  case (Inl e)
  show ?thesis
  proof (cases "bs = [] \<or> \<not> shouldSwitchEndpointOnError e")
    case True
    then show ?thesis using Inl stop[of e] by (auto simp: Let_def)
  next
    case False
    then show ?thesis using Inl advance[of e] by (simp add: Let_def split: prod.splits)
  qed
qed

lemma failover_tried_nonempty: "bs \<noteq> [] \<Longrightarrow> snd (failover_from post path i bs) \<noteq> []"
proof (cases bs)
  case Nil
  then show "bs \<noteq> [] \<Longrightarrow> ?thesis" by simp
next
  case (Cons b bs')
  show ?thesis unfolding Cons
    by (cases rule: failover_Cons_cases[where post=post and i=i and b=b and path=path and bs=bs']) simp_all
qed

lemma failover_tried_prefix:
  "snd (failover_from post path i bs) =
     map (\<lambda>b. b @ path) (take (length (snd (failover_from post path i bs))) bs)"
proof (induction bs arbitrary: i)
  case Nil
  then show ?case by simp
next
  case (Cons b bs)
  show ?case
  proof (cases rule: failover_Cons_cases[where post=post and i=i and b=b and path=path and bs=bs])
    case (advance e)
    then show ?thesis using Cons.IH[of "Suc i"] by simp
  qed simp_all
qed

lemma failover_tried_length: "length (snd (failover_from post path i bs)) \<le> length bs"
proof (induction bs arbitrary: i)
  case Nil
  then show ?case by simp
next
  case (Cons b bs)
  show ?case
  proof (cases rule: failover_Cons_cases[where post=post and i=i and b=b and path=path and bs=bs])
    case (advance e)
    then show ?thesis using Cons.IH[of "Suc i"] by simp
  qed simp_all
qed

lemma failover_advance:
  "Suc k < length (snd (failover_from post path i bs)) \<Longrightarrow>
   \<exists>e. post (i + k) (snd (failover_from post path i bs) ! k) = Inl e \<and>
       shouldSwitchEndpointOnError e"
proof (induction bs arbitrary: i k)
  case Nil
  then show ?case by simp
next
  case (Cons b bs)
  show ?case
  proof (cases rule: failover_Cons_cases[where post=post and i=i and b=b and path=path and bs=bs])
    case (ok r)
    with Cons.prems show ?thesis by simp
  next
    case (stop e)
    with Cons.prems show ?thesis by simp
  next
    case (advance e)
    show ?thesis
    proof (cases k)
      case 0
      then show ?thesis using advance by simp
    next
      case (Suc k')
      with Cons.prems advance have "Suc k' < length (snd (failover_from post path (Suc i) bs))"
        by simp
      from Cons.IH[OF this] show ?thesis using advance Suc by simp
    qed
  qed
qed

lemma failover_continue:
  "k < length (snd (failover_from post path i bs)) \<Longrightarrow> Suc k < length bs \<Longrightarrow>
   post (i + k) (snd (failover_from post path i bs) ! k) = Inl e \<Longrightarrow>
   shouldSwitchEndpointOnError e \<Longrightarrow>
   Suc k < length (snd (failover_from post path i bs))"
proof (induction bs arbitrary: i k)
  case Nil
  then show ?case by simp
next
  case (Cons b bs)
  show ?case
  proof (cases rule: failover_Cons_cases[where post=post and i=i and b=b and path=path and bs=bs])
    case (ok r)
    with Cons.prems show ?thesis by simp
  next
    case (stop e0)
    with Cons.prems show ?thesis by auto
  next
    case (advance e0)
    show ?thesis
    proof (cases k)
      case 0
      then show ?thesis using advance failover_tried_nonempty[of bs post path "Suc i"]
        by (cases "snd (failover_from post path (Suc i) bs)") auto
    next
      case (Suc k')
      with Cons.prems advance have "Suc k' < length (snd (failover_from post path (Suc i) bs))"
        using Cons.IH[of k' "Suc i"] by simp
      then show ?thesis using advance Suc by simp
    qed
  qed
qed

lemma failover_result:
  "bs \<noteq> [] \<Longrightarrow>
   (case post (i + (length (snd (failover_from post path i bs)) - 1))
           (last (snd (failover_from post path i bs))) of
      Inr r \<Rightarrow> fst (failover_from post path i bs) = Inr r
    | Inl e \<Rightarrow> fst (failover_from post path i bs) = Inl (handleAxiosError e))"
proof (induction bs arbitrary: i)
  case Nil
  then show ?case by simp
next
  case (Cons b bs)
  show ?case
  proof (cases rule: failover_Cons_cases[where post=post and i=i and b=b and path=path and bs=bs])
    case (ok r)
    then show ?thesis by simp
  next
    case (stop e)
    then show ?thesis by simp
  next
    case (advance e)
    let ?t = "snd (failover_from post path (Suc i) bs)"
    have tne: "?t \<noteq> []" using advance(2) by (rule failover_tried_nonempty)
    then have ix: "i + (length ((b @ path) # ?t) - 1) = Suc i + (length ?t - 1)"
      by (cases ?t) auto
    have la: "last ((b @ path) # ?t) = last ?t" using tne by simp
    show ?thesis
      unfolding advance(4) snd_conv fst_conv ix la
      using Cons.IH[OF advance(2), of "Suc i"] .
  qed
qed

lemma handleAxiosError_message:
  "handleAxiosError (AxiosError response m) =
     (case response_error_message response of
        Some um \<Rightarrow> if trim um \<noteq> [] then um else m
      | None \<Rightarrow> m)"
proof (cases response)
  case None
  then show ?thesis by (simp add: response_error_message_def extractAxiosErrorMessage_def)
next
  case (Some sd)
  obtain status d where sd: "sd = (status, d)" by (cases sd) auto
  show ?thesis
  proof (cases d)
    case (JObj kvs)
    show ?thesis
    proof (cases "js_get d ''error''")
      case (JObj kvs')
      then show ?thesis using Some sd \<open>d = JObj kvs\<close>
        by (auto simp: response_error_message_def extractAxiosErrorMessage_def Let_def
            split: jsval.splits option.splits)
    qed (use Some sd \<open>d = JObj kvs\<close> in
        \<open>auto simp: response_error_message_def extractAxiosErrorMessage_def Let_def
            split: jsval.splits option.splits\<close>)
  qed (use Some sd in
      \<open>auto simp: response_error_message_def extractAxiosErrorMessage_def Let_def\<close>)
qed

lemma getInternalBaseUrls_nonempty: "getInternalBaseUrls fromEnv \<noteq> []"
  by (auto simp: getInternalBaseUrls_def Let_def defaultInternalBaseUrls_def)


text \<open>
  C6, as amended. The client requests the configured base URLs in order, and goes on to
  the next endpoint only after a transient failure (an axios error with no response, or
  with status 408, 429 or at least 500), and always then when an endpoint is left; it
  never goes on after 401 or 403. The result is the response of the last endpoint
  requested, or an error whose message is the upstream response's \<open>error.message\<close>
  when that member is a string that is not blank, and the message of the request error
  otherwise.
\<close>

theorem endpoint_failover:
  fixes post :: "nat \<Rightarrow> string \<Rightarrow> request_error + 'a"
  shows
  "(let baseUrls = getInternalBaseUrls fromEnv;
        res = fst (requestWithEndpointFailover post fromEnv path);
        tried = snd (requestWithEndpointFailover post fromEnv path)
    in tried \<noteq> [] \<and>
       tried = map (\<lambda>b. b @ path) (take (length tried) baseUrls) \<and>
       (\<forall>k. Suc k < length tried \<longrightarrow>
          (\<exists>e. post k (tried ! k) = Inl e \<and> transient_failure e)) \<and>
       (\<forall>k e. k < length tried \<and> Suc k < length baseUrls \<and> post k (tried ! k) = Inl e \<and>
              transient_failure e \<longrightarrow> Suc k < length tried) \<and>
       (\<forall>k status d m. k < length tried \<and>
              post k (tried ! k) = Inl (AxiosError (Some (status, d)) m) \<and>
              (status = 401 \<or> status = 403) \<longrightarrow> Suc k = length tried) \<and>
       (case post (length tried - 1) (last tried) of
          Inr r \<Rightarrow> res = Inr r
        | Inl (AxiosError response m) \<Rightarrow>
            res = Inl (case response_error_message response of
                         Some um \<Rightarrow> if trim um \<noteq> [] then um else m
                       | None \<Rightarrow> m)
        | Inl (OtherError m) \<Rightarrow> res = Inl m))"
proof -
  let ?bs = "getInternalBaseUrls fromEnv"
  let ?F = "failover_from post path 0 ?bs"
  let ?tried = "snd ?F"
  have ne: "?bs \<noteq> []" by (rule getInternalBaseUrls_nonempty)
  have 1: "?tried \<noteq> []" using ne by (rule failover_tried_nonempty)
  have 2: "?tried = map (\<lambda>b. b @ path) (take (length ?tried) ?bs)"
    by (rule failover_tried_prefix)
  have 3: "\<forall>k. Suc k < length ?tried \<longrightarrow>
          (\<exists>e. post k (?tried ! k) = Inl e \<and> transient_failure e)"
    using failover_advance[where post=post and path=path and i=0 and bs="?bs"] by (simp add: shouldSwitch_transient)
  have 4: "\<forall>k e. k < length ?tried \<and> Suc k < length ?bs \<and> post k (?tried ! k) = Inl e \<and>
              transient_failure e \<longrightarrow> Suc k < length ?tried"
    using failover_continue[where post=post and path=path and i=0 and bs="?bs"] by (simp add: shouldSwitch_transient)
  have 5: "\<forall>k status d m. k < length ?tried \<and>
              post k (?tried ! k) = Inl (AxiosError (Some (status, d)) m) \<and>
              (status = 401 \<or> status = 403) \<longrightarrow> Suc k = length ?tried"
  proof (intro allI impI)
    fix k status d m
    assume a: "k < length ?tried \<and>
              post k (?tried ! k) = Inl (AxiosError (Some (status, d)) m) \<and>
              (status = 401 \<or> status = 403)"
    show "Suc k = length ?tried"
    proof (rule ccontr)
      assume "Suc k \<noteq> length ?tried"
      with a have "Suc k < length ?tried" by simp
      from failover_advance[OF this] a show False by auto
    qed
  qed
  have 6: "(case post (length ?tried - 1) (last ?tried) of
          Inr r \<Rightarrow> fst ?F = Inr r
        | Inl (AxiosError response m) \<Rightarrow>
            fst ?F = Inl (case response_error_message response of
                         Some um \<Rightarrow> if trim um \<noteq> [] then um else m
                       | None \<Rightarrow> m)
        | Inl (OtherError m) \<Rightarrow> fst ?F = Inl m)"
    using failover_result[OF ne, where post=post and i=0 and path=path]
    by (auto simp: handleAxiosError_message simp del: handleAxiosError.simps(1)
        split: sum.splits request_error.splits)
  show ?thesis
    unfolding Let_def requestWithEndpointFailover_def
    using 1 2 3 4 5 6 by (intro conjI)
qed

lemma ex_failover:
  "requestWithEndpointFailover ex_post (Some ''http://one/, http://two ,http://three'') '':generateContent'' =
     (Inl ''PERMISSION_DENIED'', [''http://one:generateContent'', ''http://two:generateContent''])"
  by code_simp

theorem endpoint_failover_witness:
  "snd (requestWithEndpointFailover ex_post (Some ''http://one/, http://two ,http://three'')
          '':generateContent'') =
     [''http://one:generateContent'', ''http://two:generateContent''] \<and>
   transient_failure (AxiosError None ''socket hang up'') \<and>
   fst (requestWithEndpointFailover ex_post (Some ''http://one/, http://two ,http://three'')
          '':generateContent'') = Inl ''PERMISSION_DENIED''"
  using endpoint_failover [where post=ex_post and fromEnv="Some ''http://one/, http://two ,http://three''"
      and path="'':generateContent''"]
    ex_failover
  by (simp add: transient_failure_def)

text \<open>
  The claim as it is worded fails for a blank message: the member is a string that is
  not empty, and the error thrown carries the message of the request error.
\<close>

theorem blank_upstream_message_counterexample:
  "response_error_message
     (Some (500, JObj [(''error'', JObj [(''message'', JStr '' '')])])) = Some '' '' \<and>
   '' '' \<noteq> [] \<and>
   fst (requestWithEndpointFailover ex_post_blank None '':generateContent'') =
     Inl ''Request failed with status code 500''"
  by code_simp

section \<open>The classification follows the taxonomy in priority order\<close>

text \<open>
  C2, as amended. \<open>classifyUpstreamError\<close> decides in priority order, on the message
  in lower case: a message with one of the forbidden keywords yields retry and mark
  forbidden; otherwise a message with 429, resource_exhausted, quota or rate_limit
  yields retry and mark rate limited; otherwise a message with 408, 500, 502, 503, 504,
  socket hang up, timeout, empty response stream or connection reset yields retry, and
  the account is marked rate limited exactly when the message also has "rate limit"
  (with a space), and is not marked otherwise.
\<close>

theorem classifyUpstreamError_taxonomy:
  "(includes_any (toLowerCase m) forbidden_keywords \<longrightarrow>
      classifyUpstreamError m =
        \<lparr>retry = True, markAsForbidden = True, markAsRateLimited = False\<rparr>) \<and>
   (\<not> includes_any (toLowerCase m) forbidden_keywords \<and>
    includes_any (toLowerCase m) rate_limit_keywords \<longrightarrow>
      classifyUpstreamError m =
        \<lparr>retry = True, markAsForbidden = False, markAsRateLimited = True\<rparr>) \<and>
   (\<not> includes_any (toLowerCase m) forbidden_keywords \<and>
    \<not> includes_any (toLowerCase m) rate_limit_keywords \<and>
    includes_any (toLowerCase m) transient_keywords \<longrightarrow>
      classifyUpstreamError m =
        \<lparr>retry = True, markAsForbidden = False,
         markAsRateLimited = str_includes (toLowerCase m) ''rate limit''\<rparr>)"
  using classify_forbidden classify_rate_limited classify_transient by blast

lemma ex_tax1: "includes_any (toLowerCase ''403 Forbidden'') forbidden_keywords"
  by code_simp

lemma ex_tax2:
  "\<not> includes_any (toLowerCase ''429 Quota exceeded'') forbidden_keywords \<and>
   includes_any (toLowerCase ''429 Quota exceeded'') rate_limit_keywords"
  by code_simp

lemma ex_tax3:
  "\<not> includes_any (toLowerCase ''Socket hang up'') forbidden_keywords \<and>
   \<not> includes_any (toLowerCase ''Socket hang up'') rate_limit_keywords \<and>
   includes_any (toLowerCase ''Socket hang up'') transient_keywords \<and>
   \<not> str_includes (toLowerCase ''Socket hang up'') ''rate limit''"
  by code_simp

theorem classifyUpstreamError_taxonomy_witness:
  "classifyUpstreamError ''403 Forbidden'' =
     \<lparr>retry = True, markAsForbidden = True, markAsRateLimited = False\<rparr> \<and>
   classifyUpstreamError ''429 Quota exceeded'' =
     \<lparr>retry = True, markAsForbidden = False, markAsRateLimited = True\<rparr> \<and>
   classifyUpstreamError ''Socket hang up'' =
     \<lparr>retry = True, markAsForbidden = False, markAsRateLimited = False\<rparr>"
  using classifyUpstreamError_taxonomy [of "''403 Forbidden''"]
    classifyUpstreamError_taxonomy [of "''429 Quota exceeded''"]
    classifyUpstreamError_taxonomy [of "''Socket hang up''"]
    ex_tax1 ex_tax2 ex_tax3
  by simp

text \<open>
  The claim as it is worded fails at "500 rate limit": the message has a transient
  keyword and none of the forbidden or rate-limit keywords of the taxonomy, and the
  account is marked rate limited.
\<close>

theorem transient_marked_rate_limited_counterexample:
  "includes_any (toLowerCase ''500 rate limit'') transient_keywords \<and>
   \<not> includes_any (toLowerCase ''500 rate limit'') forbidden_keywords \<and>
   \<not> includes_any (toLowerCase ''500 rate limit'') rate_limit_keywords \<and>
   classifyUpstreamError ''500 rate limit'' =
     \<lparr>retry = True, markAsForbidden = False, markAsRateLimited = True\<rparr>"
  by code_simp

section \<open>The OpenAI event stream\<close>

lemma inv_subscriber_next: "sse_inv st \<Longrightarrow> sse_inv (subscriber_next s st)"
  by (auto simp: sse_inv_def subscriber_next_def split: if_splits)

lemma inv_subscriber_complete: "sse_inv st \<Longrightarrow> sse_inv (subscriber_complete st)"
  by (auto simp: sse_inv_def subscriber_complete_def split: if_splits)

lemma inv_pushChunk: "sse_inv st \<Longrightarrow> sse_inv (pushChunk payload st)"
  by (auto simp: sse_inv_def pushChunk_def subscriber_next_def split: if_splits)

lemma inv_uuids: "sse_inv st \<Longrightarrow> sse_inv (st\<lparr>ss_uuids := n\<rparr>)"
  by (auto simp: sse_inv_def)

lemma inv_buffer: "sse_inv st \<Longrightarrow> sse_inv (st\<lparr>ss_buffer := b\<rparr>)"
  by (auto simp: sse_inv_def)

lemma inv_done: "sse_inv st \<Longrightarrow> ss_out st \<noteq> [] \<Longrightarrow> sse_inv (st\<lparr>ss_hasSentDone := True\<rparr>)"
  by (auto simp: sse_inv_def)

lemma out_pushChunk_nonempty: "sse_inv st \<Longrightarrow> ss_out (pushChunk payload st) \<noteq> []"
  by (auto simp: sse_inv_def pushChunk_def subscriber_next_def split: if_splits)

lemma out_subscriber_next_mono: "ss_out st \<noteq> [] \<Longrightarrow> ss_out (subscriber_next s st) \<noteq> []"
  by (auto simp: subscriber_next_def)

lemma inv_process_part: "sse_inv st \<Longrightarrow> sse_inv (fst (process_part env model st part))"
  by (auto simp: process_part_def Let_def intro!: inv_pushChunk inv_uuids)

lemma inv_process_parts: "sse_inv st \<Longrightarrow> sse_inv (fst (process_parts env model st parts))"
proof (induction parts arbitrary: st)
  case Nil
  then show ?case by simp
next
  case (Cons part parts)
  obtain st1 ok where p: "process_part env model st part = (st1, ok)"
    by (cases "process_part env model st part") auto
  then have "sse_inv st1" using inv_process_part[OF Cons.prems, of env model part] by simp
  then show ?case using p Cons.IH[of st1] by simp
qed

lemma inv_process_frame: "sse_inv st \<Longrightarrow> sse_inv (process_frame env model st json)"
proof -
  assume i: "sse_inv st"
  { fix ps st1 ok finish
    assume "process_parts env model st ps = (st1, ok)"
    then have i1: "sse_inv st1" using inv_process_parts[OF i, of env model ps] by simp
    let ?c = "completion_chunk (''chatcmpl-'' @ se_uuid env 0) (se_now env div 1000) model
                (JObj []) finish"
    have "sse_inv (subscriber_complete
            ((subscriber_next done_frame (pushChunk ?c st1))\<lparr>ss_hasSentDone := True\<rparr>))"
      by (intro inv_subscriber_complete inv_done inv_subscriber_next inv_pushChunk i1
          out_subscriber_next_mono out_pushChunk_nonempty)
    note i1 this }
  then show ?thesis using i
    by (auto simp: process_frame_def Let_def split: option.splits prod.splits)
qed

lemma inv_process_line: "sse_inv st \<Longrightarrow> sse_inv (process_line env model st line)"
  by (auto simp: process_line_def inv_process_frame split: option.splits)

lemma inv_foldl_lines: "sse_inv st \<Longrightarrow> sse_inv (foldl (process_line env model) st lines)"
  by (induction lines arbitrary: st) (auto simp: inv_process_line)

lemma inv_on_data: "sse_inv st \<Longrightarrow> sse_inv (on_data env model st chunk)"
  by (auto simp: on_data_def inv_foldl_lines inv_buffer split: prod.splits)

lemma inv_after_data: "sse_inv (after_data env model chunks)"
proof -
  have "sse_inv st \<Longrightarrow> sse_inv (foldl (on_data env model) st chunks)" for st
    by (induction chunks arbitrary: st) (auto simp: inv_on_data)
  moreover have "sse_inv sse_init" by (simp add: sse_inv_def sse_init_def)
  ultimately show ?thesis by (simp add: after_data_def)
qed

lemma silent_stream_output:
  assumes "ss_out (after_data env model chunks) = []"
  shows "processStreamResponse env (UpstreamStream chunks StreamEnd) model =
           [Next (sse_frame (empty_content_chunk env model)), Next done_frame, Complete]"
proof -
  let ?st = "after_data env model chunks"
  have "\<not> ss_hasEmittedChunk ?st \<and> \<not> ss_hasSentDone ?st \<and> \<not> ss_closed ?st"
    using inv_after_data[of env model chunks] assms by (simp add: sse_inv_def)
  then show ?thesis using assms
    by (simp add: on_end_def Let_def pushChunk_def subscriber_next_def subscriber_complete_def)
qed

lemma scenario_stringify: "stringify scenario_frame = scenario_text"
  by code_simp

lemma scenario_lines:
  "take_lines [] scenario_chunk = ([scenario_line, []], [])"
  by code_simp

lemma scenario_payload: "data_payload scenario_line = Some scenario_text"
  by code_simp

lemma blank_payload: "data_payload [] = None"
  by code_simp

lemma scenario_arguments:
  \<open>stringify (JObj [(''q'', JStr ''x'')]) = ''{"q":"x"}''\<close>
  by code_simp

lemma scenario_finish:
  "mapGeminiFinishReasonToOpenAIFinishReason (JStr ''STOP'') = Some (JStr ''stop'')"
  by code_simp

lemma scenario_process_frame:
  \<open>ss_out (process_frame env model sse_init scenario_frame) =
     (let chunk = completion_chunk (''chatcmpl-'' @ se_uuid env 0) (se_now env div 1000) model
      in [Next (sse_frame (chunk (JObj [(''reasoning_content'', JStr ''reasoning'')]) JNull)),
          Next (sse_frame (chunk
            (JObj [(''tool_calls'',
                    JArr [JObj [(''index'', JNum 0),
                                (''id'', JStr ''fc1''),
                                (''type'', JStr ''function''),
                                (''function'',
                                 JObj [(''name'', JStr ''search''),
                                       (''arguments'', JStr ''{"q":"x"}'')])]])])
            JNull)),
          Next (sse_frame (chunk (JObj [(''content'', JStr ''answer'')]) JNull)),
          Next (sse_frame (chunk (JObj []) (JStr ''stop''))),
          Next done_frame,
          Complete])\<close>
  \<open>ss_hasEmittedChunk (process_frame env model sse_init scenario_frame)\<close>
  \<open>ss_hasSentDone (process_frame env model sse_init scenario_frame)\<close>
  \<open>ss_closed (process_frame env model sse_init scenario_frame)\<close>
  by (simp_all add: process_frame_def scenario_frame_def opt_get_def js_or_def process_part_def
      Let_def pushChunk_def subscriber_next_def subscriber_complete_def sse_init_def
      scenario_arguments scenario_finish
      del: stringify.simps)

lemma sse_init_buffer: "sse_init\<lparr>ss_buffer := []\<rparr> = sse_init" "ss_buffer sse_init = []"
  by (simp_all add: sse_init_def)

lemma scenario_after_data:
  assumes "se_parse env scenario_text = Some scenario_frame"
  shows "after_data env model [scenario_chunk] = process_frame env model sse_init scenario_frame"
  using assms
  by (simp add: after_data_def on_data_def scenario_lines sse_init_buffer process_line_def
      scenario_payload blank_payload)

lemma on_end_closed:
  "ss_hasEmittedChunk st \<Longrightarrow> ss_hasSentDone st \<Longrightarrow> ss_closed st \<Longrightarrow> on_end env model st = st"
  by (simp add: on_end_def subscriber_complete_def)

text \<open>
  C9. When the upstream delivers the single frame of the scenario (thought part,
  function call, text part, finish reason STOP) and then ends, the subscriber receives,
  in order, five frames and completion. Four frames are \<open>data: \<close>, the JSON text of a
  \<open>chat.completion.chunk\<close> object with the stream id, the creation time, the model and
  one choice of index 0, and two line feeds: the first with delta
  \<open>{reasoning_content: "reasoning"}\<close>; the second with a delta whose \<open>tool_calls[0]\<close>
  has id "fc1", function name "search" and arguments \<open>{"q":"x"}\<close>; the third with delta
  \<open>{content: "answer"}\<close>, all three with finish reason null; the fourth with empty delta
  and finish reason "stop". The fifth is \<open>data: [DONE]\<close> and two line feeds. When the
  data events of a stream have emitted nothing by its end, the subscriber receives one
  chunk with delta \<open>{content: ""}\<close> and finish reason null, one \<open>[DONE]\<close> frame, and
  completion.
\<close>

theorem openai_stream_shape:
  fixes env :: sse_env and model :: string
  defines "chunk \<equiv> (\<lambda>delta finish.
      ''data: '' @
      stringify (JObj [(''id'', JStr (''chatcmpl-'' @ se_uuid env 0)),
                       (''object'', JStr ''chat.completion.chunk''),
                       (''created'', JNum (se_now env div 1000)),
                       (''model'', JStr model),
                       (''choices'',
                        JArr [JObj [(''index'', JNum 0), (''delta'', delta),
                                    (''finish_reason'', finish)]])]) @
      [CHR 0x0A, CHR 0x0A])"
  shows
  \<open>(se_parse env scenario_text = Some scenario_frame \<longrightarrow>
      processStreamResponse env
        (UpstreamStream [''data: '' @ scenario_text @ [CHR 0x0A, CHR 0x0A]] StreamEnd) model =
        [Next (chunk (JObj [(''reasoning_content'', JStr ''reasoning'')]) JNull),
         Next (chunk
            (JObj [(''tool_calls'',
                    JArr [JObj [(''index'', JNum 0),
                                (''id'', JStr ''fc1''),
                                (''type'', JStr ''function''),
                                (''function'',
                                 JObj [(''name'', JStr ''search''),
                                       (''arguments'', JStr ''{"q":"x"}'')])]])])
            JNull),
         Next (chunk (JObj [(''content'', JStr ''answer'')]) JNull),
         Next (chunk (JObj []) (JStr ''stop'')),
         Next (''data: [DONE]'' @ [CHR 0x0A, CHR 0x0A]),
         Complete]) \<and>
   (\<forall>chunks. ss_out (after_data env model chunks) = [] \<longrightarrow>
      processStreamResponse env (UpstreamStream chunks StreamEnd) model =
        [Next (chunk (JObj [(''content'', JStr [])]) JNull),
         Next (''data: [DONE]'' @ [CHR 0x0A, CHR 0x0A]),
         Complete])\<close>
proof (intro conjI impI allI)
  have ch: "chunk delta finish =
      sse_frame (completion_chunk (''chatcmpl-'' @ se_uuid env 0) (se_now env div 1000) model
                   delta finish)" for delta finish
    by (simp add: chunk_def sse_frame_def completion_chunk_def del: stringify.simps)
  have sc: "''data: '' @ scenario_text @ [CHR 0x0A, CHR 0x0A] = scenario_chunk"
    by (simp add: scenario_chunk_def scenario_line_def)
  {
    assume p: "se_parse env scenario_text = Some scenario_frame"
    let ?st = "process_frame env model sse_init scenario_frame"
    have "processStreamResponse env (UpstreamStream [scenario_chunk] StreamEnd) model =
        ss_out (on_end env model ?st)"
      by (simp add: scenario_after_data[OF p])
    also have "on_end env model ?st = ?st"
      by (intro on_end_closed scenario_process_frame)
    finally have "processStreamResponse env (UpstreamStream [scenario_chunk] StreamEnd) model =
        ss_out ?st" .
    then show \<open>processStreamResponse env
        (UpstreamStream [''data: '' @ scenario_text @ [CHR 0x0A, CHR 0x0A]] StreamEnd) model =
        [Next (chunk (JObj [(''reasoning_content'', JStr ''reasoning'')]) JNull),
         Next (chunk
            (JObj [(''tool_calls'',
                    JArr [JObj [(''index'', JNum 0),
                                (''id'', JStr ''fc1''),
                                (''type'', JStr ''function''),
                                (''function'',
                                 JObj [(''name'', JStr ''search''),
                                       (''arguments'', JStr ''{"q":"x"}'')])]])])
            JNull),
         Next (chunk (JObj [(''content'', JStr ''answer'')]) JNull),
         Next (chunk (JObj []) (JStr ''stop'')),
         Next (''data: [DONE]'' @ [CHR 0x0A, CHR 0x0A]),
         Complete]\<close>
      unfolding sc ch scenario_process_frame(1) Let_def done_frame_def by simp
  }
  {
    fix chunks
    assume "ss_out (after_data env model chunks) = []"
    from silent_stream_output[OF this]
    show "processStreamResponse env (UpstreamStream chunks StreamEnd) model =
        [Next (chunk (JObj [(''content'', JStr [])]) JNull),
         Next (''data: [DONE]'' @ [CHR 0x0A, CHR 0x0A]),
         Complete]"
      unfolding ch empty_content_chunk_def done_frame_def by simp
  }
qed

lemma ex_sse1: "se_parse ex_sse_env scenario_text = Some scenario_frame"
  by (simp add: ex_sse_env_def)

lemma ex_sse2: "ss_out (after_data ex_sse_env ''gpt-4o'' [keep_alive_chunk, []]) = []"
  by code_simp

lemma ex_sse3: "se_uuid ex_sse_env 0 = ''u''" "se_now ex_sse_env div 1000 = 1700000000"
  by (simp_all add: ex_sse_env_def)

lemmas stringify_eval = quote_def quote_char_def number_to_string_def is_infinite_def
  digit_char_def

theorem openai_stream_shape_witness:
  \<open>processStreamResponse ex_sse_env
     (UpstreamStream [''data: '' @ scenario_text @ [CHR 0x0A, CHR 0x0A]] StreamEnd) ''gpt-4o'' =
     [Next (''data: {"id":"chatcmpl-u","object":"chat.completion.chunk","created":1700000000,'' @
            ''"model":"gpt-4o","choices":[{"index":0,"delta":{"reasoning_content":"reasoning"},'' @
            ''"finish_reason":null}]}'' @ [CHR 0x0A, CHR 0x0A]),
      Next (''data: {"id":"chatcmpl-u","object":"chat.completion.chunk","created":1700000000,'' @
            ''"model":"gpt-4o","choices":[{"index":0,"delta":{"tool_calls":[{"index":0,'' @
            ''"id":"fc1","type":"function","function":{"name":"search","arguments":"{'' @
            [CHR 0x5C] @ ''"q'' @ [CHR 0x5C] @ ''":'' @ [CHR 0x5C] @ ''"x'' @ [CHR 0x5C] @
            ''"}"}}]},"finish_reason":null}]}'' @ [CHR 0x0A, CHR 0x0A]),
      Next (''data: {"id":"chatcmpl-u","object":"chat.completion.chunk","created":1700000000,'' @
            ''"model":"gpt-4o","choices":[{"index":0,"delta":{"content":"answer"},'' @
            ''"finish_reason":null}]}'' @ [CHR 0x0A, CHR 0x0A]),
      Next (''data: {"id":"chatcmpl-u","object":"chat.completion.chunk","created":1700000000,'' @
            ''"model":"gpt-4o","choices":[{"index":0,"delta":{},"finish_reason":"stop"}]}'' @
            [CHR 0x0A, CHR 0x0A]),
      Next (''data: [DONE]'' @ [CHR 0x0A, CHR 0x0A]),
      Complete] \<and>
   processStreamResponse ex_sse_env (UpstreamStream [keep_alive_chunk, []] StreamEnd) ''gpt-4o'' =
     [Next (''data: {"id":"chatcmpl-u","object":"chat.completion.chunk","created":1700000000,'' @
            ''"model":"gpt-4o","choices":[{"index":0,"delta":{"content":""},'' @
            ''"finish_reason":null}]}'' @ [CHR 0x0A, CHR 0x0A]),
      Next (''data: [DONE]'' @ [CHR 0x0A, CHR 0x0A]),
      Complete]\<close>
proof -
  note t = openai_stream_shape [of ex_sse_env "''gpt-4o''"]
  note a = t[THEN conjunct1, rule_format, OF ex_sse1, unfolded ex_sse3]
  note b = t[THEN conjunct2, rule_format, OF ex_sse2, unfolded ex_sse3]
  show ?thesis
    unfolding a b by (simp add: stringify_eval)
qed

section \<open>The stream fallback of an empty unary response\<close>

lemma split_on_nonempty [simp]: "split_on sep s \<noteq> []"
  by (induction s) (auto split: list.splits)

lemma split_on_append:
  "split_on sep (xs @ ys) =
     butlast (split_on sep xs) @ split_on sep (last (split_on sep xs) @ ys)"
proof (induction xs)
  case Nil
  then show ?case by simp
next
  case (Cons x xs)
  show ?case
  proof (cases "x = sep")
    case True
    then show ?thesis using Cons.IH by simp
  next
    case False
    obtain l ls where s: "split_on sep xs = l # ls"
      by (cases "split_on sep xs") auto
    show ?thesis
    proof (cases ls)
      case Nil
      then show ?thesis using False s Cons.IH by (simp split: list.splits)
    next
      case (Cons l' ls')
      then show ?thesis using False s Cons.IH by (simp split: list.splits)
    qed
  qed
qed

lemma last_split_on_append:
  "last (split_on sep (xs @ ys)) = last (split_on sep (last (split_on sep xs) @ ys))"
  by (subst split_on_append) simp

lemma take_lines_append:
  "take_lines (last (split_on CHR 0x0A xs)) chunk =
     (drop (length (butlast (split_on CHR 0x0A xs))) (butlast (split_on CHR 0x0A (xs @ chunk))),
      last (split_on CHR 0x0A (xs @ chunk)))"
  by (simp add: take_lines_def Let_def split_on_append[of "CHR 0x0A" xs chunk] butlast_append)

lemma lines_append:
  "butlast (split_on CHR 0x0A (xs @ chunk)) =
     butlast (split_on CHR 0x0A xs) @ fst (take_lines (last (split_on CHR 0x0A xs)) chunk)"
  by (simp add: take_lines_def Let_def split_on_append[of "CHR 0x0A" xs chunk] butlast_append)

text \<open>The part of the collecting state that the frames change.\<close>

lemma collect_line_fields:
  "cs_buffer (collect_line parse st line) = cs_buffer st"
  "cs_receivedData (collect_line parse st line) = cs_receivedData st"
  by (auto simp: collect_line_def collect_frame_def Let_def split: option.splits jsval.splits)

lemma collect_line_update:
  "collect_line parse (st\<lparr>cs_receivedData := r, cs_buffer := b\<rparr>) line =
     (collect_line parse st line)\<lparr>cs_receivedData := r, cs_buffer := b\<rparr>"
  by (auto simp: collect_line_def collect_frame_def Let_def split: option.splits jsval.splits)

lemma foldl_collect_line_update:
  "foldl (collect_line parse) (st\<lparr>cs_receivedData := r, cs_buffer := b\<rparr>) lines =
     (foldl (collect_line parse) st lines)\<lparr>cs_receivedData := r, cs_buffer := b\<rparr>"
  by (induction lines arbitrary: st) (simp_all add: collect_line_update)

lemma foldl_collect_line_fields:
  "cs_buffer (foldl (collect_line parse) st lines) = cs_buffer st"
  "cs_receivedData (foldl (collect_line parse) st lines) = cs_receivedData st"
  by (induction lines arbitrary: st) (simp_all add: collect_line_fields)

lemma stream_frames_alt:
  "stream_frames parse chunks =
     List.map_filter (frame_of parse) (butlast (split_on CHR 0x0A (concat chunks)))"
  by (simp add: stream_frames_def frame_of_def[abs_def])

lemma collect_frame_fields:
  "cs_mergedParts (collect_frame f st) = cs_mergedParts st @ frame_parts f"
  "cs_finishReason (collect_frame f st) =
     (if truthy (opt_get (frame_candidate f) ''finishReason'')
      then opt_get (frame_candidate f) ''finishReason'' else cs_finishReason st)"
  "cs_usageMetadata (collect_frame f st) =
     (if truthy (opt_get f ''usageMetadata'') then opt_get f ''usageMetadata''
      else cs_usageMetadata st)"
proof -
  let ?c = "opt_index0 (opt_get f ''candidates'')"
  let ?p = "opt_get (opt_get ?c ''content'') ''parts''"
  show "cs_mergedParts (collect_frame f st) = cs_mergedParts st @ frame_parts f"
    by (cases ?p) (simp_all add: collect_frame_def frame_parts_def frame_candidate_def Let_def
        isGeminiPart_def[abs_def])
  show "cs_finishReason (collect_frame f st) =
     (if truthy (opt_get (frame_candidate f) ''finishReason'')
      then opt_get (frame_candidate f) ''finishReason'' else cs_finishReason st)"
    by (cases ?p) (simp_all add: collect_frame_def frame_candidate_def Let_def)
  show "cs_usageMetadata (collect_frame f st) =
     (if truthy (opt_get f ''usageMetadata'') then opt_get f ''usageMetadata''
      else cs_usageMetadata st)"
    by (cases ?p) (simp_all add: collect_frame_def frame_candidate_def Let_def)
qed

lemma collect_line_alt:
  "collect_line parse st line =
     (case frame_of parse line of None \<Rightarrow> st | Some f \<Rightarrow> collect_frame f st)"
  by (simp add: collect_line_def frame_of_def split: option.splits)

lemma keep_last_Nil [simp]: "keep_last init [] = init"
  by (simp add: keep_last_def)

lemma keep_last_Cons:
  "keep_last init (v # vs) = keep_last (if truthy v then v else init) vs"
  by (cases "filter truthy vs") (auto simp: keep_last_def)

lemma keep_last_append: "keep_last init (xs @ ys) = keep_last (keep_last init xs) ys"
  by (induction xs arbitrary: init) (simp_all add: keep_last_Cons)

lemma last_truthy_keep: "last_truthy vs = keep_last JUndefined vs"
  by (simp add: last_truthy_def keep_last_def)

lemma map_filter_Cons:
  "List.map_filter g (x # xs) =
     (case g x of None \<Rightarrow> List.map_filter g xs | Some y \<Rightarrow> y # List.map_filter g xs)"
  by (simp add: List.map_filter_def split: option.splits)

lemma foldl_collect_line_content:
  "cs_mergedParts (foldl (collect_line parse) st lines) =
     cs_mergedParts st @ concat (map frame_parts (List.map_filter (frame_of parse) lines)) \<and>
   cs_finishReason (foldl (collect_line parse) st lines) =
     keep_last (cs_finishReason st)
       (map (\<lambda>f. opt_get (frame_candidate f) ''finishReason'')
          (List.map_filter (frame_of parse) lines)) \<and>
   cs_usageMetadata (foldl (collect_line parse) st lines) =
     keep_last (cs_usageMetadata st)
       (map (\<lambda>f. opt_get f ''usageMetadata'') (List.map_filter (frame_of parse) lines))"
proof (induction lines arbitrary: st)
  case Nil
  then show ?case by (simp add: List.map_filter_def)
next
  case (Cons line lines)
  show ?case
  proof (cases "frame_of parse line")
    case None
    then show ?thesis using Cons.IH[of st] by (simp add: collect_line_alt map_filter_Cons)
  next
    case (Some f)
    then show ?thesis using Cons.IH[of "collect_frame f st"]
      by (simp add: collect_line_alt map_filter_Cons collect_frame_fields keep_last_Cons)
  qed
qed

lemma map_filter_append:
  "List.map_filter g (xs @ ys) = List.map_filter g xs @ List.map_filter g ys"
  by (simp add: List.map_filter_def)

lemma collect_chunks_invariant:
  "cs_buffer (foldl (collect_chunk parse) collect_init chunks) =
     last (split_on CHR 0x0A (concat chunks)) \<and>
   cs_receivedData (foldl (collect_chunk parse) collect_init chunks) = (chunks \<noteq> []) \<and>
   cs_mergedParts (foldl (collect_chunk parse) collect_init chunks) =
     concat (map frame_parts (stream_frames parse chunks)) \<and>
   cs_finishReason (foldl (collect_chunk parse) collect_init chunks) =
     keep_last JUndefined
       (map (\<lambda>f. opt_get (frame_candidate f) ''finishReason'') (stream_frames parse chunks)) \<and>
   cs_usageMetadata (foldl (collect_chunk parse) collect_init chunks) =
     keep_last JUndefined
       (map (\<lambda>f. opt_get f ''usageMetadata'') (stream_frames parse chunks))"
proof (induction chunks rule: rev_induct)
  case Nil
  then show ?case by (simp add: collect_init_def stream_frames_alt List.map_filter_def)
next
  case (snoc chunk chunks)
  let ?st = "foldl (collect_chunk parse) collect_init chunks"
  let ?X = "concat chunks"
  let ?L = "fst (take_lines (last (split_on CHR 0x0A ?X)) chunk)"
  have buf: "cs_buffer ?st = last (split_on CHR 0x0A ?X)" using snoc.IH by simp
  have tl: "take_lines (cs_buffer ?st) chunk = (?L, last (split_on CHR 0x0A (?X @ chunk)))"
    unfolding buf
    by (simp add: take_lines_def Let_def last_split_on_append[of "CHR 0x0A" ?X chunk])
  have step: "foldl (collect_chunk parse) collect_init (chunks @ [chunk]) =
      (foldl (collect_line parse) ?st ?L)
        \<lparr>cs_receivedData := True, cs_buffer := last (split_on CHR 0x0A (?X @ chunk))\<rparr>"
    by (simp add: collect_chunk_def tl foldl_collect_line_update)
  have fr: "stream_frames parse (chunks @ [chunk]) =
      stream_frames parse chunks @ List.map_filter (frame_of parse) ?L"
    by (simp add: stream_frames_alt lines_append map_filter_append)
  note c = foldl_collect_line_content[of parse ?st ?L]
  show ?case
    unfolding step fr
    using c snoc.IH by (simp add: keep_last_append)
qed

lemma collect_stream_result:
  "collectGeminiStreamAsResponse parse (UpstreamStream chunks StreamEnd) =
     (if chunks = [] then Inl ''Empty response stream''
      else Inr (JObj [(''candidates'',
                       JArr [JObj [(''content'',
                                    JObj [(''role'', JStr ''model''),
                                          (''parts'',
                                           JArr (concat (map frame_parts
                                                           (stream_frames parse chunks))))]),
                                   (''finishReason'',
                                    last_truthy
                                      (map (\<lambda>f. opt_get (frame_candidate f) ''finishReason'')
                                         (stream_frames parse chunks)))]]),
                      (''usageMetadata'',
                       last_truthy (map (\<lambda>f. opt_get f ''usageMetadata'')
                                      (stream_frames parse chunks)))]))"
  using collect_chunks_invariant[of parse chunks]
  by (simp add: synthesized_response_def last_truthy_keep)

lemma hasUsableGeminiCandidate_iff:
  "hasUsableGeminiCandidate r \<longleftrightarrow>
     (\<exists>c cs p ps. opt_get r ''candidates'' = JArr (c # cs) \<and>
                  opt_get (opt_get c ''content'') ''parts'' = JArr (p # ps))"
proof (cases "opt_get r ''candidates''")
  case (JArr xs)
  show ?thesis
  proof (cases xs)
    case Nil
    then show ?thesis using JArr by (simp add: hasUsableGeminiCandidate_def)
  next
    case (Cons c cs)
    show ?thesis
    proof (cases "opt_get (opt_get c ''content'') ''parts''")
      case (JArr ps)
      then show ?thesis using \<open>opt_get r ''candidates'' = JArr xs\<close> Cons
        by (cases ps) (simp_all add: hasUsableGeminiCandidate_def)
    qed (use \<open>opt_get r ''candidates'' = JArr xs\<close> Cons in
        \<open>simp_all add: hasUsableGeminiCandidate_def\<close>)
  qed
qed (simp_all add: hasUsableGeminiCandidate_def)

text \<open>
  C7. When the unary call returns a response with no usable candidate (no \<open>candidates\<close>
  array, an empty one, or a first candidate without a non-empty \<open>content.parts\<close>
  array), the orchestrator makes exactly one more call, a streaming call with the same
  body, token and headers. When that call is refused its error is the result. When the
  stream ends without a data event the result is the error "Empty response stream";
  when it ends after data, the result is a response with one candidate of role
  "model" whose parts are all the parts (records) of the stream's frames in order,
  whose finish reason is the last one a frame gave, with the last usage metadata a
  frame gave; when the stream fails, its error is the result.
\<close>

theorem empty_unary_falls_back_to_stream:
  assumes "oe_generateInternal env (length (os_calls st)) (token_call False body t hdrs) =
             Inr direct"
    and "\<not> hasUsableGeminiCandidate direct"
  shows
    "os_calls (snd (generateInternalWithStreamFallback env body t hdrs st)) =
       os_calls st @ [token_call False body t hdrs, token_call True body t hdrs] \<and>
     fst (generateInternalWithStreamFallback env body t hdrs st) =
       (case oe_streamGenerateInternal env (Suc (length (os_calls st)))
               (token_call True body t hdrs) of
          Inl e \<Rightarrow> Inl e
        | Inr (UpstreamStream chunks ending) \<Rightarrow>
            (case ending of
               StreamError e \<Rightarrow> Inl e
             | StreamEnd \<Rightarrow>
                 if chunks = [] then Inl ''Empty response stream''
                 else Inr (JObj [(''candidates'',
                       JArr [JObj [(''content'',
                                    JObj [(''role'', JStr ''model''),
                                          (''parts'',
                                           JArr (concat (map frame_parts
                                                   (stream_frames (oe_parse env) chunks))))]),
                                   (''finishReason'',
                                    last_truthy
                                      (map (\<lambda>f. opt_get (frame_candidate f) ''finishReason'')
                                         (stream_frames (oe_parse env) chunks)))]]),
                      (''usageMetadata'',
                       last_truthy (map (\<lambda>f. opt_get f ''usageMetadata'')
                                      (stream_frames (oe_parse env) chunks)))]))) \<and>
     (hasUsableGeminiCandidate direct \<longleftrightarrow>
        (\<exists>c cs p ps. opt_get direct ''candidates'' = JArr (c # cs) \<and>
                     opt_get (opt_get c ''content'') ''parts'' = JArr (p # ps)))"
proof -
  let ?s = "oe_streamGenerateInternal env (Suc (length (os_calls st))) (token_call True body t hdrs)"
  have calls: "os_calls (snd (generateInternalWithStreamFallback env body t hdrs st)) =
       os_calls st @ [token_call False body t hdrs, token_call True body t hdrs]"
    using assms
    by (auto simp: generateInternalWithStreamFallback_def call_generateInternal_def
        call_streamGenerateInternal_def Let_def split: sum.splits)
  have res: "fst (generateInternalWithStreamFallback env body t hdrs st) =
      (case ?s of Inl e \<Rightarrow> Inl e
       | Inr stream \<Rightarrow> collectGeminiStreamAsResponse (oe_parse env) stream)"
    using assms
    by (auto simp: generateInternalWithStreamFallback_def call_generateInternal_def
        call_streamGenerateInternal_def Let_def split: sum.splits)
  have col: "collectGeminiStreamAsResponse parse (UpstreamStream chunks ending) =
      (case ending of
         StreamError e \<Rightarrow> Inl e
       | StreamEnd \<Rightarrow> collectGeminiStreamAsResponse parse (UpstreamStream chunks StreamEnd))"
    for parse chunks ending
    by (cases ending) simp_all
  have "fst (generateInternalWithStreamFallback env body t hdrs st) =
       (case ?s of
          Inl e \<Rightarrow> Inl e
        | Inr (UpstreamStream chunks ending) \<Rightarrow>
            (case ending of
               StreamError e \<Rightarrow> Inl e
             | StreamEnd \<Rightarrow>
                 collectGeminiStreamAsResponse (oe_parse env) (UpstreamStream chunks StreamEnd)))"
    unfolding res
    by (auto split: sum.splits upstream_stream.splits stream_end.splits)
  then show ?thesis
    using calls hasUsableGeminiCandidate_iff[of direct]
    by (simp only: collect_stream_result)
qed

lemma ex_fb1:
  "oe_generateInternal ex_fallback_env (length (os_calls (ex_state ex_pool)))
     (token_call False ex_body ex_cloud_token []) = Inr (JObj [(''candidates'', JArr [])])"
  by (simp add: ex_fallback_env_def ex_orch_env_def)

lemma ex_fb2: "\<not> hasUsableGeminiCandidate (JObj [(''candidates'', JArr [])])"
  by code_simp

lemma ex_fb3:
  "oe_streamGenerateInternal ex_fallback_env (Suc (length (os_calls (ex_state ex_pool))))
     (token_call True ex_body ex_cloud_token []) = Inr hello_stream"
  by (simp add: ex_fallback_env_def ex_orch_env_def)

lemma ex_fb4:
  "stream_frames (oe_parse ex_fallback_env) [hello_chunk] = [hello_frame]"
  by code_simp

lemma ex_fb5:
  "frame_parts hello_frame = [JObj [(''text'', JStr ''hello world'')]]"
  "last_truthy [opt_get (frame_candidate hello_frame) ''finishReason''] = JStr ''STOP''"
  "last_truthy [opt_get hello_frame ''usageMetadata''] = JObj [(''totalTokenCount'', JNum 5)]"
  by code_simp+

theorem empty_unary_falls_back_to_stream_witness:
  "fst (generateInternalWithStreamFallback ex_fallback_env ex_body ex_cloud_token []
          (ex_state ex_pool)) =
     Inr (JObj [(''candidates'',
                 JArr [JObj [(''content'',
                              JObj [(''role'', JStr ''model''),
                                    (''parts'', JArr [JObj [(''text'', JStr ''hello world'')]])]),
                             (''finishReason'', JStr ''STOP'')]]),
                (''usageMetadata'', JObj [(''totalTokenCount'', JNum 5)])]) \<and>
   map uc_stream (os_calls (snd (generateInternalWithStreamFallback ex_fallback_env ex_body
          ex_cloud_token [] (ex_state ex_pool)))) = [False, True]"
proof -
  note t = empty_unary_falls_back_to_stream [OF ex_fb1 ex_fb2]
  from t have "fst (generateInternalWithStreamFallback ex_fallback_env ex_body ex_cloud_token []
          (ex_state ex_pool)) =
     Inr (JObj [(''candidates'',
                 JArr [JObj [(''content'',
                              JObj [(''role'', JStr ''model''),
                                    (''parts'', JArr [JObj [(''text'', JStr ''hello world'')]])]),
                             (''finishReason'', JStr ''STOP'')]]),
                (''usageMetadata'', JObj [(''totalTokenCount'', JNum 5)])])"
    unfolding ex_fb3 hello_stream_def by (simp add: ex_fb4 ex_fb5)
  moreover from t have "map uc_stream (os_calls (snd (generateInternalWithStreamFallback
      ex_fallback_env ex_body ex_cloud_token [] (ex_state ex_pool)))) = [False, True]"
    by (simp add: ex_state_def token_call_def)
  ultimately show ?thesis by blast
qed

section \<open>The calls of an attempt\<close>

lemma extends_calls_refl: "extends_calls P st st"
  by (simp add: extends_calls_def made_calls_def)

lemma extends_calls_trans:
  assumes "extends_calls P st st1" "extends_calls P st1 st2"
  shows "extends_calls P st st2"
proof -
  from assms obtain a b where a: "os_calls st1 = os_calls st @ a" "list_all P a"
    and b: "os_calls st2 = os_calls st1 @ b" "list_all P b"
    unfolding extends_calls_def by blast
  then have "os_calls st2 = os_calls st @ (a @ b)" "list_all P (a @ b)" by simp_all
  then have "made_calls st st2 = a @ b" by (simp add: made_calls_def)
  then show ?thesis using assms a b by (simp add: extends_calls_def)
qed

lemma extends_calls_append:
  "os_calls st' = os_calls st @ cs \<Longrightarrow> list_all P cs \<Longrightarrow> os_pool st' = os_pool st \<Longrightarrow>
   os_selections st' = os_selections st \<Longrightarrow> extends_calls P st st'"
  by (simp add: extends_calls_def made_calls_def)

lemma extends_call_generateInternal:
  "P (token_call False body t hdrs) \<Longrightarrow>
   extends_calls P st (snd (call_generateInternal env body t hdrs st))"
  by (rule extends_calls_append[where cs="[token_call False body t hdrs]"])
     (simp_all add: call_generateInternal_def Let_def)

lemma extends_call_streamGenerateInternal:
  "P (token_call True body t hdrs) \<Longrightarrow>
   extends_calls P st (snd (call_streamGenerateInternal env body t hdrs st))"
  by (rule extends_calls_append[where cs="[token_call True body t hdrs]"])
     (simp_all add: call_streamGenerateInternal_def Let_def)

lemma extends_generateInternalWithStreamFallback:
  assumes "P (token_call False body t hdrs)" "P (token_call True body t hdrs)"
  shows "extends_calls P st (snd (generateInternalWithStreamFallback env body t hdrs st))"
proof -
  obtain r st1 where c1: "call_generateInternal env body t hdrs st = (r, st1)"
    by (cases "call_generateInternal env body t hdrs st") auto
  then have e1: "extends_calls P st st1"
    using extends_call_generateInternal[where P=P and body=body and t=t and hdrs=hdrs and st=st and env=env] assms(1) by simp
  obtain r2 st2 where c2: "call_streamGenerateInternal env body t hdrs st1 = (r2, st2)"
    by (cases "call_streamGenerateInternal env body t hdrs st1") auto
  then have e2: "extends_calls P st st2"
    using extends_call_streamGenerateInternal[where P=P and body=body and t=t and hdrs=hdrs and st=st1 and env=env] assms(2) e1
    by (auto intro: extends_calls_trans)
  show ?thesis using c1 c2 e1 e2
    by (auto simp: generateInternalWithStreamFallback_def split: sum.splits)
qed

lemma call_of_token_call: "call_of body t hdrs (token_call s body t hdrs)"
  by (simp add: call_of_def token_call_def)

lemma extends_anthropic_send:
  "extends_calls (call_of body t hdrs) st (snd (anthropic_send env request body t hdrs st))"
proof -
  note a = extends_call_streamGenerateInternal[where P="call_of body t hdrs" and body=body and t=t and hdrs=hdrs and st=st and env=env,
      OF call_of_token_call]
  note b = extends_generateInternalWithStreamFallback[where P="call_of body t hdrs" and body=body and t=t and hdrs=hdrs and st=st and env=env,
      OF call_of_token_call call_of_token_call]
  show ?thesis using a b
    by (auto simp: anthropic_send_def split: sum.splits prod.splits)
qed

lemma extends_gemini_send:
  "extends_calls (call_of body t hdrs) st (snd (gemini_send env body t hdrs st))"
  using extends_generateInternalWithStreamFallback[where P="call_of body t hdrs" and body=body and t=t and hdrs=hdrs and st=st and env=env,
      OF call_of_token_call call_of_token_call]
  by (auto simp: gemini_send_def split: sum.splits prod.splits)

lemma extends_gemini_stream_send:
  "extends_calls (call_of body t hdrs) st (snd (gemini_stream_send env body t hdrs st))"
  using extends_call_streamGenerateInternal[where P="call_of body t hdrs" and body=body and t=t and hdrs=hdrs and st=st and env=env,
      OF call_of_token_call]
  by (auto simp: gemini_stream_send_def split: sum.splits prod.splits)

lemma extends_openai_unary:
  "extends_calls (call_of body t hdrs) st (snd (openai_unary env request body t hdrs st))"
  using extends_generateInternalWithStreamFallback[where P="call_of body t hdrs" and body=body and t=t and hdrs=hdrs and st=st and env=env,
      OF call_of_token_call call_of_token_call]
  by (auto simp: openai_unary_def split: sum.splits prod.splits)

lemma extends_openai_fallback:
  "extends_calls (call_of body t hdrs) st (snd (openai_fallback env request body t hdrs st))"
  using extends_call_streamGenerateInternal[where P="call_of body t hdrs" and body=body and t=t and hdrs=hdrs and st=st and env=env,
      OF call_of_token_call]
    extends_openai_unary[where body=body and t=t and hdrs=hdrs and st=st and env=env and request=request]
  by (auto simp: openai_fallback_def split: sum.splits prod.splits)

lemma extends_openai_try:
  "extends_calls (call_of body t hdrs) st (snd (openai_try env request body t hdrs st))"
proof -
  obtain r st1 where c1: "call_streamGenerateInternal env body t hdrs st = (r, st1)"
    by (cases "call_streamGenerateInternal env body t hdrs st") auto
  then have e1: "extends_calls (call_of body t hdrs) st st1"
    using extends_call_streamGenerateInternal[where P="call_of body t hdrs" and body=body and t=t and hdrs=hdrs and st=st and env=env,
      OF call_of_token_call] by simp
  have e2: "extends_calls (call_of body t hdrs) st
      (snd (openai_unary env request body t hdrs st1))"
    using e1 extends_openai_unary[where body=body and t=t and hdrs=hdrs and st=st1 and env=env and request=request]
    by (rule extends_calls_trans)
  show ?thesis using c1 e1 e2 extends_openai_unary[where body=body and t=t and hdrs=hdrs and st=st and env=env and request=request]
    by (auto simp: openai_try_def split: sum.splits prod.splits)
qed

lemma extends_calls_weaken:
  "extends_calls P st st' \<Longrightarrow> (\<And>c. P c \<Longrightarrow> Q c) \<Longrightarrow> extends_calls Q st st'"
  by (auto simp: extends_calls_def list_all_iff)

lemma call_of_unprojected: "gi_project body = [] \<Longrightarrow> call_of body t hdrs c \<Longrightarrow> unprojected t c"
  by (simp add: call_of_def unprojected_def)

lemma transform_project [simp]: "gi_project (transformClaudeRequestIn env n creq pid) = pid"
  by (simp add: transformClaudeRequestIn_def)

lemma create_project [simp]:
  "gi_project (createGeminiInternalRequest env n model request pid ty) = pid"
  by (simp add: createGeminiInternalRequest_def)

lemma token_project_None: "ct_project_id t = None \<Longrightarrow> token_project t = []"
  by (simp add: token_project_def)

lemma unprojected_anthropic_send:
  "gi_project body = [] \<Longrightarrow>
   extends_calls (unprojected t) st (snd (anthropic_send env request body t hdrs st))"
  by (rule extends_calls_weaken[OF extends_anthropic_send]) (rule call_of_unprojected)

lemma unprojected_gemini_send:
  "gi_project body = [] \<Longrightarrow>
   extends_calls (unprojected t) st (snd (gemini_send env body t hdrs st))"
  by (rule extends_calls_weaken[OF extends_gemini_send]) (rule call_of_unprojected)

lemma unprojected_gemini_stream_send:
  "gi_project body = [] \<Longrightarrow>
   extends_calls (unprojected t) st (snd (gemini_stream_send env body t hdrs st))"
  by (rule extends_calls_weaken[OF extends_gemini_stream_send]) (rule call_of_unprojected)

lemma unprojected_openai_try:
  "gi_project body = [] \<Longrightarrow>
   extends_calls (unprojected t) st (snd (openai_try env request body t hdrs st))"
  by (rule extends_calls_weaken[OF extends_openai_try]) (rule call_of_unprojected)

lemma unprojected_openai_fallback:
  "gi_project body = [] \<Longrightarrow>
   extends_calls (unprojected t) st (snd (openai_fallback env request body t hdrs st))"
  by (rule extends_calls_weaken[OF extends_openai_fallback]) (rule call_of_unprojected)

text \<open>Two sends in a row, the second made only after the first has failed.\<close>

lemma extends_then:
  assumes "extends_calls P st (snd (f st))"
    and "\<And>st1. extends_calls P st1 (snd (g st1))"
  shows "extends_calls P st
           (snd (case f st of (Inr r, st1) \<Rightarrow> (Inr r, st1)
                 | (Inl e, st1) \<Rightarrow> if c e then g st1 else (Inl e, st1)))"
proof -
  obtain r st1 where f: "f st = (r, st1)" by (cases "f st") auto
  then have e1: "extends_calls P st st1" using assms(1) by simp
  have e2: "extends_calls P st (snd (g st1))"
    using e1 assms(2)[of st1] by (rule extends_calls_trans)
  show ?thesis using f e1 e2 by (auto split: sum.splits)
qed

lemma unprojected_anthropic_first:
  assumes "ct_project_id t = None"
  shows "extends_calls (unprojected t) st (snd (anthropic_first env request t hdrs st))"
  unfolding anthropic_first_def Let_def token_project_None[OF assms]
  by (rule extends_then) (simp_all add: unprojected_anthropic_send)

lemma unprojected_anthropic_downgrade:
  assumes "ct_project_id t = None"
  shows "extends_calls (unprojected t) st (snd (anthropic_downgrade env request t hdrs st))"
proof -
  let ?b = "transformClaudeRequestIn env (length (os_calls st))
              ((toClaudeRequest request)\<lparr>cq_model := ''gemini-2.5-flash''\<rparr>) []"
  have "extends_calls (unprojected t) st (snd (anthropic_send env request ?b t hdrs st))"
    by (simp add: unprojected_anthropic_send)
  then show ?thesis
    by (auto simp: anthropic_downgrade_def Let_def token_project_None[OF assms]
        split: sum.splits prod.splits)
qed

lemma unprojected_attempt_anthropic:
  assumes "ct_project_id t = None"
  shows "extends_calls (unprojected t) st (snd (attempt_anthropic env request hdrs t st))"
  unfolding attempt_anthropic_def
  by (rule extends_then) (simp_all add: unprojected_anthropic_first unprojected_anthropic_downgrade assms)

lemma unprojected_attempt_gemini:
  assumes "ct_project_id t = None"
  shows "extends_calls (unprojected t) st (snd (attempt_gemini env model request hdrs t st))"
  unfolding attempt_gemini_def Let_def token_project_None[OF assms]
  by (rule extends_then) (simp_all add: unprojected_gemini_send)

lemma unprojected_attempt_gemini_stream:
  assumes "ct_project_id t = None"
  shows "extends_calls (unprojected t) st
           (snd (attempt_gemini_stream env model request hdrs t st))"
  unfolding attempt_gemini_stream_def Let_def token_project_None[OF assms]
  by (rule extends_then) (simp_all add: unprojected_gemini_stream_send)

lemma unprojected_attempt_openai:
  assumes "ct_project_id t = None"
  shows "extends_calls (unprojected t) st (snd (attempt_openai env request hdrs t st))"
  unfolding attempt_openai_def Let_def token_project_None[OF assms]
  by (rule extends_then) (simp_all add: unprojected_openai_try unprojected_openai_fallback)

lemma extends_calls_made:
  "extends_calls P st st' \<Longrightarrow> \<forall>c \<in> set (made_calls st st'). P c"
  by (simp add: extends_calls_def list_all_iff)

text \<open>
  C5. When the project id of the selected token matches \<open>^cloud-code-\d+$\<close>, without
  regard to case and after trimming, the account returned has no project id and the
  pool's token has none either; and every upstream call that an attempt of any of the
  four handlers makes for that account has a body whose \<open>project\<close> is the empty string.
\<close>

theorem synthetic_project_id_discarded:
  assumes "getNextToken tenv opts p0 = (Some acct, p')"
    and "distinct (map fst (tokens p0))"
    and "map_of (tokens (reloaded tenv p0)) (acc_id acct) = Some td"
    and "project_id td = Some s" and "is_cloud_code_id (trim s)"
  shows "\<exists>t. acc_token acct = Some t \<and> ct_project_id t = None \<and>
           map_option project_id (map_of (tokens p') (acc_id acct)) = Some None \<and>
           (\<forall>c \<in> set (made_calls st (snd (attempt_anthropic env arequest hdrs t st))).
              gi_project (uc_body c) = []) \<and>
           (\<forall>c \<in> set (made_calls st (snd (attempt_openai env orequest hdrs t st))).
              gi_project (uc_body c) = []) \<and>
           (\<forall>c \<in> set (made_calls st (snd (attempt_gemini env model grequest hdrs t st))).
              gi_project (uc_body c) = []) \<and>
           (\<forall>c \<in> set (made_calls st (snd (attempt_gemini_stream env model grequest hdrs t st))).
              gi_project (uc_body c) = [])"
proof -
  from selected_project_id_discarded[OF assms]
  obtain t where t: "acc_token acct = Some t" "ct_project_id t = None"
    and p: "map_option project_id (map_of (tokens p') (acc_id acct)) = Some None"
    by (cases "acc_token acct") auto
  have w: "\<forall>c \<in> set cs. unprojected t c \<Longrightarrow> \<forall>c \<in> set cs. gi_project (uc_body c) = []" for cs
    by (simp add: unprojected_def)
  have a: "\<forall>c \<in> set (made_calls st (snd (attempt_anthropic env arequest hdrs t st))).
              gi_project (uc_body c) = []"
    by (rule w[OF extends_calls_made[OF unprojected_attempt_anthropic[OF t(2)]]])
  have b: "\<forall>c \<in> set (made_calls st (snd (attempt_openai env orequest hdrs t st))).
              gi_project (uc_body c) = []"
    by (rule w[OF extends_calls_made[OF unprojected_attempt_openai[OF t(2)]]])
  have c: "\<forall>c \<in> set (made_calls st (snd (attempt_gemini env model grequest hdrs t st))).
              gi_project (uc_body c) = []"
    by (rule w[OF extends_calls_made[OF unprojected_attempt_gemini[OF t(2)]]])
  have d: "\<forall>c \<in> set (made_calls st (snd (attempt_gemini_stream env model grequest hdrs t st))).
              gi_project (uc_body c) = []"
    by (rule w[OF extends_calls_made[OF unprojected_attempt_gemini_stream[OF t(2)]]])
  show ?thesis
    by (intro exI[of _ t] conjI t p a b c d)
qed

lemma ex_sp1:
  "fst (getNextToken (ex_env 1000000) ex_opts_plain ex_pool) =
     Some \<lparr>acc_id = ''A'', acc_provider = ''google'', acc_email = ''A@test.com'',
           acc_token = Some ex_selected_token,
           acc_created_at = 1000002, acc_last_used = 1000002\<rparr>"
  by code_simp

lemma ex_sp2: "distinct (map fst (tokens ex_pool))"
  by code_simp

lemma ex_sp3:
  "map_of (tokens (reloaded (ex_env 1000000) ex_pool)) ''A'' =
     Some (ex_token ''A'' (Some ''Cloud-Code-123 ''))"
  by code_simp

lemma ex_sp4: "project_id (ex_token ''A'' (Some ''Cloud-Code-123 '')) = Some ''Cloud-Code-123 ''"
  by (simp add: ex_token_def)

lemma ex_sp5: "is_cloud_code_id (trim ''Cloud-Code-123 '')"
  by code_simp

lemma ex_sp6:
  "map (\<lambda>c. (uc_accessToken c, gi_project (uc_body c)))
     (made_calls (ex_state ex_pool)
        (snd (attempt_gemini ex_usable_env ''gemini-2.5-flash'' ex_gemini_request []
                ex_selected_token (ex_state ex_pool)))) = [(''token-A'', [])]"
  by code_simp

theorem synthetic_project_id_discarded_witness:
  "is_cloud_code_id (trim ''Cloud-Code-123 '') \<and>
   map_option ct_project_id
     (acc_token (the (fst (getNextToken (ex_env 1000000) ex_opts_plain ex_pool)))) = Some None \<and>
   map_option project_id
     (map_of (tokens (snd (getNextToken (ex_env 1000000) ex_opts_plain ex_pool))) ''A'') =
     Some None \<and>
   map (\<lambda>c. gi_project (uc_body c))
     (made_calls (ex_state ex_pool)
        (snd (attempt_gemini ex_usable_env ''gemini-2.5-flash'' ex_gemini_request []
                ex_selected_token (ex_state ex_pool)))) = [[]]"
proof -
  let ?X = "getNextToken (ex_env 1000000) ex_opts_plain ex_pool"
  have g: "?X = (Some (the (fst ?X)), snd ?X)"
    using ex_sp1 by (rule pair_of_fst_Some)
  have a: "acc_id (the (fst ?X)) = ''A''" by (simp add: ex_sp1)
  have tok: "acc_token (the (fst ?X)) = Some ex_selected_token" by (simp add: ex_sp1)
  have m: "map_of (tokens (reloaded (ex_env 1000000) ex_pool)) (acc_id (the (fst ?X))) =
     Some (ex_token ''A'' (Some ''Cloud-Code-123 ''))"
    using ex_sp3 by (simp only: a)
  note t = synthetic_project_id_discarded [OF g ex_sp2 m ex_sp4 ex_sp5,
      where st="ex_state ex_pool" and env=ex_usable_env and model="''gemini-2.5-flash''"
        and grequest=ex_gemini_request and hdrs="[]"]
  from t obtain t0 where t0: "acc_token (the (fst ?X)) = Some t0" "ct_project_id t0 = None"
    "map_option project_id (map_of (tokens (snd ?X)) (acc_id (the (fst ?X)))) = Some None"
    by blast
  from t0(1) tok have "t0 = ex_selected_token" by simp
  with t0 have 1: "ct_project_id ex_selected_token = None" by simp
  from t0(3) have 2: "map_option project_id (map_of (tokens (snd ?X)) ''A'') = Some None"
    by (simp only: a)
  let ?cs = "made_calls (ex_state ex_pool)
        (snd (attempt_gemini ex_usable_env ''gemini-2.5-flash'' ex_gemini_request []
                ex_selected_token (ex_state ex_pool)))"
  have "map (\<lambda>c. gi_project (uc_body c)) ?cs =
      map snd (map (\<lambda>c. (uc_accessToken c, gi_project (uc_body c))) ?cs)"
    by (simp add: comp_def)
  also have "\<dots> = [[]]" by (simp only: ex_sp6) simp
  finally have 4: "map (\<lambda>c. gi_project (uc_body c)) ?cs = [[]]" .
  show ?thesis using ex_sp5 tok 1 2 4 by simp
qed

section \<open>The quota downgrade of the Anthropic surface\<close>

lemma anthropic_downgrade_alt:
  "anthropic_downgrade env request t hdrs st =
     (case anthropic_send env request (downgraded_body env request t st) t hdrs st of
        (Inr r, st1) \<Rightarrow> (Inr (override_model (aq_model request) r), st1)
      | (Inl e, st1) \<Rightarrow> (Inl e, st1))"
  by (simp add: anthropic_downgrade_def downgraded_body_def Let_def)

lemma anthropic_send_result:
  assumes "anthropic_send env request body t hdrs st = (Inr r, st1)"
  shows "if aq_stream request then \<exists>stream. r = AnthropicStream stream (gi_model body)
         else \<exists>resp. r = AnthropicResponse resp"
  using assms by (auto simp: anthropic_send_def split: if_splits sum.splits prod.splits)

lemma anthropic_send_calls_nonempty:
  "made_calls st (snd (anthropic_send env request body t hdrs st)) \<noteq> []"
proof -
  have a: "made_calls st (snd (call_streamGenerateInternal env body t hdrs st)) \<noteq> []"
    by (simp add: made_calls_def call_streamGenerateInternal_def Let_def)
  have b: "made_calls st (snd (call_generateInternal env body t hdrs st)) \<noteq> []"
    by (simp add: made_calls_def call_generateInternal_def Let_def)
  have c: "made_calls st (snd (generateInternalWithStreamFallback env body t hdrs st)) \<noteq> []"
    by (auto simp: made_calls_def generateInternalWithStreamFallback_def
        call_generateInternal_def call_streamGenerateInternal_def Let_def split: sum.splits)
  show ?thesis using a c
    by (auto simp: anthropic_send_def split: sum.splits prod.splits)
qed

lemma snd_anthropic_downgrade:
  "snd (anthropic_downgrade env request t hdrs st) =
     snd (anthropic_send env request (downgraded_body env request t st) t hdrs st)"
  by (auto simp: anthropic_downgrade_alt split: sum.splits prod.splits)

text \<open>
  C8, as amended. When the \<open>try\<close> block of an Anthropic attempt, with its retry without
  project if one was made, fails with an error message that has "resource has been
  exhausted", "resource_exhausted" or "quota" (in any case), the attempt retries inline:
  no new selection is made, and every call of the retry has the same access token, proxy
  and headers and the body built from the request with the model replaced by
  \<open>gemini-2.5-flash\<close>. When the request is not streaming and the retry succeeds, the
  response returned has the model of the original request in its \<open>model\<close> member.
  When the request is streaming and the retry succeeds, the result is the event stream
  over the upstream stream, made with the model of the downgraded body.
\<close>

theorem quota_downgrade:
  assumes "anthropic_first env request t hdrs st = (Inl e, st1)"
    and "isQuotaExhaustedError e"
  shows
    "attempt_anthropic env request hdrs t st = anthropic_downgrade env request t hdrs st1 \<and>
     os_selections (snd (attempt_anthropic env request hdrs t st)) = os_selections st1 \<and>
     os_pool (snd (attempt_anthropic env request hdrs t st)) = os_pool st1 \<and>
     made_calls st1 (snd (attempt_anthropic env request hdrs t st)) \<noteq> [] \<and>
     (\<forall>c \<in> set (made_calls st1 (snd (attempt_anthropic env request hdrs t st))).
        uc_accessToken c = ct_access_token t \<and>
        uc_upstreamProxyUrl c = ct_upstream_proxy_url t \<and>
        uc_extraHeaders c = hdrs \<and>
        uc_body c = downgraded_body env request t st1) \<and>
     gi_model (downgraded_body env request t st1) = oe_claudeModel env ''gemini-2.5-flash'' \<and>
     (\<forall>r. fst (attempt_anthropic env request hdrs t st) = Inr r \<longrightarrow>
        (if aq_stream request
         then \<exists>stream. r = AnthropicStream stream (oe_claudeModel env ''gemini-2.5-flash'')
         else \<exists>resp. r = AnthropicResponse resp \<and> ar_model resp = JStr (aq_model request)))"
proof -
  let ?b = "downgraded_body env request t st1"
  let ?S = "anthropic_send env request ?b t hdrs st1"
  have att: "attempt_anthropic env request hdrs t st = anthropic_downgrade env request t hdrs st1"
    using assms by (simp add: attempt_anthropic_def)
  have ext: "extends_calls (call_of ?b t hdrs) st1 (snd ?S)"
    by (rule extends_anthropic_send)
  have sn: "snd (attempt_anthropic env request hdrs t st) = snd ?S"
    by (simp add: att snd_anthropic_downgrade)
  have m: "gi_model ?b = oe_claudeModel env ''gemini-2.5-flash''"
    by (simp add: downgraded_body_def transformClaudeRequestIn_def)
  have res: "\<forall>r. fst (attempt_anthropic env request hdrs t st) = Inr r \<longrightarrow>
        (if aq_stream request
         then \<exists>stream. r = AnthropicStream stream (oe_claudeModel env ''gemini-2.5-flash'')
         else \<exists>resp. r = AnthropicResponse resp \<and> ar_model resp = JStr (aq_model request))"
  proof (intro allI impI)
    fix r assume r: "fst (attempt_anthropic env request hdrs t st) = Inr r"
    obtain x st2 where S: "?S = (x, st2)" by (cases ?S) auto
    with r att obtain r0 where x: "x = Inr r0" and rr: "r = override_model (aq_model request) r0"
      by (cases x) (auto simp: anthropic_downgrade_alt)
    from anthropic_send_result[OF S[unfolded x]] rr m
    show "if aq_stream request
         then \<exists>stream. r = AnthropicStream stream (oe_claudeModel env ''gemini-2.5-flash'')
         else \<exists>resp. r = AnthropicResponse resp \<and> ar_model resp = JStr (aq_model request)"
      by (auto simp: override_model_def split: if_splits)
  qed
  have calls: "\<forall>c \<in> set (made_calls st1 (snd ?S)). call_of ?b t hdrs c"
    using ext by (rule extends_calls_made)
  show ?thesis
    unfolding sn
    using att[unfolded sn] ext m res[unfolded sn] calls
      anthropic_send_calls_nonempty[of st1 env request ?b t hdrs]
    unfolding sn[symmetric]
    by (simp add: extends_calls_def call_of_def sn)
qed

lemma ex_qd1:
  "fst (anthropic_first ex_quota_env (ex_anthropic_request ''claude-sonnet-4-5'' False)
          ex_selected_token [] (ex_state ex_pool)) = Inl quota_message"
  by code_simp

lemma ex_qd2: "isQuotaExhaustedError quota_message"
  by code_simp

lemma ex_qd3:
  "is_response (fst (attempt_anthropic ex_quota_env (ex_anthropic_request ''claude-sonnet-4-5'' False) []
          ex_selected_token (ex_state ex_pool)))"
  by code_simp

lemma ex_qd4:
  "map (\<lambda>c. (uc_accessToken c, gi_model (uc_body c)))
     (os_calls (snd (attempt_anthropic ex_quota_env (ex_anthropic_request ''claude-sonnet-4-5'' False) []
          ex_selected_token (ex_state ex_pool)))) =
   [(''token-A'', ''claude-sonnet-4-5''), (''token-A'', ''gemini-2.5-flash'')]"
  by code_simp

theorem quota_downgrade_witness:
  "isQuotaExhaustedError quota_message \<and>
   (\<exists>resp. fst (attempt_anthropic ex_quota_env (ex_anthropic_request ''claude-sonnet-4-5'' False) []
                  ex_selected_token (ex_state ex_pool)) = Inr (AnthropicResponse resp) \<and>
           ar_model resp = JStr ''claude-sonnet-4-5'') \<and>
   map (\<lambda>c. (uc_accessToken c, gi_model (uc_body c)))
     (os_calls (snd (attempt_anthropic ex_quota_env (ex_anthropic_request ''claude-sonnet-4-5'' False) []
          ex_selected_token (ex_state ex_pool)))) =
   [(''token-A'', ''claude-sonnet-4-5''), (''token-A'', ''gemini-2.5-flash'')]"
proof -
  let ?req = "ex_anthropic_request ''claude-sonnet-4-5'' False"
  let ?F = "anthropic_first ex_quota_env ?req ex_selected_token [] (ex_state ex_pool)"
  let ?A = "attempt_anthropic ex_quota_env ?req [] ex_selected_token (ex_state ex_pool)"
  have f: "?F = (Inl quota_message, snd ?F)"
    using ex_qd1 by (rule pair_of_fst)
  note t = quota_downgrade [OF f ex_qd2]
  from ex_qd3 obtain resp where r: "fst ?A = Inr (AnthropicResponse resp)"
    by (auto simp: is_response_def split: sum.splits anthropic_result.splits)
  have s: "\<not> aq_stream ?req" by (simp add: ex_anthropic_request_def)
  have m: "aq_model ?req = ''claude-sonnet-4-5''" by (simp add: ex_anthropic_request_def)
  from t have "\<forall>r. fst ?A = Inr r \<longrightarrow>
        (if aq_stream ?req
         then \<exists>stream. r = AnthropicStream stream (oe_claudeModel ex_quota_env ''gemini-2.5-flash'')
         else \<exists>resp. r = AnthropicResponse resp \<and> ar_model resp = JStr (aq_model ?req))"
    by blast
  with r s m have "ar_model resp = JStr ''claude-sonnet-4-5''"
    by auto
  with r ex_qd2 ex_qd4 show ?thesis by blast
qed

text \<open>
  C8, the streaming case. Two streaming requests that differ in the model only, against
  an upstream that has quota left for \<open>gemini-2.5-flash\<close> only: both are retried
  inline with the same account, and both return the same event stream, made over the
  upstream stream with the model of the downgraded body. The model of the request is
  not in what is returned.
\<close>

theorem streamed_downgrade_counterexample:
  "isQuotaExhaustedError quota_message \<and>
   fst (handleAnthropicMessages ex_quota_env (ex_anthropic_request ''claude-sonnet-4-5'' True)
          (ex_state ex_pool)) = Inr (AnthropicStream hello_stream ''gemini-2.5-flash'') \<and>
   fst (handleAnthropicMessages ex_quota_env (ex_anthropic_request ''claude-opus-4-5'' True)
          (ex_state ex_pool)) = Inr (AnthropicStream hello_stream ''gemini-2.5-flash'') \<and>
   map (\<lambda>c. (uc_stream c, uc_accessToken c, gi_model (uc_body c)))
     (os_calls (snd (handleAnthropicMessages ex_quota_env
                       (ex_anthropic_request ''claude-sonnet-4-5'' True) (ex_state ex_pool)))) =
   [(True, ''token-A'', ''claude-sonnet-4-5''), (True, ''token-A'', ''gemini-2.5-flash'')]"
  by code_simp

section \<open>Errors that are not retryable\<close>

text \<open>
  C1. An upstream that answers every call with \<open>400 invalid argument\<close>, which the
  classification gives \<open>retry = False\<close>, and a pool of three accounts: the handler
  still makes three attempts, each with an account not attempted before, and throws the
  last error.
\<close>

theorem unretryable_error_is_retried:
  "retry (classifyUpstreamError ''400 invalid argument'') = False \<and>
   fst (handleChatCompletions ex_failing_env ex_openai_request (ex_state ex_pool3)) =
     Inl ''400 invalid argument'' \<and>
   map opt_excludeAccountIds
     (os_selections (snd (handleChatCompletions ex_failing_env ex_openai_request
                            (ex_state ex_pool3)))) = [[], [''A''], [''A'', ''C'']] \<and>
   map uc_accessToken
     (os_calls (snd (handleChatCompletions ex_failing_env ex_openai_request
                       (ex_state ex_pool3)))) = [''token-A'', ''token-C'', ''token-B'']"
  by code_simp

section \<open>Forbidden wins over rate limited\<close>
























end
